(* ===== verification/Prelude.thy ===== *)
theory Prelude
  imports Complex_Main "HOL-Library.List_Lexorder" "HOL-Library.Product_Lexorder"
    "HOL-Library.Sublist"
begin

text \<open>
  What every component shares: Python's \<open>str\<close>, \<open>bytes\<close> and JSON values, the exceptions of the
  modelled modules, the sequencing of code that may raise, and the list lemmas the components use.

  A Python \<open>str\<close> is its list of code points (\<^typ>\<open>nat list\<close>, surrogates included, so that a strict
  UTF-8 encoding can fail as it does in Python); a \<open>bytes\<close> object is a list of naturals below 256.
  A decoded JSON value is a \<open>json\<close>; a \<open>dict\<close> keeps its insertion order, so it is an association
  list.  Python's \<open>bool\<close> is a subclass of \<open>int\<close>, but the sources test \<open>type(x) is int\<close>, which the
  constructors reproduce.
\<close>

named_theorems exn_simps "sequencing of code that may raise"
named_theorems dict_simps "lookups in dictionaries"

section \<open>Text and JSON values\<close>

type_synonym pystr = "nat list"
type_synonym pybytes = "nat list"

definition lit :: "string \<Rightarrow> pystr" where
  "lit s = map of_char s"

definition is_bytes :: "pybytes \<Rightarrow> bool" where
  "is_bytes bs = list_all (\<lambda>b. b < 256) bs"

text \<open>A Python float: its sign (so that \<open>-0.0\<close> is a value) and magnitude, or one of the others.\<close>

datatype pyfloat = FFinite bool rat | FInfinite bool | FNaN

datatype json =
    JNull
  | JBool bool
  | JInt int
  | JFloat pyfloat
  | JStr pystr
  | JArr "json list"
  | JObj "(pystr \<times> json) list"

type_synonym dict = "(pystr \<times> json) list"

abbreviation jlit :: "string \<Rightarrow> json" where
  "jlit s \<equiv> JStr (lit s)"

text \<open>\<open>d.get(k)\<close>, whose default is \<open>None\<close>; \<open>k in d\<close>; and the keys in insertion order.\<close>

definition dget :: "dict \<Rightarrow> pystr \<Rightarrow> json" where
  "dget d k = (case map_of d k of None \<Rightarrow> JNull | Some v \<Rightarrow> v)"

definition has_key :: "dict \<Rightarrow> pystr \<Rightarrow> bool" where
  "has_key d k = (map_of d k \<noteq> None)"

definition dkeys :: "dict \<Rightarrow> pystr list" where
  "dkeys d = map fst d"

fun is_str :: "json \<Rightarrow> bool" where
  "is_str (JStr _) = True"
| "is_str _ = False"

fun is_bool :: "json \<Rightarrow> bool" where
  "is_bool (JBool _) = True"
| "is_bool _ = False"

fun is_int :: "json \<Rightarrow> bool" where
  "is_int (JInt _) = True"
| "is_int _ = False"

fun is_arr :: "json \<Rightarrow> bool" where
  "is_arr (JArr _) = True"
| "is_arr _ = False"

fun is_obj :: "json \<Rightarrow> bool" where
  "is_obj (JObj _) = True"
| "is_obj _ = False"

text \<open>The projections used after a type test has succeeded.\<close>

fun str_of :: "json \<Rightarrow> pystr" where
  "str_of (JStr s) = s"
| "str_of _ = []"

fun bool_of :: "json \<Rightarrow> bool" where
  "bool_of (JBool b) = b"
| "bool_of _ = False"

fun int_of :: "json \<Rightarrow> int" where
  "int_of (JInt i) = i"
| "int_of _ = 0"

fun arr_of :: "json \<Rightarrow> json list" where
  "arr_of (JArr xs) = xs"
| "arr_of _ = []"

fun obj_of :: "json \<Rightarrow> dict" where
  "obj_of (JObj d) = d"
| "obj_of _ = []"

text \<open>A dictionary never holds a key twice, at any depth.\<close>

fun wf_json :: "json \<Rightarrow> bool" where
  "wf_json (JArr xs) = list_all wf_json xs"
| "wf_json (JObj d) = (distinct (map fst d) \<and> list_all (\<lambda>kv. wf_json (snd kv)) d)"
| "wf_json _ = True"

section \<open>Exceptions\<close>

text \<open>
  The exception classes the modelled code raises or catches.  \<open>PolicyError\<close>, the Unicode, the
  \<open>binascii\<close> and the JSON errors are subclasses of \<open>ValueError\<close>; \<open>is_value_error\<close> is that class test.
\<close>

datatype exn =
    RpcError int pystr "json option"
  | PolicyError pystr pystr
  | ValueError pystr
  | UnicodeError
  | JSONDecodeError
  | TypeError pystr
  | KeyError pystr
  | RuntimeError pystr
  | PermissionError pystr
  | FileNotFoundError pystr
  | OSError int pystr
  | ProtocolClosed pystr
  | ChannelViolation pystr
  | EOFError
  | BinasciiError
  | TimeoutError
  | FileExistsError pystr
  | RunnerError pystr
  | AttributeError pystr

fun is_value_error :: "exn \<Rightarrow> bool" where
  "is_value_error (ValueError _) = True"
| "is_value_error (PolicyError _ _) = True"
| "is_value_error UnicodeError = True"
| "is_value_error JSONDecodeError = True"
| "is_value_error BinasciiError = True"
| "is_value_error _ = False"

text \<open>\<open>PermissionError\<close>, \<open>FileNotFoundError\<close> and \<open>FileExistsError\<close> are subclasses of \<open>OSError\<close>.\<close>

fun is_os_error :: "exn \<Rightarrow> bool" where
  "is_os_error (OSError _ _) = True"
| "is_os_error (PermissionError _) = True"
| "is_os_error (FileNotFoundError _) = True"
| "is_os_error (FileExistsError _) = True"
| "is_os_error _ = False"

abbreviation rpc :: "int \<Rightarrow> string \<Rightarrow> exn" where
  "rpc c m \<equiv> RpcError c (lit m) None"

definition bindE :: "exn + 'a \<Rightarrow> ('a \<Rightarrow> exn + 'b) \<Rightarrow> exn + 'b" where
  "bindE m f = (case m of Inl e \<Rightarrow> Inl e | Inr x \<Rightarrow> f x)"

text \<open>\<open>if bad: raise e\<close>, a sequence of such statements, and a loop whose body may raise.\<close>

definition raiseIf :: "bool \<Rightarrow> exn \<Rightarrow> exn + unit" where
  "raiseIf bad e = (if bad then Inl e else Inr ())"

definition seqE :: "exn + unit \<Rightarrow> exn + 'b \<Rightarrow> exn + 'b" where
  "seqE m k = bindE m (\<lambda>_. k)"

fun eachE :: "('a \<Rightarrow> exn + unit) \<Rightarrow> 'a list \<Rightarrow> exn + unit" where
  "eachE f [] = Inr ()"
| "eachE f (x # xs) = seqE (f x) (eachE f xs)"

fun mapE :: "('a \<Rightarrow> exn + 'b) \<Rightarrow> 'a list \<Rightarrow> exn + 'b list" where
  "mapE f [] = Inr []"
| "mapE f (x # xs) = bindE (f x) (\<lambda>y. bindE (mapE f xs) (\<lambda>ys. Inr (y # ys)))"

fun foldE :: "('s \<Rightarrow> 'a \<Rightarrow> exn + 's) \<Rightarrow> 's \<Rightarrow> 'a list \<Rightarrow> exn + 's" where
  "foldE f s [] = Inr s"
| "foldE f s (x # xs) = bindE (f s x) (\<lambda>t. foldE f t xs)"

text \<open>\<open>try: m; except C as e: raise f(e)\<close> for the class test \<open>c\<close>.\<close>

definition catchE :: "exn + 'a \<Rightarrow> (exn \<Rightarrow> bool) \<Rightarrow> (exn \<Rightarrow> exn) \<Rightarrow> exn + 'a" where
  "catchE m c f = (case m of Inl e \<Rightarrow> Inl (if c e then f e else e) | Inr x \<Rightarrow> Inr x)"

lemma bindE_simps [simp, exn_simps]:
  "bindE (Inl e) f = Inl e" "bindE (Inr x) f = f x"
  by (simp_all add: bindE_def)

lemma bindE_Inr_iff [exn_simps]: "bindE m f = Inr y \<longleftrightarrow> (\<exists>x. m = Inr x \<and> f x = Inr y)"
  by (cases m) auto

text \<open>Elimination of a run that did not raise, one statement at a time.\<close>

lemma bindE_InrE: "bindE m f = Inr y \<Longrightarrow> (\<And>x. m = Inr x \<Longrightarrow> f x = Inr y \<Longrightarrow> P) \<Longrightarrow> P"
  by (cases m) auto

lemma if_raiseE: "(if b then Inl e else r) = Inr y \<Longrightarrow> (\<not> b \<Longrightarrow> r = Inr y \<Longrightarrow> P) \<Longrightarrow> P"
  by (auto split: if_splits)

lemma bindE_Inl_iff:
  "bindE m f = Inl e \<longleftrightarrow> m = Inl e \<or> (\<exists>x. m = Inr x \<and> f x = Inl e)"
  by (cases m) auto

lemma bindE_assoc: "bindE (bindE m f) g = bindE m (\<lambda>x. bindE (f x) g)"
  by (cases m) auto

lemma seqE_simps [simp, exn_simps]:
  "seqE (Inl e) k = Inl e" "seqE (Inr u) k = k"
  by (simp_all add: seqE_def)

lemma seqE_Inr_iff [exn_simps]: "seqE m k = Inr y \<longleftrightarrow> m = Inr () \<and> k = Inr y"
  by (cases m) auto

lemma seqE_InrE: "seqE m k = Inr y \<Longrightarrow> (m = Inr () \<Longrightarrow> k = Inr y \<Longrightarrow> P) \<Longrightarrow> P"
  by (cases m) auto

lemmas exn_elims = bindE_InrE seqE_InrE if_raiseE

lemma seqE_Inl_iff: "seqE m k = Inl e \<longleftrightarrow> m = Inl e \<or> (m = Inr () \<and> k = Inl e)"
  by (cases m) auto

lemma raiseIf_simps [simp, exn_simps]:
  "raiseIf True e = Inl e" "raiseIf False e = Inr ()"
  by (simp_all add: raiseIf_def)

lemma raiseIf_Inr_iff [simp, exn_simps]: "raiseIf b e = Inr u \<longleftrightarrow> \<not> b"
  by (simp add: raiseIf_def)

lemma raiseIf_Inl_iff [simp]: "raiseIf b e = Inl e' \<longleftrightarrow> b \<and> e' = e"
  by (auto simp: raiseIf_def)

lemma eachE_Inr_iff [exn_simps]: "eachE f xs = Inr u \<longleftrightarrow> (\<forall>x \<in> set xs. f x = Inr ())"
  by (induction xs) (auto simp: exn_simps)

lemma mapE_Inr_iff [exn_simps]:
  "mapE f xs = Inr ys \<longleftrightarrow> list_all2 (\<lambda>x y. f x = Inr y) xs ys"
  by (induction xs arbitrary: ys) (auto simp: exn_simps list_all2_Cons1)

lemma list_all2_right: "list_all2 P xs ys \<Longrightarrow> y \<in> set ys \<Longrightarrow> \<exists>x \<in> set xs. P x y"
  by (induction rule: list_all2_induct) auto

lemma mapE_total: "(\<And>x. x \<in> set xs \<Longrightarrow> f x = Inr (g x)) \<Longrightarrow> mapE f xs = Inr (map g xs)"
  by (induction xs) auto

lemma mapE_cong [fundef_cong]:
  "xs = ys \<Longrightarrow> (\<And>x. x \<in> set ys \<Longrightarrow> f x = g x) \<Longrightarrow> mapE f xs = mapE g ys"
  by (induction ys arbitrary: xs) auto

lemma foldE_append:
  "foldE f s (xs @ ys) = bindE (foldE f s xs) (\<lambda>t. foldE f t ys)"
  by (induction xs arbitrary: s) (auto simp: bindE_assoc)

lemma foldE_invariant:
  assumes "foldE f s xs = Inr t" and "I s"
    and "\<And>s x t. x \<in> set xs \<Longrightarrow> I s \<Longrightarrow> f s x = Inr t \<Longrightarrow> I t"
  shows "I t"
  using assms by (induction xs arbitrary: s) (auto simp: exn_simps)

lemma catchE_Inr_iff [simp, exn_simps]: "catchE m c f = Inr x \<longleftrightarrow> m = Inr x"
  by (cases m) (auto simp: catchE_def)

lemma catchE_simps [simp]:
  "catchE (Inr x) c f = Inr x" "catchE (Inl e) c f = Inl (if c e then f e else e)"
  by (simp_all add: catchE_def)

text \<open>\<open>raises Q m\<close>: if \<open>m\<close> raises, the exception satisfies \<open>Q\<close>.\<close>

definition raises :: "(exn \<Rightarrow> bool) \<Rightarrow> exn + 'a \<Rightarrow> bool" where
  "raises Q m \<longleftrightarrow> (case m of Inl e \<Rightarrow> Q e | Inr _ \<Rightarrow> True)"

named_theorems raises_intros "which exceptions a statement may raise"

lemma raises_simps [simp]: "raises Q (Inl e) = Q e" "raises Q (Inr x)"
  by (simp_all add: raises_def)

lemma raises_bindE [raises_intros]:
  "raises Q m \<Longrightarrow> (\<And>x. m = Inr x \<Longrightarrow> raises Q (f x)) \<Longrightarrow> raises Q (bindE m f)"
  by (cases m) auto

lemma raises_seqE [raises_intros]: "raises Q m \<Longrightarrow> (m = Inr () \<Longrightarrow> raises Q k) \<Longrightarrow> raises Q (seqE m k)"
  by (cases m) auto

lemma raises_if [raises_intros]: "(b \<Longrightarrow> raises Q m) \<Longrightarrow> (\<not> b \<Longrightarrow> raises Q k) \<Longrightarrow> raises Q (if b then m else k)"
  by simp

lemma raises_raiseIf [raises_intros]: "(b \<Longrightarrow> Q e) \<Longrightarrow> raises Q (raiseIf b e)"
  by (simp add: raiseIf_def)

lemma raises_eachE [raises_intros]: "(\<And>x. x \<in> set xs \<Longrightarrow> raises Q (f x)) \<Longrightarrow> raises Q (eachE f xs)"
  by (induction xs) (auto intro: raises_intros)

lemma raises_mapE [raises_intros]: "(\<And>x. x \<in> set xs \<Longrightarrow> raises Q (f x)) \<Longrightarrow> raises Q (mapE f xs)"
  by (induction xs) (auto intro!: raises_intros)

lemma raisesD: "raises Q m \<Longrightarrow> m = Inl e \<Longrightarrow> Q e"
  by (simp add: raises_def)

section \<open>Searching lists\<close>

text \<open>The first result a loop with \<open>break\<close> finds.\<close>

fun first_some :: "('a \<Rightarrow> 'b option) \<Rightarrow> 'a list \<Rightarrow> 'b option" where
  "first_some f [] = None"
| "first_some f (x # xs) = (case f x of None \<Rightarrow> first_some f xs | Some y \<Rightarrow> Some y)"

text \<open>\<open>max(xs, key=f, default=None)\<close>: the first of the elements with the greatest key.\<close>

fun max_by :: "('a \<Rightarrow> 'k::linorder) \<Rightarrow> 'a list \<Rightarrow> 'a option" where
  "max_by f [] = None"
| "max_by f (x # xs) =
     (case max_by f xs of None \<Rightarrow> Some x | Some y \<Rightarrow> if f y \<le> f x then Some x else Some y)"

lemma first_some_None_iff: "first_some f xs = None \<longleftrightarrow> (\<forall>x \<in> set xs. f x = None)"
  by (induction xs) (auto split: option.splits)

lemma first_some_SomeD: "first_some f xs = Some y \<Longrightarrow> \<exists>x \<in> set xs. f x = Some y"
  by (induction xs) (auto split: option.splits)

lemma max_by_None_iff [simp]: "max_by f xs = None \<longleftrightarrow> xs = []"
  by (cases xs) (auto split: option.splits)

lemma max_by_SomeD:
  "max_by f xs = Some y \<Longrightarrow> y \<in> set xs \<and> (\<forall>x \<in> set xs. f x \<le> f y)"
  by (induction xs arbitrary: y) (fastforce split: option.splits if_splits)+

section \<open>Literals and dictionaries\<close>

lemma lit_inject [simp]: "lit a = lit b \<longleftrightarrow> a = b"
  by (simp add: lit_def inj_map_eq_map inj_def)

lemma length_lit [simp]: "length (lit s) = length s"
  by (simp add: lit_def)

lemma lit_Nil_iff [simp]: "lit s = [] \<longleftrightarrow> s = []" "[] = lit s \<longleftrightarrow> s = []"
  by (auto simp: lit_def)

lemma set_lit_range: "c \<in> set (lit s) \<Longrightarrow> c < 256"
  by (auto simp: lit_def)

lemma lit_append: "lit (a @ b) = lit a @ lit b"
  by (simp add: lit_def)

lemma dget_simps [simp, dict_simps]:
  "dget [] k = JNull"
  "dget ((k', v) # d) k = (if k' = k then v else dget d k)"
  by (auto simp: dget_def)

lemma has_key_simps [simp, dict_simps]:
  "has_key [] k = False"
  "has_key ((k', v) # d) k = (k' = k \<or> has_key d k)"
  by (auto simp: has_key_def)

lemma has_key_iff: "has_key d k \<longleftrightarrow> k \<in> set (dkeys d)"
  by (induction d) (auto simp: dkeys_def)

lemma dkeys_simps [simp, dict_simps]:
  "dkeys [] = []" "dkeys ((k, v) # d) = k # dkeys d" "dkeys (d @ e) = dkeys d @ dkeys e"
  by (simp_all add: dkeys_def)

lemma dget_append:
  "dget (d @ e) k = (if has_key d k then dget d k else dget e k)"
  by (auto simp: dget_def has_key_def map_add_def split: option.splits)

lemma has_key_append [simp]: "has_key (d @ e) k \<longleftrightarrow> has_key d k \<or> has_key e k"
  by (auto simp: has_key_def map_add_def split: option.splits)

lemma dget_mem: "has_key d k \<Longrightarrow> (k, dget d k) \<in> set d"
  by (auto simp: dget_def has_key_def dest: map_of_SomeD)

lemma dget_not_key: "\<not> has_key d k \<Longrightarrow> dget d k = JNull"
  by (simp add: dget_def has_key_def)

lemma json_shape:
  "is_str v \<longleftrightarrow> (\<exists>s. v = JStr s)" "is_bool v \<longleftrightarrow> (\<exists>b. v = JBool b)"
  "is_int v \<longleftrightarrow> (\<exists>i. v = JInt i)" "is_arr v \<longleftrightarrow> (\<exists>xs. v = JArr xs)"
  "is_obj v \<longleftrightarrow> (\<exists>d. v = JObj d)"
  by (cases v; simp)+

section \<open>Runs of a component\<close>

text \<open>
  The stateful components are labelled step relations.  A run is a sequence of steps; what every
  step preserves holds at the end of every run that starts with it.
\<close>

inductive run :: "('s \<Rightarrow> 'l \<Rightarrow> 's \<Rightarrow> bool) \<Rightarrow> 's \<Rightarrow> 'l list \<Rightarrow> 's \<Rightarrow> bool" for step where
  run_Nil: "run step s [] s"
| run_Cons: "step s l t \<Longrightarrow> run step t ls u \<Longrightarrow> run step s (l # ls) u"

inductive_simps run_Nil_iff [simp]: "run step s [] u"
inductive_simps run_Cons_iff: "run step s (l # ls) u"

locale invariant_system =
  fixes step :: "'s \<Rightarrow> 'l \<Rightarrow> 's \<Rightarrow> bool" and inv :: "'s \<Rightarrow> bool"
  assumes preserved: "inv s \<Longrightarrow> step s l t \<Longrightarrow> inv t"
begin

lemma run_preserves: "run step s ls t \<Longrightarrow> inv s \<Longrightarrow> inv t"
  by (induction rule: run.induct) (auto intro: preserved)

lemma run_relates:
  assumes "\<And>s. inv s \<Longrightarrow> R s [] s"
    and "\<And>s l t ls u. inv s \<Longrightarrow> step s l t \<Longrightarrow> R t ls u \<Longrightarrow> R s (l # ls) u"
  shows "run step s ls t \<Longrightarrow> inv s \<Longrightarrow> R s ls t"
  by (induction rule: run.induct) (auto intro: assms preserved)

end

end
