(* ===== verification/PyText.thy ===== *)
theory PyText
  imports Prelude
begin

text \<open>
  The parts of Python's text library that the sources call: splitting and joining, strict UTF-8,
  hexadecimal, base64, percent-encoding and \<open>urllib.parse.urlsplit\<close> (CPython 3.14).  Each encoder
  comes with the law that its decoder inverts it.
\<close>

section \<open>Splitting, joining, stripping\<close>

fun split_on :: "'a \<Rightarrow> 'a list \<Rightarrow> 'a list list" where
  "split_on c [] = [[]]"
| "split_on c (x # xs) =
     (if x = c then [] # split_on c xs
      else (case split_on c xs of [] \<Rightarrow> [[x]] | y # ys \<Rightarrow> (x # y) # ys))"

fun join_on :: "'a list \<Rightarrow> 'a list list \<Rightarrow> 'a list" where
  "join_on sep [] = []"
| "join_on sep [x] = x"
| "join_on sep (x # y # ys) = x @ sep @ join_on sep (y # ys)"

text \<open>\<open>s.partition(c)\<close> as the part before the first \<open>c\<close> and, when there is one, the part after.\<close>

fun partition_on :: "'a \<Rightarrow> 'a list \<Rightarrow> 'a list \<times> 'a list option" where
  "partition_on c [] = ([], None)"
| "partition_on c (x # xs) =
     (if x = c then ([], Some xs) else (case partition_on c xs of (a, b) \<Rightarrow> (x # a, b)))"

text \<open>\<open>s.rpartition(c)[2]\<close>: what follows the last \<open>c\<close>, or all of \<open>s\<close>.\<close>

definition after_last :: "'a \<Rightarrow> 'a list \<Rightarrow> 'a list" where
  "after_last c s = last (split_on c s)"

definition ascii_lower :: "pystr \<Rightarrow> pystr" where
  "ascii_lower s = map (\<lambda>c. if 65 \<le> c \<and> c \<le> 90 then c + 32 else c) s"

definition is_alpha :: "nat \<Rightarrow> bool" where
  "is_alpha c = (65 \<le> c \<and> c \<le> 90 \<or> 97 \<le> c \<and> c \<le> 122)"

definition is_digit :: "nat \<Rightarrow> bool" where
  "is_digit c = (48 \<le> c \<and> c \<le> 57)"

text \<open>\<open>str(n)\<close> for an integer.\<close>

fun nat_digits :: "nat \<Rightarrow> pystr" where
  "nat_digits n = (if n < 10 then [48 + n] else nat_digits (n div 10) @ [48 + n mod 10])"

declare nat_digits.simps [simp del]

definition int_str :: "int \<Rightarrow> pystr" where
  "int_str i = (if i < 0 then 45 # nat_digits (nat (- i)) else nat_digits (nat i))"

lemma split_on_nonempty [simp]: "split_on c s \<noteq> []"
  by (induction s) (auto split: list.splits)

lemma join_on_Cons_Cons [simp]: "join_on sep ((x # a) # l) = x # join_on sep (a # l)"
  by (cases l) auto

lemma join_on_Nil_Cons [simp]: "l \<noteq> [] \<Longrightarrow> join_on [c] ([] # l) = c # join_on [c] l"
  by (cases l) auto

lemma join_split [simp]: "join_on [c] (split_on c s) = s"
proof (induction s)
  case (Cons x xs)
  then show ?case
    by (cases "split_on c xs") auto
qed simp

lemma split_on_notin: "c \<notin> set p \<Longrightarrow> split_on c p = [p]"
  by (induction p) auto

lemma split_on_append:
  "c \<notin> set p \<Longrightarrow> split_on c (p @ c # r) = p # split_on c r"
  by (induction p) auto

lemma split_join:
  assumes "ps \<noteq> []" and "\<And>p. p \<in> set ps \<Longrightarrow> c \<notin> set p"
  shows "split_on c (join_on [c] ps) = ps"
  using assms by (induction ps rule: induct_list012) (auto simp: split_on_notin split_on_append)

lemma split_on_parts: "p \<in> set (split_on c s) \<Longrightarrow> c \<notin> set p"
proof (induction s arbitrary: p)
  case (Cons x xs)
  then show ?case
    by (cases "split_on c xs") (auto split: if_splits)
qed simp

lemma split_on_subset: "p \<in> set (split_on c s) \<Longrightarrow> set p \<subseteq> set s"
proof (induction s arbitrary: p)
  case (Cons x xs)
  obtain y ys where s: "split_on c xs = y # ys"
    by (cases "split_on c xs") auto
  with Cons.IH have "set y \<subseteq> set xs" "\<forall>q \<in> set ys. set q \<subseteq> set xs"
    by auto
  with Cons.prems s show ?case by (auto split: if_splits)
qed simp

section \<open>Strict UTF-8\<close>

definition is_scalar :: "nat \<Rightarrow> bool" where
  "is_scalar c = (c < 0x110000 \<and> \<not> (0xD800 \<le> c \<and> c \<le> 0xDFFF))"

definition utf8_char :: "nat \<Rightarrow> pybytes" where
  "utf8_char c =
     (if c < 0x80 then [c]
      else if c < 0x800 then [0xC0 + c div 64, 0x80 + c mod 64]
      else if c < 0x10000 then [0xE0 + c div 4096, 0x80 + c div 64 mod 64, 0x80 + c mod 64]
      else [0xF0 + c div 262144, 0x80 + c div 4096 mod 64, 0x80 + c div 64 mod 64, 0x80 + c mod 64])"

text \<open>\<open>s.encode("utf-8", errors="strict")\<close>: \<open>None\<close> where Python raises \<open>UnicodeEncodeError\<close>.\<close>

definition utf8_encode :: "pystr \<Rightarrow> pybytes option" where
  "utf8_encode s = (if list_all is_scalar s then Some (concat (map utf8_char s)) else None)"

definition is_cont :: "nat \<Rightarrow> bool" where
  "is_cont b = (0x80 \<le> b \<and> b < 0xC0)"

text \<open>
  \<open>bs.decode("utf-8", errors)\<close> for \<open>errors="strict"\<close> and, with the flag, \<open>errors="surrogatepass"\<close>,
  which also lets an encoded surrogate through.
\<close>

fun utf8_decoder :: "bool \<Rightarrow> pybytes \<Rightarrow> pystr option" where
  "utf8_decoder pass [] = Some []"
| "utf8_decoder pass (a # r) =
     (if a < 0x80 then map_option (Cons a) (utf8_decoder pass r)
      else if 0xC2 \<le> a \<and> a < 0xE0 then
        (case r of
           b # r' \<Rightarrow>
             if is_cont b then map_option (Cons ((a - 0xC0) * 64 + (b - 0x80))) (utf8_decoder pass r')
             else None
         | _ \<Rightarrow> None)
      else if 0xE0 \<le> a \<and> a < 0xF0 then
        (case r of
           b # c # r' \<Rightarrow>
             (let v = (a - 0xE0) * 4096 + (b - 0x80) * 64 + (c - 0x80) in
              if is_cont b \<and> is_cont c \<and> 0x800 \<le> v \<and> (pass \<or> is_scalar v)
              then map_option (Cons v) (utf8_decoder pass r') else None)
         | _ \<Rightarrow> None)
      else if 0xF0 \<le> a \<and> a < 0xF5 then
        (case r of
           b # c # d # r' \<Rightarrow>
             (let v = (a - 0xF0) * 262144 + (b - 0x80) * 4096 + (c - 0x80) * 64 + (d - 0x80) in
              if is_cont b \<and> is_cont c \<and> is_cont d \<and> 0x10000 \<le> v \<and> v < 0x110000
              then map_option (Cons v) (utf8_decoder pass r') else None)
         | _ \<Rightarrow> None)
      else None)"

abbreviation utf8_decode :: "pybytes \<Rightarrow> pystr option" where
  "utf8_decode \<equiv> utf8_decoder False"

lemma utf8_char_bytes: "is_scalar c \<Longrightarrow> is_bytes (utf8_char c)"
  by (auto simp: utf8_char_def is_bytes_def is_scalar_def)

lemma utf8_char_ascii [simp]: "c < 128 \<Longrightarrow> utf8_char c = [c]"
  by (simp add: utf8_char_def)

text \<open>The byte patterns of one code point, with their payload bits as separate digits.\<close>

lemma utf8_decode_two:
  "2 \<le> a \<Longrightarrow> a < 32 \<Longrightarrow> b < 64 \<Longrightarrow>
   utf8_decoder p ((0xC0 + a) # (0x80 + b) # r) = map_option (Cons (a * 64 + b)) (utf8_decoder p r)"
  by (simp add: is_cont_def)

lemma utf8_decode_three:
  "a < 16 \<Longrightarrow> b < 64 \<Longrightarrow> d < 64 \<Longrightarrow> c = a * 4096 + b * 64 + d \<Longrightarrow> 0x800 \<le> c \<Longrightarrow> is_scalar c \<Longrightarrow>
   utf8_decoder p ((0xE0 + a) # (0x80 + b) # (0x80 + d) # r) = map_option (Cons c) (utf8_decoder p r)"
  by (simp add: is_cont_def Let_def)

lemma utf8_decode_four:
  "a < 5 \<Longrightarrow> b < 64 \<Longrightarrow> d < 64 \<Longrightarrow> e < 64 \<Longrightarrow> c = a * 262144 + b * 4096 + d * 64 + e \<Longrightarrow>
   0x10000 \<le> c \<Longrightarrow> c < 0x110000 \<Longrightarrow>
   utf8_decoder p ((0xF0 + a) # (0x80 + b) # (0x80 + d) # (0x80 + e) # r) =
     map_option (Cons c) (utf8_decoder p r)"
  by (simp add: is_cont_def Let_def)

lemma utf8_decode_ascii [simp]: "a < 0x80 \<Longrightarrow> utf8_decoder p (a # r) = map_option (Cons a) (utf8_decoder p r)"
  by simp

declare utf8_decoder.simps(2) [simp del]

lemma base64_digits: "(c :: nat) = c div 4096 * 4096 + c div 64 mod 64 * 64 + c mod 64"
proof -
  have "c = c div 64 * 64 + c mod 64" "c div 64 = c div 64 div 64 * 64 + c div 64 mod 64"
    by (rule div_mult_mod_eq [symmetric])+
  moreover have "c div 64 div 64 = c div 4096" by (simp add: div_mult2_eq [symmetric])
  ultimately show ?thesis by linarith
qed

lemma utf8_decode_char:
  assumes "is_scalar c"
  shows "utf8_decoder p (utf8_char c @ r) = map_option (Cons c) (utf8_decoder p r)"
proof -
  consider "c < 0x80" | "0x80 \<le> c" "c < 0x800" | "0x800 \<le> c" "c < 0x10000"
    | "0x10000 \<le> c" "c < 0x110000"
    using assms unfolding is_scalar_def by linarith
  then show ?thesis
  proof cases
    case 1
    then show ?thesis by simp
  next
    case 2
    then have "utf8_char c = [0xC0 + c div 64, 0x80 + c mod 64]"
      by (simp add: utf8_char_def)
    moreover have "2 \<le> c div 64" "c div 64 < 32" "c mod 64 < 64"
      using 2 by auto
    ultimately show ?thesis by (simp add: utf8_decode_two)
  next
    case 3
    then have char: "utf8_char c = [0xE0 + c div 4096, 0x80 + c div 64 mod 64, 0x80 + c mod 64]"
      by (simp add: utf8_char_def)
    have "c div 4096 < 16" using 3 by simp
    then show ?thesis
      unfolding char append.simps
      using utf8_decode_three [OF _ _ _ base64_digits] 3 assms by simp
  next
    case 4
    then have char: "utf8_char c =
        [0xF0 + c div 262144, 0x80 + c div 4096 mod 64, 0x80 + c div 64 mod 64, 0x80 + c mod 64]"
      by (simp add: utf8_char_def)
    have small: "c div 262144 < 5" using 4 by simp
    have "c div 4096 = c div 262144 * 64 + c div 4096 mod 64"
      using div_mult_mod_eq [of "c div 4096" 64] by (simp add: div_mult2_eq [symmetric])
    then have digits: "c = c div 262144 * 262144 + c div 4096 mod 64 * 4096 + c div 64 mod 64 * 64 + c mod 64"
      using base64_digits [of c] by linarith
    show ?thesis
      unfolding char append.simps
      using utf8_decode_four [OF small _ _ _ digits] 4 by simp
  qed
qed

lemma utf8_decode_encode: "utf8_encode s = Some bs \<Longrightarrow> utf8_decoder p bs = Some s"
proof -
  have "list_all is_scalar s \<Longrightarrow> utf8_decoder p (concat (map utf8_char s)) = Some s"
    by (induction s) (auto simp: utf8_decode_char)
  then show "utf8_encode s = Some bs \<Longrightarrow> utf8_decoder p bs = Some s"
    by (auto simp: utf8_encode_def split: if_splits)
qed

lemma utf8_encode_bytes: "utf8_encode s = Some bs \<Longrightarrow> is_bytes bs"
proof -
  have "list_all is_scalar s \<Longrightarrow> is_bytes (concat (map utf8_char s))"
    by (induction s) (use utf8_char_bytes in \<open>auto simp: is_bytes_def\<close>)
  then show "utf8_encode s = Some bs \<Longrightarrow> is_bytes bs"
    by (auto simp: utf8_encode_def split: if_splits)
qed

end
