(* ===== verification/PyCodec.thy ===== *)
theory PyCodec
  imports PyText
begin

text \<open>
  Hexadecimal, base64 and percent-encoding, as \<open>bytes.fromhex\<close>, \<open>bytes.hex\<close>, the \<open>base64\<close> module and
  \<open>urllib.parse\<close> define them.  They share one contract, the locale \<open>codec\<close>: decoding inverts encoding,
  so encodings are injective and a text is canonical exactly when it re-encodes to itself.
\<close>

section \<open>The contract of an encoder and its decoder\<close>

locale codec =
  fixes enc :: "'a \<Rightarrow> 'b" and dec :: "'b \<Rightarrow> 'a option" and valid :: "'a \<Rightarrow> bool"
  assumes dec_enc: "valid x \<Longrightarrow> dec (enc x) = Some x"
    and dec_valid: "dec y = Some x \<Longrightarrow> valid x"
begin

lemma enc_inject: "valid x \<Longrightarrow> valid y \<Longrightarrow> enc x = enc y \<longleftrightarrow> x = y"
  using dec_enc by (metis option.inject)

lemma canonical_iff:
  "(\<exists>x. dec y = Some x \<and> enc x = y) \<longleftrightarrow> (\<exists>x. valid x \<and> y = enc x)"
  using dec_enc dec_valid by blast

lemma canonical_unique: "valid x \<Longrightarrow> y = enc x \<Longrightarrow> dec y = Some x"
  by (simp add: dec_enc)

end

section \<open>Hexadecimal digits\<close>

definition hexval :: "nat \<Rightarrow> nat option" where
  "hexval c =
     (if 48 \<le> c \<and> c \<le> 57 then Some (c - 48)
      else if 65 \<le> c \<and> c \<le> 70 then Some (c - 55)
      else if 97 \<le> c \<and> c \<le> 102 then Some (c - 87)
      else None)"

definition hex_upper :: "nat \<Rightarrow> nat" where
  "hex_upper n = (if n < 10 then 48 + n else 55 + n)"

definition hex_lower :: "nat \<Rightarrow> nat" where
  "hex_lower n = (if n < 10 then 48 + n else 87 + n)"

definition hexpair :: "nat \<Rightarrow> nat \<Rightarrow> nat option" where
  "hexpair a b =
     (case hexval a of None \<Rightarrow> None
      | Some x \<Rightarrow> (case hexval b of None \<Rightarrow> None | Some y \<Rightarrow> Some (16 * x + y)))"

lemma hexval_upper [simp]: "n < 16 \<Longrightarrow> hexval (hex_upper n) = Some n"
  by (auto simp: hexval_def hex_upper_def)

lemma hexval_lower [simp]: "n < 16 \<Longrightarrow> hexval (hex_lower n) = Some n"
  by (auto simp: hexval_def hex_lower_def)

lemma hexval_bound: "hexval c = Some n \<Longrightarrow> n < 16"
  by (auto simp: hexval_def split: if_splits)

lemma hexpair_upper [simp]:
  "b < 256 \<Longrightarrow> hexpair (hex_upper (b div 16)) (hex_upper (b mod 16)) = Some b"
  by (simp add: hexpair_def)

lemma hexpair_lower [simp]:
  "b < 256 \<Longrightarrow> hexpair (hex_lower (b div 16)) (hex_lower (b mod 16)) = Some b"
  by (simp add: hexpair_def)

lemma hexpair_bound: "hexpair a b = Some n \<Longrightarrow> n < 256"
  by (auto simp: hexpair_def split: option.splits dest!: hexval_bound)

text \<open>\<open>raw.hex()\<close>, and \<open>bytes.fromhex(s)\<close>, which also skips ASCII whitespace between bytes.\<close>

definition is_hexspace :: "nat \<Rightarrow> bool" where
  "is_hexspace c = (c = 32 \<or> 9 \<le> c \<and> c \<le> 13)"

fun hexlify :: "pybytes \<Rightarrow> pystr" where
  "hexlify [] = []"
| "hexlify (b # bs) = hex_lower (b div 16) # hex_lower (b mod 16) # hexlify bs"

fun fromhex :: "pystr \<Rightarrow> pybytes option" where
  "fromhex [] = Some []"
| "fromhex (a # r) =
     (if is_hexspace a then fromhex r
      else (case r of
              [] \<Rightarrow> None
            | b # r' \<Rightarrow>
                (case hexpair a b of None \<Rightarrow> None
                 | Some v \<Rightarrow> map_option (Cons v) (fromhex r'))))"

lemma not_hexspace_lower [simp]: "n < 16 \<Longrightarrow> \<not> is_hexspace (hex_lower n)"
  by (auto simp: is_hexspace_def hex_lower_def)

lemma fromhex_bytes: "fromhex s = Some bs \<Longrightarrow> is_bytes bs"
  by (induction s arbitrary: bs rule: fromhex.induct)
    (auto simp: is_bytes_def split: if_splits list.splits option.splits dest: hexpair_bound)

interpretation hex: codec hexlify fromhex is_bytes
proof
  fix bs assume "is_bytes bs"
  then show "fromhex (hexlify bs) = Some bs"
    by (induction bs) (auto simp: is_bytes_def)
qed (rule fromhex_bytes)

section \<open>Base64\<close>

definition b64char :: "nat \<Rightarrow> nat" where
  "b64char n =
     (if n < 26 then 65 + n else if n < 52 then 71 + n else if n < 62 then n - 4
      else if n = 62 then 43 else 47)"

definition b64val :: "nat \<Rightarrow> nat option" where
  "b64val c =
     (if 65 \<le> c \<and> c \<le> 90 then Some (c - 65)
      else if 97 \<le> c \<and> c \<le> 122 then Some (c - 71)
      else if 48 \<le> c \<and> c \<le> 57 then Some (c + 4)
      else if c = 43 then Some 62 else if c = 47 then Some 63 else None)"

text \<open>\<open>base64.b64encode(bs).decode("ascii")\<close>.\<close>

fun b64encode :: "pybytes \<Rightarrow> pystr" where
  "b64encode [] = []"
| "b64encode [a] = [b64char (a div 4), b64char (a mod 4 * 16), 61, 61]"
| "b64encode [a, b] =
     [b64char (a div 4), b64char (a mod 4 * 16 + b div 16), b64char (b mod 16 * 4), 61]"
| "b64encode (a # b # c # r) =
     b64char (a div 4) # b64char (a mod 4 * 16 + b div 16) #
     b64char (b mod 16 * 4 + c div 64) # b64char (c mod 64) # b64encode r"

text \<open>The three bytes of a group, from its sextets \<open>w x y z\<close>.\<close>

definition oct1 :: "nat \<Rightarrow> nat \<Rightarrow> nat" where
  "oct1 w x = 4 * w + x div 16"

definition oct2 :: "nat \<Rightarrow> nat \<Rightarrow> nat" where
  "oct2 x y = x mod 16 * 16 + y div 4"

definition oct3 :: "nat \<Rightarrow> nat \<Rightarrow> nat" where
  "oct3 y z = y mod 4 * 64 + z"

text \<open>
  \<open>base64.b64decode(s, validate=True)\<close>: whole groups of four, padding only at the end, unused
  trailing bits ignored; \<open>None\<close> where it raises.
\<close>

fun b64decode :: "pystr \<Rightarrow> pybytes option" where
  "b64decode [] = Some []"
| "b64decode (p # q # r # s # t) =
     (case b64val p of None \<Rightarrow> None
      | Some w \<Rightarrow> (case b64val q of None \<Rightarrow> None
      | Some x \<Rightarrow>
          if r = 61 then (if s = 61 \<and> t = [] then Some [oct1 w x] else None)
          else (case b64val r of None \<Rightarrow> None
          | Some y \<Rightarrow>
              if s = 61 then (if t = [] then Some [oct1 w x, oct2 x y] else None)
              else (case b64val s of None \<Rightarrow> None
              | Some z \<Rightarrow>
                  map_option (\<lambda>bs. oct1 w x # oct2 x y # oct3 y z # bs) (b64decode t)))))"
| "b64decode _ = None"

lemma b64val_char [simp]: "n < 64 \<Longrightarrow> b64val (b64char n) = Some n"
  by (auto simp: b64val_def b64char_def)

lemma b64char_not_pad [simp]: "n < 64 \<Longrightarrow> b64char n \<noteq> 61"
  by (auto simp: b64char_def)

lemma b64val_bound: "b64val c = Some n \<Longrightarrow> n < 64"
  by (auto simp: b64val_def split: if_splits)

lemma digit_pair: "x < m \<Longrightarrow> y < k \<Longrightarrow> x * k + y < m * (k::nat)"
proof -
  assume "x < m" "y < k"
  then have "x * k + y < Suc x * k" by simp
  also have "\<dots> \<le> m * k" using \<open>x < m\<close> by (intro mult_le_mono1) simp
  finally show ?thesis .
qed

lemma b64_sextets:
  fixes a b c :: nat
  shows "a < 256 \<Longrightarrow> a div 4 < 64" "a mod 4 * 16 < 64"
    "b < 256 \<Longrightarrow> a mod 4 * 16 + b div 16 < 64" "b mod 16 * 4 < 64"
    "c < 256 \<Longrightarrow> b mod 16 * 4 + c div 64 < 64"
  using digit_pair [of "a mod 4" 4 0 16] digit_pair [of "a mod 4" 4 "b div 16" 16]
    digit_pair [of "b mod 16" 16 0 4] digit_pair [of "b mod 16" 16 "c div 64" 4]
  by simp_all

lemma b64_carry [simp]:
  "b < 256 \<Longrightarrow> b div 16 div 16 = (0::nat)" "b < 256 \<Longrightarrow> b div 16 mod 16 = (b::nat) div 16"
  "c < 256 \<Longrightarrow> c div 64 div 4 = (0::nat)" "c < 256 \<Longrightarrow> c div 64 mod 4 = (c::nat) div 64"
  by simp_all

lemma b64decode_encode: "is_bytes bs \<Longrightarrow> b64decode (b64encode bs) = Some bs"
  by (induction bs rule: b64encode.induct) (simp_all add: is_bytes_def b64_sextets oct1_def oct2_def oct3_def)

lemma oct_bounds:
  "w < 64 \<Longrightarrow> x < 64 \<Longrightarrow> oct1 w x < 256" "y < 64 \<Longrightarrow> oct2 x y < 256" "z < 64 \<Longrightarrow> oct3 y z < 256"
  using digit_pair [of w 64 "x div 16" 4] digit_pair [of "x mod 16" 16 "y div 4" 16]
    digit_pair [of "y mod 4" 4 z 64]
  by (simp_all add: oct1_def oct2_def oct3_def mult.commute)

lemma b64decode_bytes: "b64decode s = Some bs \<Longrightarrow> is_bytes bs"
  by (induction s arbitrary: bs rule: b64decode.induct)
    (auto simp: is_bytes_def split: if_splits option.splits intro!: oct_bounds dest: b64val_bound)

interpretation b64: codec b64encode b64decode is_bytes
  by unfold_locales (rule b64decode_encode, assumption, rule b64decode_bytes)

section \<open>Percent-encoding\<close>

definition url_unreserved :: "nat \<Rightarrow> bool" where
  "url_unreserved c = (is_alpha c \<or> is_digit c \<or> c = 95 \<or> c = 46 \<or> c = 45 \<or> c = 126)"

text \<open>\<open>quote(s, safe)\<close> on the UTF-8 bytes of \<open>s\<close>, and \<open>unquote_to_bytes\<close> on those of a URI.\<close>

definition quote_byte :: "nat list \<Rightarrow> nat \<Rightarrow> pystr" where
  "quote_byte safe b =
     (if url_unreserved b \<or> b \<in> set safe then [b] else [37, hex_upper (b div 16), hex_upper (b mod 16)])"

definition quote_bytes :: "nat list \<Rightarrow> pybytes \<Rightarrow> pystr" where
  "quote_bytes safe bs = concat (map (quote_byte safe) bs)"

definition quote :: "nat list \<Rightarrow> pystr \<Rightarrow> exn + pystr" where
  "quote safe s = (case utf8_encode s of None \<Rightarrow> Inl UnicodeError | Some bs \<Rightarrow> Inr (quote_bytes safe bs))"

fun unquote_bytes :: "pybytes \<Rightarrow> pybytes" where
  "unquote_bytes [] = []"
| "unquote_bytes (c # r) =
     (if c = 37 then
        (case r of
           a # b # r' \<Rightarrow>
             (case hexpair a b of Some v \<Rightarrow> v # unquote_bytes r' | None \<Rightarrow> 37 # unquote_bytes r)
         | _ \<Rightarrow> 37 # unquote_bytes r)
      else c # unquote_bytes r)"

definition unquote_to_bytes :: "pystr \<Rightarrow> exn + pybytes" where
  "unquote_to_bytes s =
     (case utf8_encode s of None \<Rightarrow> Inl UnicodeError | Some bs \<Rightarrow> Inr (unquote_bytes bs))"

text \<open>\<open>re.search(r"%(?![0-9A-Fa-f]{2})", s)\<close>: a percent sign without two hexadecimal digits.\<close>

fun bad_percent :: "pystr \<Rightarrow> bool" where
  "bad_percent [] = False"
| "bad_percent (c # r) =
     (c = 37 \<and> (case r of a # b # _ \<Rightarrow> hexpair a b = None | _ \<Rightarrow> True) \<or> bad_percent r)"

lemma unquote_quote_byte:
  assumes "b < 256" "37 \<notin> set safe"
  shows "unquote_bytes (quote_byte safe b @ r) = b # unquote_bytes r"
  using assms by (auto simp: quote_byte_def url_unreserved_def is_alpha_def is_digit_def)

lemma unquote_quote_bytes:
  "37 \<notin> set safe \<Longrightarrow> is_bytes bs \<Longrightarrow> unquote_bytes (quote_bytes safe bs) = bs"
  by (induction bs) (auto simp: quote_bytes_def is_bytes_def unquote_quote_byte)

lemma url_unreserved_ascii: "url_unreserved c \<Longrightarrow> 33 \<le> c \<and> c < 127"
  by (auto simp: url_unreserved_def is_alpha_def is_digit_def)

lemma hex_upper_range: "n < 16 \<Longrightarrow> 48 \<le> hex_upper n \<and> hex_upper n \<le> 70 \<and> hex_upper n \<noteq> 58
    \<and> hex_upper n \<noteq> 47 \<and> hex_upper n \<noteq> 63 \<and> hex_upper n \<noteq> 64"
  by (auto simp: hex_upper_def)

lemma quote_bytes_chars:
  assumes "is_bytes bs" "c \<in> set (quote_bytes safe bs)"
  shows "c = 37 \<or> url_unreserved c \<or> c \<in> set safe"
proof -
  have hex: "url_unreserved (hex_upper n)" if "n < 16" for n
    using that by (auto simp: hex_upper_def url_unreserved_def is_digit_def is_alpha_def)
  from assms obtain b where b: "b < 256" "c \<in> set (quote_byte safe b)"
    by (auto simp: quote_bytes_def is_bytes_def list_all_iff)
  then have "b div 16 < 16" "b mod 16 < 16" by auto
  with b hex show ?thesis by (auto simp: quote_byte_def split: if_splits)
qed

lemma quote_bytes_unreserved:
  "is_bytes bs \<Longrightarrow> c \<in> set (quote_bytes [] bs) \<Longrightarrow> c = 37 \<or> url_unreserved c"
  using quote_bytes_chars [of bs c "[]"] by simp

lemma bad_percent_quote_byte:
  "b < 256 \<Longrightarrow> 37 \<notin> set safe \<Longrightarrow> bad_percent (quote_byte safe b @ r) = bad_percent r"
proof -
  assume b: "b < 256" "37 \<notin> set safe"
  then have "b div 16 < 16" "b mod 16 < 16" by auto
  then have "hex_upper (b div 16) \<noteq> 37" "hex_upper (b mod 16) \<noteq> 37"
    using hex_upper_range by fastforce+
  with b show ?thesis
    by (auto simp: quote_byte_def url_unreserved_def is_alpha_def is_digit_def)
qed

lemma bad_percent_quote_bytes:
  "37 \<notin> set safe \<Longrightarrow> is_bytes bs \<Longrightarrow> bad_percent (quote_bytes safe bs @ r) = bad_percent r"
  by (induction bs) (auto simp: quote_bytes_def is_bytes_def bad_percent_quote_byte)

interpretation percent: codec "quote_bytes []" "\<lambda>s. if is_bytes (unquote_bytes s) then Some (unquote_bytes s) else None" is_bytes
  by unfold_locales (auto simp: unquote_quote_bytes split: if_splits)

end
