(* ===== verification/PyUrl.thy ===== *)
theory PyUrl
  imports PyCodec
begin

text \<open>
  \<open>urllib.parse.urlsplit\<close> of CPython 3.14 on a \<open>str\<close>, with its checks of the authority: brackets
  must enclose an IPv6 or IPvFuture literal, and no character may turn into a delimiter under NFKC.
\<close>

record split_result =
  scheme :: pystr
  netloc :: pystr
  path :: pystr
  query :: pystr
  fragment :: pystr

definition scheme_char :: "nat \<Rightarrow> bool" where
  "scheme_char c = (is_alpha c \<or> is_digit c \<or> c = 43 \<or> c = 45 \<or> c = 46)"

text \<open>The characters whose NFKC form contains one of \<open>/?#@:\<close> (none of them is ASCII).\<close>

definition nfkc_delimiters :: "nat list" where
  "nfkc_delimiters =
     [0x2047, 0x2048, 0x2049, 0x2100, 0x2101, 0x2105, 0x2106, 0x2A74, 0xFE13, 0xFE16, 0xFE55,
      0xFE56, 0xFE5F, 0xFE6B, 0xFF03, 0xFF0F, 0xFF1A, 0xFF1F, 0xFF20]"

definition valid_octet :: "pystr \<Rightarrow> bool" where
  "valid_octet s =
     (s \<noteq> [] \<and> list_all is_digit s \<and> length s \<le> 3 \<and> (s = [48] \<or> hd s \<noteq> 48) \<and>
      foldl (\<lambda>n c. 10 * n + (c - 48)) 0 s \<le> 255)"

definition valid_ipv4 :: "pystr \<Rightarrow> bool" where
  "valid_ipv4 s = (length (split_on 46 s) = 4 \<and> list_all valid_octet (split_on 46 s))"

definition valid_hextet :: "pystr \<Rightarrow> bool" where
  "valid_hextet s = (s \<noteq> [] \<and> list_all (\<lambda>c. hexval c \<noteq> None) s \<and> length s \<le> 4)"

text \<open>
  \<open>IPv6Address(s)\<close> accepts \<open>s\<close>.  \<open>parts\<close> are the fields between colons, an IPv4 suffix counting as
  two; an empty field strictly inside marks the one place where zeros are left out.
\<close>

definition valid_ipv6 :: "pystr \<Rightarrow> bool" where
  "valid_ipv6 text =
     (let (addr, scope) = partition_on 37 text;
          fields = split_on 58 addr;
          v4 = 46 \<in> set (last fields);
          parts = (if v4 then butlast fields @ [[48], [48]] else fields);
          n = length parts;
          gaps = filter (\<lambda>i. parts ! i = []) [1..<n - 1]
      in 47 \<notin> set text
         \<and> (case scope of None \<Rightarrow> True | Some z \<Rightarrow> z \<noteq> [] \<and> 37 \<notin> set z)
         \<and> 3 \<le> length fields \<and> (v4 \<longrightarrow> valid_ipv4 (last fields)) \<and> n \<le> 9
         \<and> (case gaps of
              [] \<Rightarrow> n = 8 \<and> list_all valid_hextet parts
            | [k] \<Rightarrow>
                (let hi = (if hd parts = [] then k - 1 else k);
                     lo = (if last parts = [] then n - k - 2 else n - k - 1)
                 in (hd parts = [] \<longrightarrow> hi = 0) \<and> (last parts = [] \<longrightarrow> lo = 0) \<and> hi + lo < 8
                    \<and> list_all valid_hextet (take hi parts)
                    \<and> list_all valid_hextet (drop (n - lo) parts))
            | _ \<Rightarrow> False))"

text \<open>\<open>\\Av[a-fA-F0-9]+\\..+\\Z\<close>.\<close>

definition valid_ipvfuture :: "pystr \<Rightarrow> bool" where
  "valid_ipvfuture s =
     (case partition_on 46 (tl s) of
        (v, Some rest) \<Rightarrow> v \<noteq> [] \<and> list_all (\<lambda>c. hexval c \<noteq> None) v \<and> rest \<noteq> [] \<and> 10 \<notin> set rest
      | _ \<Rightarrow> False)"

definition valid_bracketed_host :: "pystr \<Rightarrow> bool" where
  "valid_bracketed_host h =
     (if prefix (lit ''v'') h then valid_ipvfuture h else valid_ipv6 h)"

definition valid_bracketed_netloc :: "pystr \<Rightarrow> bool" where
  "valid_bracketed_netloc nl =
     (let hp = after_last 64 nl in
      case partition_on 91 hp of
        (pre, Some bracketed) \<Rightarrow>
          (case partition_on 93 bracketed of
             (hostname, port) \<Rightarrow>
               pre = [] \<and> (case port of None \<Rightarrow> True | Some p \<Rightarrow> p = [] \<or> hd p = 58)
               \<and> valid_bracketed_host hostname)
      | (_, None) \<Rightarrow> valid_bracketed_host (fst (partition_on 58 hp)))"

definition valid_netloc :: "pystr \<Rightarrow> bool" where
  "valid_netloc nl =
     ((91 \<in> set nl) = (93 \<in> set nl)
      \<and> (91 \<in> set nl \<longrightarrow> valid_bracketed_netloc nl)
      \<and> list_all (\<lambda>c. c \<notin> set nfkc_delimiters) nl)"

text \<open>The text up to the first of \<open>/ ? #\<close>, and the rest.\<close>

definition splitnetloc :: "pystr \<Rightarrow> pystr \<times> pystr" where
  "splitnetloc s = (takeWhile (\<lambda>c. c \<notin> {47, 63, 35}) s, dropWhile (\<lambda>c. c \<notin> {47, 63, 35}) s)"

definition split_scheme :: "pystr \<Rightarrow> pystr \<times> pystr" where
  "split_scheme url =
     (case partition_on 58 url of
        (s, Some rest) \<Rightarrow>
          if s \<noteq> [] \<and> is_alpha (hd s) \<and> list_all scheme_char s then (ascii_lower s, rest) else ([], url)
      | _ \<Rightarrow> ([], url))"

definition cut_at :: "nat \<Rightarrow> pystr \<Rightarrow> pystr \<times> pystr" where
  "cut_at c s = (case partition_on c s of (a, Some b) \<Rightarrow> (a, b) | (a, None) \<Rightarrow> (s, []))"

definition urlsplit :: "pystr \<Rightarrow> split_result option" where
  "urlsplit raw =
     (let url0 = filter (\<lambda>c. c \<notin> {9, 10, 13}) (dropWhile (\<lambda>c. c \<le> 32) raw);
          (sch, url1) = split_scheme url0;
          (nl, url2) = (if take 2 url1 = [47, 47] then splitnetloc (drop 2 url1) else ([], url1));
          (url3, frag) = cut_at 35 url2;
          (pth, qry) = cut_at 63 url3
      in if valid_netloc nl
         then Some \<lparr>scheme = sch, netloc = nl, path = pth, query = qry, fragment = frag\<rparr>
         else None)"

lemma partition_on_notin [simp]: "c \<notin> set s \<Longrightarrow> partition_on c s = (s, None)"
  by (induction s) auto

lemma partition_on_append: "c \<notin> set a \<Longrightarrow> partition_on c (a @ c # b) = (a, Some b)"
  by (induction a) auto

lemma cut_at_notin [simp]: "c \<notin> set s \<Longrightarrow> cut_at c s = (s, [])"
  by (simp add: cut_at_def)

lemma valid_netloc_plain [simp]:
  "valid_netloc []" "valid_netloc (lit ''localhost'')"
  by (simp_all add: valid_netloc_def nfkc_delimiters_def lit_def)

text \<open>The shape the sources rely on: a plain \<open>file:///\<close> URI splits into its path.\<close>

lemma urlsplit_file:
  assumes "\<And>c. c \<in> set p \<Longrightarrow> c \<noteq> 9 \<and> c \<noteq> 10 \<and> c \<noteq> 13 \<and> c \<noteq> 35 \<and> c \<noteq> 63"
  shows "urlsplit (lit ''file:///'' @ p) =
    Some \<lparr>scheme = lit ''file'', netloc = [], path = 47 # p, query = [], fragment = []\<rparr>"
proof -
  have keep: "filter (\<lambda>c. c \<noteq> 9 \<and> c \<noteq> 10 \<and> c \<noteq> 13) p = p"
    using assms by (auto intro: filter_True)
  have clean: "35 \<notin> set p" "63 \<notin> set p" using assms by auto
  have "split_scheme (lit ''file:///'' @ p) = (lit ''file'', 47 # 47 # 47 # p)"
    by (simp add: split_scheme_def lit_def is_alpha_def scheme_char_def is_digit_def ascii_lower_def)
  moreover have "filter (\<lambda>c. c \<notin> {9, 10, 13}) (dropWhile (\<lambda>c. c \<le> 32) (lit ''file:///'' @ p))
      = lit ''file:///'' @ p"
    using keep by (simp add: lit_def)
  ultimately show ?thesis
    using clean by (simp add: urlsplit_def splitnetloc_def)
qed

end
