(* ===== verification/PyJson.thy ===== *)
theory PyJson
  imports PyCodec
begin

text \<open>
  Python's \<open>json\<close> module as the sources call it: \<open>json.loads\<close> with the hooks \<open>object_pairs_hook\<close> and
  \<open>parse_constant\<close>, and \<open>json.dumps\<close> with \<open>separators=(",", ":")\<close> and \<open>allow_nan=False\<close>.  A scanner reads
  a value and returns it with the text that follows; \<open>dumps\<close> writes the value back.  The recursion
  and memory limits of the interpreter are not modelled.
\<close>

section \<open>Double precision\<close>

text \<open>A JSON number with a fraction or an exponent becomes the nearest IEEE double, ties to even.\<close>

fun bitlen :: "nat \<Rightarrow> nat" where
  "bitlen n = (if n = 0 then 0 else Suc (bitlen (n div 2)))"

declare bitlen.simps [simp del]

definition zpow :: "rat \<Rightarrow> int \<Rightarrow> rat" where
  "zpow b e = (if 0 \<le> e then b ^ nat e else 1 / b ^ nat (- e))"

definition round_even :: "rat \<Rightarrow> int" where
  "round_even q =
     (let f = \<lfloor>q\<rfloor>; t = q - of_int f in
      if t < 1 / 2 \<or> t = 1 / 2 \<and> even f then f else f + 1)"

definition double_of :: "bool \<Rightarrow> rat \<Rightarrow> pyfloat" where
  "double_of neg r =
     (if r = 0 then FFinite neg 0
      else let (n, d) = quotient_of r;
               e0 = int (bitlen (nat n)) - int (bitlen (nat d));
               fl = (if zpow 2 e0 \<le> r then e0 else e0 - 1);
               e = max (- 1074) (fl - 52);
               v = of_int (round_even (r / zpow 2 e)) * zpow 2 e
           in if 2 ^ 1024 \<le> v then FInfinite neg else FFinite neg v)"

text \<open>
  \<open>float.__repr__\<close>: the shortest decimal that reads back as the same double, nearest first.
  \<open>decpt\<close> is the position of the decimal point in the digits.
\<close>

fun leading :: "nat \<Rightarrow> rat \<Rightarrow> int" where
  "leading 0 r = 0"
| "leading (Suc k) r = (if 1 \<le> r then 1 else leading k (r * 10) - 1)"

definition decimal_point :: "rat \<Rightarrow> int" where
  "decimal_point r = (if 1 \<le> r then int (length (nat_digits (nat \<lfloor>r\<rfloor>))) else leading 400 r)"

definition shortest_at :: "rat \<Rightarrow> nat \<Rightarrow> (pystr \<times> int) option" where
  "shortest_at r n =
     (let p = decimal_point r; s = zpow 10 (int n - p); x = r * s; lo = \<lfloor>x\<rfloor>;
          good = filter (\<lambda>c. double_of False (of_int c / s) = FFinite False r) [lo, lo + 1];
          near = (\<lambda>c. \<bar>of_int c - x\<bar>)
      in case good of
           [] \<Rightarrow> None
         | c # cs \<Rightarrow>
             let b = (case cs of d # _ \<Rightarrow> if near d < near c \<or> near d = near c \<and> even d then d else c | [] \<Rightarrow> c);
                 ds = nat_digits (nat b)
             in Some (ds, p + int (length ds) - int n))"

definition shortest :: "rat \<Rightarrow> pystr \<times> int" where
  "shortest r = (case first_some (shortest_at r) [1 ..< 18] of Some x \<Rightarrow> x | None \<Rightarrow> ([48], 1))"

definition float_repr :: "bool \<Rightarrow> rat \<Rightarrow> pystr" where
  "float_repr neg r =
     (if neg then [45] else []) @
     (if r = 0 then lit ''0.0''
      else let (ds0, decpt) = shortest r;
               ds = rev (dropWhile (\<lambda>c. c = 48) (rev ds0));
               n = int (length ds)
           in if - 4 < decpt \<and> decpt \<le> 16 then
                (if decpt \<le> 0 then lit ''0.'' @ replicate (nat (- decpt)) 48 @ ds
                 else if n \<le> decpt then ds @ replicate (nat (decpt - n)) 48 @ lit ''.0''
                 else take (nat decpt) ds @ [46] @ drop (nat decpt) ds)
              else take 1 ds @ (if n = 1 then [] else 46 # drop 1 ds) @ [101, if decpt \<le> 0 then 45 else 43]
                @ (let x = nat \<bar>decpt - 1\<bar> in (if x < 10 then [48] else []) @ nat_digits x))"

section \<open>Scanning\<close>

definition json_ws :: "nat \<Rightarrow> bool" where
  "json_ws c = (c = 32 \<or> c = 9 \<or> c = 10 \<or> c = 13)"

definition skip_ws :: "pystr \<Rightarrow> pystr" where
  "skip_ws s = dropWhile json_ws s"

fun hex4 :: "pystr \<Rightarrow> (nat \<times> pystr) option" where
  "hex4 (a # b # c # d # r) =
     (case (hexpair a b, hexpair c d) of
        (Some x, Some y) \<Rightarrow> Some (x * 256 + y, r)
      | _ \<Rightarrow> None)"
| "hex4 _ = None"

text \<open>A high surrogate joins a low one that follows as a second escape; otherwise it stays alone.\<close>

definition join_surrogate :: "nat \<Rightarrow> pystr \<Rightarrow> nat \<times> pystr" where
  "join_surrogate u r =
     (if 0xD800 \<le> u \<and> u \<le> 0xDBFF then
        (case r of
           a # b # r1 \<Rightarrow>
             (if a = 92 \<and> b = 117 then
                (case hex4 r1 of
                   Some (l, r2) \<Rightarrow>
                     if 0xDC00 \<le> l \<and> l \<le> 0xDFFF then (0x10000 + (u - 0xD800) * 1024 + (l - 0xDC00), r2)
                     else (u, r)
                 | None \<Rightarrow> (u, r))
              else (u, r))
         | _ \<Rightarrow> (u, r))
      else (u, r))"

definition unescape :: "nat \<Rightarrow> nat option" where
  "unescape e = map_of [(34, 34), (92, 92), (47, 47), (98, 8), (102, 12), (110, 10), (114, 13), (116, 9)] e"

lemma hex4_length: "hex4 s = Some (u, r) \<Longrightarrow> length s = length r + 4"
  by (induction s rule: hex4.induct) (auto split: option.splits)

lemma join_surrogate_length: "join_surrogate u s = (v, r) \<Longrightarrow> length r \<le> length s"
  by (auto simp: join_surrogate_def split: if_splits list.splits option.splits dest!: hex4_length)

text \<open>The text of a string after its opening quote, up to the closing one.\<close>

function scan_string :: "pystr \<Rightarrow> (pystr \<times> pystr) option" where
  "scan_string [] = None"
| "scan_string (c # r) =
     (if c = 34 then Some ([], r)
      else if c = 92 then
        (case r of
           [] \<Rightarrow> None
         | e # r1 \<Rightarrow>
             if e = 117 then
               (case hex4 r1 of
                  None \<Rightarrow> None
                | Some (u, r2) \<Rightarrow>
                    (case join_surrogate u r2 of (v, r3) \<Rightarrow>
                       map_option (apfst (Cons v)) (scan_string r3)))
             else (case unescape e of
                 None \<Rightarrow> None
               | Some v \<Rightarrow> map_option (apfst (Cons v)) (scan_string r1)))
      else if c < 32 then None
      else map_option (apfst (Cons c)) (scan_string r))"
  by pat_completeness auto
termination
  by (relation "measure length") (auto dest!: hex4_length join_surrogate_length [OF sym])

definition span_digits :: "pystr \<Rightarrow> pystr \<times> pystr" where
  "span_digits s = (takeWhile is_digit s, dropWhile is_digit s)"

definition digits_value :: "pystr \<Rightarrow> nat" where
  "digits_value ds = foldl (\<lambda>n c. n * 10 + (c - 48)) 0 ds"

definition scan_int :: "pystr \<Rightarrow> (pystr \<times> pystr) option" where
  "scan_int s =
     (case s of
        [] \<Rightarrow> None
      | c # r \<Rightarrow> if c = 48 then Some ([48], r) else if is_digit c then Some (span_digits s) else None)"

definition scan_frac :: "pystr \<Rightarrow> pystr \<times> pystr" where
  "scan_frac s =
     (case s of
        a # d # r \<Rightarrow> if a = 46 \<and> is_digit d then span_digits (d # r) else ([], s)
      | _ \<Rightarrow> ([], s))"

definition scan_exp :: "pystr \<Rightarrow> int option \<times> pystr" where
  "scan_exp s =
     (case s of
        [] \<Rightarrow> (None, s)
      | c # r \<Rightarrow>
          if c = 101 \<or> c = 69 then
            let (neg, r1) = (case r of
                  d # r' \<Rightarrow> if d = 45 then (True, r') else if d = 43 then (False, r') else (False, r)
                | [] \<Rightarrow> (False, r));
                (ds, r2) = span_digits r1;
                e = int (digits_value ds)
            in if ds = [] then (None, s) else (Some (if neg then - e else e), r2)
          else (None, s))"

text \<open>CPython refuses to convert an integer of more than 4300 digits.\<close>

definition int_limit :: nat where
  "int_limit = 4300"

definition int_too_long :: exn where
  "int_too_long = ValueError (lit ''Exceeds the limit for integer string conversion'')"

definition scan_number :: "pystr \<Rightarrow> exn + (json \<times> pystr)" where
  "scan_number s =
     (let (neg, s1) = (case s of c # r \<Rightarrow> if c = 45 then (True, r) else (False, s) | [] \<Rightarrow> (False, s)) in
      case scan_int s1 of
        None \<Rightarrow> Inl JSONDecodeError
      | Some (ds, s2) \<Rightarrow>
          let (fs, s3) = scan_frac s2; (ex, s4) = scan_exp s3 in
          if fs = [] \<and> ex = None then
            (if int_limit < length ds then Inl int_too_long
             else Inr (JInt (if neg then - int (digits_value ds) else int (digits_value ds)), s4))
          else
            let e = (case ex of None \<Rightarrow> 0 | Some e \<Rightarrow> e) - int (length fs)
            in Inr (JFloat (double_of neg (of_nat (digits_value (ds @ fs)) * zpow 10 e)), s4))"

type_synonym pairs_hook = "(pystr \<times> json) list \<Rightarrow> exn + json"
type_synonym const_hook = "pystr \<Rightarrow> exn + json"

definition json_words :: "(pystr \<times> json) list" where
  "json_words = [(lit ''null'', JNull), (lit ''true'', JBool True), (lit ''false'', JBool False)]"

definition json_constants :: "pystr list" where
  "json_constants = [lit ''NaN'', lit ''Infinity'', lit ''-Infinity'']"

definition scan_atom :: "const_hook \<Rightarrow> pystr \<Rightarrow> exn + (json \<times> pystr)" where
  "scan_atom ch s =
     (case find (\<lambda>w. prefix (fst w) s) json_words of
        Some (w, v) \<Rightarrow> Inr (v, drop (length w) s)
      | None \<Rightarrow>
          (case find (\<lambda>w. prefix w s) json_constants of
             Some w \<Rightarrow> bindE (ch w) (\<lambda>v. Inr (v, drop (length w) s))
           | None \<Rightarrow> scan_number s))"

text \<open>
  What is being read: a value, the items of an array or the members of an object (with those read
  so far, last first).  The first argument bounds the recursion; \<open>loads\<close> gives twice the length of the
  text, and more never changes the result (\<open>scan_fuel\<close> below).
\<close>

datatype scan_mode = AValue | AnArray "json list" | AnObject "(pystr \<times> json) list"

definition scan_key :: "pystr \<Rightarrow> (pystr \<times> pystr) option" where
  "scan_key s =
     (case s of
        [] \<Rightarrow> None
      | c # r \<Rightarrow>
          if c \<noteq> 34 then None
          else (case scan_string r of
              None \<Rightarrow> None
            | Some (k, r1) \<Rightarrow> if take 1 (skip_ws r1) = [58] then Some (k, skip_ws (drop 1 (skip_ws r1))) else None))"

primrec scan :: "nat \<Rightarrow> pairs_hook \<Rightarrow> const_hook \<Rightarrow> scan_mode \<Rightarrow> pystr \<Rightarrow> exn + (json \<times> pystr)" where
  "scan 0 ph ch m s = Inl JSONDecodeError"
| "scan (Suc n) ph ch m s =
     (case m of
        AValue \<Rightarrow>
          (case s of
             [] \<Rightarrow> Inl JSONDecodeError
           | c # r \<Rightarrow>
               if c = 34 then
                 (case scan_string r of None \<Rightarrow> Inl JSONDecodeError | Some (t, r1) \<Rightarrow> Inr (JStr t, r1))
               else if c = 123 then
                 (let r1 = skip_ws r in
                  if take 1 r1 = [125] then bindE (ph []) (\<lambda>v. Inr (v, drop 1 r1))
                  else scan n ph ch (AnObject []) r1)
               else if c = 91 then
                 (let r1 = skip_ws r in
                  if take 1 r1 = [93] then Inr (JArr [], drop 1 r1) else scan n ph ch (AnArray []) r1)
               else scan_atom ch s)
      | AnArray acc \<Rightarrow>
          bindE (scan n ph ch AValue s) (\<lambda>(v, r).
            case skip_ws r of
              [] \<Rightarrow> Inl JSONDecodeError
            | c # r1 \<Rightarrow>
                if c = 93 then Inr (JArr (rev (v # acc)), r1)
                else if c = 44 then scan n ph ch (AnArray (v # acc)) (skip_ws r1)
                else Inl JSONDecodeError)
      | AnObject acc \<Rightarrow>
          (case scan_key s of
             None \<Rightarrow> Inl JSONDecodeError
           | Some (k, r) \<Rightarrow>
               bindE (scan n ph ch AValue r) (\<lambda>(v, r1).
                 case skip_ws r1 of
                   [] \<Rightarrow> Inl JSONDecodeError
                 | d # r2 \<Rightarrow>
                     if d = 125 then bindE (ph (rev ((k, v) # acc))) (\<lambda>x. Inr (x, r2))
                     else if d = 44 then scan n ph ch (AnObject ((k, v) # acc)) (skip_ws r2)
                     else Inl JSONDecodeError)))"

definition loads :: "pairs_hook \<Rightarrow> const_hook \<Rightarrow> pystr \<Rightarrow> exn + json" where
  "loads ph ch s =
     (if take 1 s = [0xFEFF] then Inl JSONDecodeError
      else bindE (scan (2 * length s + 1) ph ch AValue (skip_ws s)) (\<lambda>(v, r).
        if skip_ws r = [] then Inr v else Inl JSONDecodeError))"

text \<open>Without hooks: a repeated key keeps its place and takes the last value; constants are floats.\<close>

fun dict_put :: "('k \<times> 'v) list \<Rightarrow> 'k \<Rightarrow> 'v \<Rightarrow> ('k \<times> 'v) list" where
  "dict_put [] k v = [(k, v)]"
| "dict_put ((a, b) # d) k v = (if a = k then (a, v) # d else (a, b) # dict_put d k v)"

definition plain_pairs :: pairs_hook where
  "plain_pairs ps = Inr (JObj (foldl (\<lambda>d (k, v). dict_put d k v) [] ps))"

definition plain_constant :: const_hook where
  "plain_constant w =
     Inr (JFloat (if w = lit ''NaN'' then FNaN else FInfinite (w = lit ''-Infinity'')))"

section \<open>Encodings of \<open>bytes\<close> input\<close>

text \<open>
  \<open>json.loads\<close> of \<open>bytes\<close> guesses among UTF-8, UTF-16 and UTF-32 from the byte order mark and the
  position of zero bytes, and decodes with \<open>surrogatepass\<close>.
\<close>

fun utf16_units :: "bool \<Rightarrow> pybytes \<Rightarrow> nat list option" where
  "utf16_units big [] = Some []"
| "utf16_units big [a] = None"
| "utf16_units big (a # b # r) =
     map_option (Cons (if big then a * 256 + b else b * 256 + a)) (utf16_units big r)"

fun utf16_join :: "nat list \<Rightarrow> pystr" where
  "utf16_join (u # l # r) =
     (if 0xD800 \<le> u \<and> u \<le> 0xDBFF \<and> 0xDC00 \<le> l \<and> l \<le> 0xDFFF
      then (0x10000 + (u - 0xD800) * 1024 + (l - 0xDC00)) # utf16_join r
      else u # utf16_join (l # r))"
| "utf16_join us = us"

definition utf16_pass :: "bool \<Rightarrow> pybytes \<Rightarrow> pystr option" where
  "utf16_pass big bs = map_option utf16_join (utf16_units big bs)"

fun utf32_pass :: "bool \<Rightarrow> pybytes \<Rightarrow> pystr option" where
  "utf32_pass big [] = Some []"
| "utf32_pass big (a # b # c # d # r) =
     (let u = (if big then ((a * 256 + b) * 256 + c) * 256 + d else ((d * 256 + c) * 256 + b) * 256 + a)
      in if u < 0x110000 then map_option (Cons u) (utf32_pass big r) else None)"
| "utf32_pass big _ = None"

definition json_decode_bytes :: "pybytes \<Rightarrow> pystr option" where
  "json_decode_bytes b =
     (if take 4 b = [0, 0, 0xFE, 0xFF] then utf32_pass True (drop 4 b)
      else if take 4 b = [0xFF, 0xFE, 0, 0] then utf32_pass False (drop 4 b)
      else if take 2 b = [0xFE, 0xFF] then utf16_pass True (drop 2 b)
      else if take 2 b = [0xFF, 0xFE] then utf16_pass False (drop 2 b)
      else if take 3 b = [0xEF, 0xBB, 0xBF] then utf8_decoder True (drop 3 b)
      else if 4 \<le> length b \<and> b ! 0 = 0 then
        (if b ! 1 \<noteq> 0 then utf16_pass True b else utf32_pass True b)
      else if 4 \<le> length b \<and> b ! 1 = 0 then
        (if b ! 2 \<noteq> 0 \<or> b ! 3 \<noteq> 0 then utf16_pass False b else utf32_pass False b)
      else if length b = 2 \<and> b ! 0 = 0 then utf16_pass True b
      else if length b = 2 \<and> b ! 1 = 0 then utf16_pass False b
      else utf8_decoder True b)"

definition loads_bytes :: "pairs_hook \<Rightarrow> const_hook \<Rightarrow> pybytes \<Rightarrow> exn + json" where
  "loads_bytes ph ch b =
     (case json_decode_bytes b of None \<Rightarrow> Inl UnicodeError | Some s \<Rightarrow> loads ph ch s)"

section \<open>Printing\<close>

definition hex4_text :: "nat \<Rightarrow> pystr" where
  "hex4_text u = [hex_lower (u div 4096 mod 16), hex_lower (u div 256 mod 16), hex_lower (u div 16 mod 16),
     hex_lower (u mod 16)]"

text \<open>The escape of one character; the flag is \<open>ensure_ascii\<close>.\<close>

definition escape_char :: "bool \<Rightarrow> nat \<Rightarrow> pystr" where
  "escape_char ascii c =
     (if c = 34 then [92, 34] else if c = 92 then [92, 92]
      else if c = 10 then [92, 110] else if c = 13 then [92, 114] else if c = 9 then [92, 116]
      else if c = 12 then [92, 102] else if c = 8 then [92, 98]
      else if c < 32 then 92 # 117 # hex4_text c
      else if \<not> ascii \<or> c < 127 then [c]
      else if c < 0x10000 then 92 # 117 # hex4_text c
      else 92 # 117 # hex4_text (0xD800 + (c - 0x10000) div 1024 mod 1024)
           @ 92 # 117 # hex4_text (0xDC00 + (c - 0x10000) mod 1024))"

definition string_text :: "bool \<Rightarrow> pystr \<Rightarrow> pystr" where
  "string_text ascii s = 34 # concat (map (escape_char ascii) s) @ [34]"

fun dumps :: "bool \<Rightarrow> json \<Rightarrow> exn + pystr" where
  "dumps ascii JNull = Inr (lit ''null'')"
| "dumps ascii (JBool b) = Inr (if b then lit ''true'' else lit ''false'')"
| "dumps ascii (JInt i) =
     (if int_limit < length (nat_digits (nat \<bar>i\<bar>)) then Inl int_too_long else Inr (int_str i))"
| "dumps ascii (JFloat f) =
     (case f of
        FFinite neg r \<Rightarrow> Inr (float_repr neg r)
      | _ \<Rightarrow> Inl (ValueError (lit ''Out of range float values are not JSON compliant'')))"
| "dumps ascii (JStr s) = Inr (string_text ascii s)"
| "dumps ascii (JArr xs) =
     bindE (mapE (dumps ascii) xs) (\<lambda>ts. Inr (91 # join_on [44] ts @ [93]))"
| "dumps ascii (JObj d) =
     bindE (mapE (\<lambda>kv. bindE (dumps ascii (snd kv)) (\<lambda>t. Inr (string_text ascii (fst kv) @ 58 # t))) d)
       (\<lambda>ts. Inr (123 # join_on [44] ts @ [125]))"

text \<open>\<open>sort_keys=True\<close>.\<close>

fun sort_keys :: "json \<Rightarrow> json" where
  "sort_keys (JArr xs) = JArr (map sort_keys xs)"
| "sort_keys (JObj d) = JObj (sort_key fst (map (\<lambda>kv. (fst kv, sort_keys (snd kv))) d))"
| "sort_keys v = v"

text \<open>\<open>json.dumps(v, ensure_ascii=False, ...).encode("utf-8")\<close>.\<close>

definition dump_bytes :: "json \<Rightarrow> exn + pybytes" where
  "dump_bytes v =
     bindE (dumps False v) (\<lambda>t. case utf8_encode t of None \<Rightarrow> Inl UnicodeError | Some bs \<Rightarrow> Inr bs)"

section \<open>Printing and scanning are inverse\<close>

lemma nat_digits_digits: "c \<in> set (nat_digits n) \<Longrightarrow> is_digit c"
proof (induction n rule: nat_digits.induct)
  case (1 n)
  then show ?case
    by (subst (asm) (2) nat_digits.simps) (auto simp: is_digit_def split: if_splits)
qed

lemma nat_digits_nonempty [simp]: "nat_digits n \<noteq> []"
  by (subst nat_digits.simps) simp

lemma digits_value_snoc: "digits_value (ds @ [c]) = digits_value ds * 10 + (c - 48)"
  by (simp add: digits_value_def)

lemma digits_value_nat_digits [simp]: "digits_value (nat_digits n) = n"
proof (induction n rule: nat_digits.induct)
  case (1 n)
  show ?case
  proof (cases "n < 10")
    case True
    then show ?thesis by (subst nat_digits.simps) (simp add: digits_value_def)
  next
    case False
    then show ?thesis by (subst nat_digits.simps) (simp add: 1 digits_value_snoc)
  qed
qed

lemma nat_digits_head: "hd (nat_digits n) = 48 \<Longrightarrow> n = 0"
proof (induction n rule: nat_digits.induct)
  case (1 n)
  then show ?case
    by (subst (asm) (2) nat_digits.simps) (auto split: if_splits)
qed

lemma nat_digits_zero [simp]: "nat_digits 0 = [48]"
  by (subst nat_digits.simps) simp

definition delimited :: "pystr \<Rightarrow> bool" where
  "delimited r = (case r of [] \<Rightarrow> True | c # _ \<Rightarrow> c = 44 \<or> c = 93 \<or> c = 125)"

lemma delimited_simps [simp]:
  "delimited []" "delimited (44 # r)" "delimited (93 # r)" "delimited (125 # r)"
  by (simp_all add: delimited_def)

lemma span_digits_all:
  "(\<And>c. c \<in> set ds \<Longrightarrow> is_digit c) \<Longrightarrow> delimited r \<Longrightarrow> span_digits (ds @ r) = (ds, r)"
  by (cases r) (auto simp: span_digits_def delimited_def is_digit_def takeWhile_append2 dropWhile_append3)

lemma scan_int_nat_digits:
  assumes "delimited r"
  shows "scan_int (nat_digits n @ r) = Some (nat_digits n, r)"
proof (cases "n = 0")
  case False
  obtain c ds where ds: "nat_digits n = c # ds" by (cases "nat_digits n") auto
  with False have "c \<noteq> 48" using nat_digits_head [of n] by auto
  moreover have "is_digit c" using nat_digits_digits [of c n] ds by simp
  moreover have "span_digits (nat_digits n @ r) = (nat_digits n, r)"
    using nat_digits_digits assms by (intro span_digits_all) auto
  ultimately show ?thesis using ds by (simp add: scan_int_def)
qed (simp add: scan_int_def)

lemma scan_tail_delimited [simp]:
  "delimited r \<Longrightarrow> scan_frac r = ([], r)" "delimited r \<Longrightarrow> scan_exp r = (None, r)"
  by (auto simp: scan_frac_def scan_exp_def delimited_def split: list.splits)

lemma scan_number_int:
  assumes "delimited r" and "length (nat_digits (nat \<bar>i\<bar>)) \<le> int_limit"
  shows "scan_number (int_str i @ r) = Inr (JInt i, r)"
proof -
  have "hd (nat_digits n) \<noteq> 45" for n
    using nat_digits_digits [of "hd (nat_digits n)" n] by (auto simp: is_digit_def)
  then have "\<exists>c ds. nat_digits n = c # ds \<and> c \<noteq> 45" for n
    by (metis list.exhaust_sel nat_digits_nonempty)
  then obtain c ds where c: "nat_digits (nat i) = c # ds" "c \<noteq> 45" by blast
  show ?thesis
  proof (cases "i < 0")
    case True
    then show ?thesis
      using assms by (simp add: scan_number_def int_str_def scan_int_nat_digits)
  next
    case False
    then show ?thesis
      using assms c scan_int_nat_digits [OF assms(1), of "nat i"]
      by (simp add: scan_number_def int_str_def del: digits_value_nat_digits)
        (metis digits_value_nat_digits int_nat_eq linorder_not_less)
  qed
qed

lemma int_str_head: "\<exists>c t. int_str i = c # t \<and> (c = 45 \<and> (\<exists>d u. t = d # u \<and> is_digit d) \<or> is_digit c)"
proof -
  have "\<exists>c ds. nat_digits n = c # ds \<and> is_digit c" for n
    by (metis list.exhaust_sel list.set_intros(1) nat_digits_digits nat_digits_nonempty)
  then show ?thesis by (cases "i < 0") (auto simp: int_str_def, metis)
qed

lemma scan_atom_int:
  assumes "delimited r" and "length (nat_digits (nat \<bar>i\<bar>)) \<le> int_limit"
  shows "scan_atom ch (int_str i @ r) = Inr (JInt i, r)"
proof -
  have "find (\<lambda>w. prefix (fst w) (int_str i @ r)) json_words = None"
    "find (\<lambda>w. prefix w (int_str i @ r)) json_constants = None"
    using int_str_head [of i] by (auto simp: json_words_def json_constants_def lit_def is_digit_def)
  then show ?thesis
    using assms by (simp add: scan_atom_def scan_number_int)
qed

lemma hex4_hex4_text:
  assumes "u < 256"
  shows "hex4 (hex4_text u @ r) = Some (u, r)"
proof -
  have "u div 4096 = 0" "u div 256 = 0" "u div 16 < 16" "u div 16 * 16 + u mod 16 = u"
    using assms by simp_all
  moreover have "hexpair (hex_lower 0) (hex_lower 0) = Some 0" by (simp add: hexpair_def)
  ultimately show ?thesis by (simp add: hex4_text_def)
qed

lemma scan_string_char:
  "scan_string (escape_char False c @ r) = map_option (apfst (Cons c)) (scan_string r)"
proof -
  consider "c = 34 \<or> c = 92 \<or> c = 10 \<or> c = 13 \<or> c = 9 \<or> c = 12 \<or> c = 8"
    | "c < 32" "c \<noteq> 10" "c \<noteq> 13" "c \<noteq> 9" "c \<noteq> 12" "c \<noteq> 8"
    | "32 \<le> c" "c \<noteq> 34" "c \<noteq> 92"
    by linarith
  then show ?thesis
  proof cases
    case 2
    then show ?thesis
      by (simp add: escape_char_def hex4_hex4_text join_surrogate_def)
  qed (auto simp: escape_char_def unescape_def)
qed

lemma scan_string_text: "scan_string (concat (map (escape_char False) s) @ 34 # r) = Some (s, r)"
  by (induction s) (simp_all add: scan_string_char)

fun float_free :: "json \<Rightarrow> bool" where
  "float_free (JFloat _) = False"
| "float_free (JArr xs) = list_all float_free xs"
| "float_free (JObj d) = list_all (\<lambda>kv. float_free (snd kv)) d"
| "float_free _ = True"

lemma skip_ws_Cons: "\<not> json_ws c \<Longrightarrow> skip_ws (c # r) = c # r"
  by (simp add: skip_ws_def)

lemma skip_ws_simps [simp]:
  "skip_ws [] = []" "skip_ws (44 # r) = 44 # r" "skip_ws (93 # r) = 93 # r" "skip_ws (125 # r) = 125 # r"
  "skip_ws (34 # r) = 34 # r" "skip_ws (58 # r) = 58 # r"
  by (simp_all add: skip_ws_def json_ws_def)

lemma dumps_head:
  assumes "dumps a v = Inr t" and "float_free v"
  shows "\<exists>c r. t = c # r \<and> \<not> json_ws c \<and> c \<noteq> 93 \<and> c \<noteq> 125 \<and> c < 128"
proof (cases v)
  case (JInt i)
  obtain c r where "int_str i = c # r" "c = 45 \<or> is_digit c"
    using int_str_head [of i] by auto
  moreover have "t = int_str i" using assms JInt by (simp split: if_splits)
  ultimately show ?thesis by (auto simp: json_ws_def is_digit_def)
qed (use assms in \<open>auto simp: lit_def json_ws_def string_text_def exn_simps\<close>)

lemma skip_ws_dumps: "dumps a v = Inr t \<Longrightarrow> float_free v \<Longrightarrow> skip_ws (t @ r) = t @ r"
  using dumps_head [of a v t] by (auto simp: skip_ws_def)

lemma scan_key_text: "scan_key (string_text False k @ 58 # r) = Some (k, skip_ws r)"
  by (simp add: scan_key_def string_text_def scan_string_text)

text \<open>The claim for one value, which the lists of items and members use for theirs.\<close>

definition reads_back :: "pairs_hook \<Rightarrow> const_hook \<Rightarrow> json \<Rightarrow> bool" where
  "reads_back ph ch v \<longleftrightarrow>
     (\<forall>t r n. dumps False v = Inr t \<longrightarrow> delimited r \<longrightarrow> 2 * length t \<le> n \<longrightarrow>
        scan n ph ch AValue (t @ r) = Inr (v, r))"

lemma scan_items_dumps:
  assumes "\<And>x. x \<in> set xs \<Longrightarrow> reads_back ph ch x \<and> float_free x"
    and "mapE (dumps False) xs = Inr ts" and "xs \<noteq> []"
    and "2 * length (join_on [44] ts) + 2 \<le> n"
  shows "scan n ph ch (AnArray acc) (join_on [44] ts @ 93 # r) = Inr (JArr (rev acc @ xs), r)"
  using assms
proof (induction xs arbitrary: acc ts n)
  case (Cons x xs)
  obtain t us where ts: "ts = t # us" "dumps False x = Inr t" "mapE (dumps False) xs = Inr us"
    using Cons.prems(2) by (auto simp: exn_simps list_all2_Cons1)
  obtain m where m: "n = Suc m" using Cons.prems(4) by (cases n) auto
  have x: "2 * length t \<le> m \<Longrightarrow> delimited q \<Longrightarrow> scan m ph ch AValue (t @ q) = Inr (x, q)" for q
    using Cons.prems(1) ts(2) unfolding reads_back_def by simp
  show ?case
  proof (cases us)
    case Nil
    then have "xs = []" using ts(3) by (cases xs) (auto simp: exn_simps)
    then show ?thesis using Nil ts m x [of "93 # r"] Cons.prems(4) by simp
  next
    case (Cons u vs)
    then obtain y ys where xs: "xs = y # ys" "dumps False y = Inr u" "float_free y"
      using ts(3) Cons.prems(1) by (cases xs) (auto simp: exn_simps)
    have j: "join_on [44] ts = t @ 44 # join_on [44] us" using ts(1) Cons by simp
    have "skip_ws (join_on [44] us @ 93 # r) = join_on [44] us @ 93 # r"
      using skip_ws_dumps [OF xs(2,3)] dumps_head [OF xs(2,3)] Cons
      by (cases vs) (auto simp: skip_ws_def)
    then show ?thesis
      using Cons.IH [of us m "x # acc"] xs ts m j x [of "44 # join_on [44] us @ 93 # r"] Cons.prems
      by simp
  qed
qed simp

definition member_text :: "pystr \<times> json \<Rightarrow> exn + pystr" where
  "member_text kv = bindE (dumps False (snd kv)) (\<lambda>t. Inr (string_text False (fst kv) @ 58 # t))"

lemma scan_members_dumps:
  assumes "\<And>kv. kv \<in> set d \<Longrightarrow> reads_back ph ch (snd kv) \<and> float_free (snd kv)"
    and "mapE member_text d = Inr ts" and "d \<noteq> []"
    and "2 * length (join_on [44] ts) + 2 \<le> n"
    and "ph (rev acc @ d) = Inr (JObj (rev acc @ d))"
  shows "scan n ph ch (AnObject acc) (join_on [44] ts @ 125 # r) = Inr (JObj (rev acc @ d), r)"
  using assms
proof (induction d arbitrary: acc ts n)
  case (Cons kv d)
  obtain k x where kv: "kv = (k, x)" by (cases kv)
  obtain t us where ts: "ts = (string_text False k @ 58 # t) # us" "dumps False x = Inr t"
      "mapE member_text d = Inr us"
    using Cons.prems(2) kv by (auto simp: exn_simps list_all2_Cons1 member_text_def)
  obtain m where m: "n = Suc m" using Cons.prems(4) by (cases n) auto
  have x: "2 * length t \<le> m \<Longrightarrow> delimited q \<Longrightarrow> scan m ph ch AValue (t @ q) = Inr (x, q)" for q
    using Cons.prems(1) [of kv] kv ts(2) unfolding reads_back_def by simp
  have key: "scan_key (string_text False k @ 58 # t @ q) = Some (k, t @ q)" for q
    using skip_ws_dumps [OF ts(2)] Cons.prems(1) [of kv] kv by (simp add: scan_key_text)
  show ?case
  proof (cases us)
    case Nil
    then have "d = []" using ts(3) by (cases d) (auto simp: exn_simps)
    then show ?thesis
      using Nil ts m x [of "125 # r"] key Cons.prems(4,5) kv by simp
  next
    case (Cons u vs)
    then obtain w where "u = 34 # w"
      using ts(3) by (cases d) (auto simp: exn_simps member_text_def string_text_def)
    then have w: "skip_ws (join_on [44] us @ 125 # r) = join_on [44] us @ 125 # r"
      using Cons by (cases vs) simp_all
    have j: "join_on [44] ts = string_text False k @ 58 # t @ 44 # join_on [44] us"
      using ts(1) Cons by simp
    moreover have "d \<noteq> []" using Cons ts(3) by auto
    ultimately show ?thesis
      using Cons.IH [of us m "kv # acc"] kv ts m w key x [of "44 # join_on [44] us @ 125 # r"] Cons.prems
      by simp
  qed
qed simp

lemma join_on_head: "\<exists>w'. join_on sep ((c # w) # ts) @ q = c # w'"
  by (cases ts) auto

lemma scan_atom_value:
  "\<not> c \<in> {34, 123, 91} \<Longrightarrow> scan (Suc n) ph ch AValue (c # r) = scan_atom ch (c # r)"
  by simp

lemma reads_back_scalar:
  "reads_back ph ch JNull" "reads_back ph ch (JBool b)" "reads_back ph ch (JStr s)"
proof -
  have "scan n ph ch AValue (lit w @ r) = Inr (v, r)"
    if "w \<in> {''null'', ''true'', ''false''}" "(lit w, v) \<in> set json_words" "0 < n" for n w v r
    using that by (cases n) (auto simp: json_words_def lit_def scan_atom_def)
  then show "reads_back ph ch JNull" "reads_back ph ch (JBool b)"
    by (auto simp: reads_back_def json_words_def)
  show "reads_back ph ch (JStr s)"
    unfolding reads_back_def
  proof (intro allI impI)
    fix t r n
    assume "dumps False (JStr s) = Inr t" "2 * length t \<le> n"
    then show "scan n ph ch AValue (t @ r) = Inr (JStr s, r)"
      by (cases n) (auto simp: string_text_def scan_string_text)
  qed
qed

lemma reads_back_int: "reads_back ph ch (JInt i)"
  unfolding reads_back_def
proof (intro allI impI)
  fix t r n
  assume "dumps False (JInt i) = Inr t" "delimited r" "2 * length t \<le> n"
  moreover from this have "t = int_str i" "length (nat_digits (nat \<bar>i\<bar>)) \<le> int_limit"
    by (simp_all split: if_splits)
  moreover obtain c u where "int_str i = c # u" "\<not> c \<in> {34, 123, 91}"
    using int_str_head [of i] by (auto simp: is_digit_def)
  ultimately show "scan n ph ch AValue (t @ r) = Inr (JInt i, r)"
    using scan_atom_int [of r i ch] scan_atom_value [of c _ ph ch "u @ r"]
    by (cases n) simp_all
qed

lemma reads_back_array:
  assumes "\<And>x. x \<in> set xs \<Longrightarrow> reads_back ph ch x \<and> float_free x"
  shows "reads_back ph ch (JArr xs)"
  unfolding reads_back_def
proof (intro allI impI)
  fix t r n
  assume t: "dumps False (JArr xs) = Inr t" "2 * length t \<le> n"
  then obtain ts where ts: "mapE (dumps False) xs = Inr ts" "t = 91 # join_on [44] ts @ [93]"
    by (auto simp: bindE_Inr_iff)
  obtain m where m: "n = Suc m" using t ts by (cases n) auto
  show "scan n ph ch AValue (t @ r) = Inr (JArr xs, r)"
  proof (cases xs)
    case Nil
    then show ?thesis using m ts by simp
  next
    case (Cons x ys)
    then obtain u us where us: "dumps False x = Inr u" "ts = u # us"
      using ts(1) by (auto simp: exn_simps)
    obtain c w where c: "u = c # w" "\<not> json_ws c" "c \<noteq> 93"
      using dumps_head [OF us(1)] assms Cons by auto
    have "skip_ws (join_on [44] ts @ 93 # r) = join_on [44] ts @ 93 # r
        \<and> take 1 (join_on [44] ts @ 93 # r) \<noteq> [93]"
      using join_on_head [of "[44]" c w us "93 # r"] c us(2) by (auto simp: skip_ws_def)
    then show ?thesis
      using scan_items_dumps [OF assms ts(1), of m "[]" r] m ts(2) t(2) Cons by simp
  qed
qed

lemma reads_back_object:
  assumes "\<And>kv. kv \<in> set d \<Longrightarrow> reads_back ph ch (snd kv) \<and> float_free (snd kv)"
    and hook: "ph d = Inr (JObj d)"
  shows "reads_back ph ch (JObj d)"
  unfolding reads_back_def
proof (intro allI impI)
  fix t r n
  assume t: "dumps False (JObj d) = Inr t" "2 * length t \<le> n"
  then obtain ts where ts: "mapE member_text d = Inr ts" "t = 123 # join_on [44] ts @ [125]"
    by (auto simp: bindE_Inr_iff member_text_def [abs_def])
  obtain m where m: "n = Suc m" using t ts by (cases n) auto
  show "scan n ph ch AValue (t @ r) = Inr (JObj d, r)"
  proof (cases d)
    case Nil
    then show ?thesis using m ts hook by simp
  next
    case (Cons x ys)
    then obtain w us where us: "ts = (34 # w) # us"
      using ts(1) by (auto simp: exn_simps member_text_def string_text_def)
    have "skip_ws (join_on [44] ts @ 125 # r) = join_on [44] ts @ 125 # r
        \<and> take 1 (join_on [44] ts @ 125 # r) \<noteq> [125]"
      using join_on_head [of "[44]" 34 w us "125 # r"] us by auto
    then show ?thesis
      using scan_members_dumps [OF assms(1) ts(1), of m "[]" r] m ts(2) t(2) Cons hook by simp
  qed
qed

theorem loads_dumps:
  assumes hook: "\<And>d. distinct (map fst d) \<Longrightarrow> ph d = Inr (JObj d)"
    and v: "wf_json v" "float_free v" and t: "dumps False v = Inr t"
  shows "loads ph ch t = Inr v"
proof -
  have "wf_json v \<Longrightarrow> float_free v \<Longrightarrow> reads_back ph ch v" for v
  proof (induction v rule: wf_json.induct)
    case (1 xs)
    then show ?case by (intro reads_back_array) (auto simp: list_all_iff)
  next
    case (2 d)
    then show ?case by (intro reads_back_object hook) (auto simp: list_all_iff)
  qed (auto intro: reads_back_scalar reads_back_int)
  then have "scan (2 * length t + 1) ph ch AValue (t @ []) = Inr (v, [])"
    using v t unfolding reads_back_def by (metis delimited_simps(1) le_add1)
  moreover obtain c r where "t = c # r" "c < 128" using dumps_head [OF t v(2)] by auto
  ultimately show ?thesis
    using skip_ws_dumps [OF t v(2), of "[]"] by (simp add: loads_def)
qed

section \<open>The bound on the recursion is enough\<close>

lemma skip_ws_length: "length (skip_ws s) \<le> length s"
  by (simp add: skip_ws_def length_dropWhile_le)

lemma scan_string_length: "scan_string s = Some (t, r) \<Longrightarrow> length r < length s"
proof (induction s arbitrary: t r rule: scan_string.induct)
  case (2 c s)
  show ?case
  proof (cases "c = 92")
    case False
    then show ?thesis using 2 by (fastforce split: if_splits)
  next
    case esc: True
    obtain e s1 where s: "s = e # s1" using 2(4) esc by (cases s) auto
    show ?thesis
    proof (cases "e = 117")
      case False
      then show ?thesis using 2(4) 2(2) [OF _ esc s False] esc s by (fastforce split: option.splits)
    next
      case True
      obtain u s2 where u: "hex4 s1 = Some (u, s2)" using 2(4) esc s True by (auto split: option.splits)
      obtain v s3 where v: "join_surrogate u s2 = (v, s3)" by fastforce
      obtain t' where "scan_string s3 = Some (t', r)" using 2(4) esc s True u v by auto
      then have "length r < length s3" using 2(1) [OF _ esc s True u refl v [symmetric]] esc by simp
      then show ?thesis using hex4_length [OF u] join_surrogate_length [OF v] s by simp
    qed
  qed
qed simp

lemma span_digits_length: "span_digits s = (a, r) \<Longrightarrow> length r \<le> length s"
  by (auto simp: span_digits_def length_dropWhile_le)

lemma scan_int_length: "scan_int s = Some (a, r) \<Longrightarrow> length r < length s"
  by (auto simp: scan_int_def span_digits_def le_imp_less_Suc length_dropWhile_le split: list.splits if_splits)

lemma scan_frac_length: "scan_frac s = (a, r) \<Longrightarrow> length r \<le> length s"
  by (auto simp: scan_frac_def dest!: span_digits_length split: list.splits if_splits)

lemma scan_exp_length: "scan_exp s = (a, r) \<Longrightarrow> length r \<le> length s"
  by (auto simp: scan_exp_def Let_def dest!: span_digits_length split: list.splits if_splits prod.splits)

lemma scan_number_length: "scan_number s = Inr (v, r) \<Longrightarrow> length r < length s"
  by (auto simp: scan_number_def Let_def dest!: scan_int_length scan_frac_length scan_exp_length
      split: list.splits if_splits prod.splits option.splits)

lemma find_mem: "find P xs = Some x \<Longrightarrow> x \<in> set xs \<and> P x"
  by (induction xs) (auto split: if_splits)

lemma drop_prefix_length: "prefix w s \<Longrightarrow> w \<noteq> [] \<Longrightarrow> length (drop (length w) s) < length s"
  by (auto simp: prefix_def)

lemma scan_atom_length:
  assumes "scan_atom ch s = Inr (v, r)"
  shows "length r < length s"
proof (cases "find (\<lambda>w. prefix (fst w) s) json_words")
  case (Some wv)
  then have "prefix (fst wv) s" "fst wv \<noteq> []"
    using find_mem [OF Some] by (auto simp: json_words_def)
  then show ?thesis using assms Some drop_prefix_length by (auto simp: scan_atom_def split: prod.splits)
next
  case words: None
  show ?thesis
  proof (cases "find (\<lambda>w. prefix w s) json_constants")
    case None
    then show ?thesis using assms words by (simp add: scan_atom_def scan_number_length)
  next
    case (Some w)
    then have "prefix w s" "w \<noteq> []" using find_mem [OF Some] by (auto simp: json_constants_def)
    then show ?thesis using assms words Some drop_prefix_length by (auto simp: scan_atom_def bindE_Inr_iff)
  qed
qed

lemma scan_key_length:
  assumes "scan_key s = Some (k, r)"
  shows "length r + 1 < length s"
proof -
  obtain q r1 where s: "s = q # r1" "q = 34"
    using assms by (cases s) (auto simp: scan_key_def split: if_splits)
  then obtain r2 where r2: "scan_string r1 = Some (k, r2)" "take 1 (skip_ws r2) = [58]"
      "r = skip_ws (drop 1 (skip_ws r2))"
    using assms by (cases "scan_string r1") (auto simp: scan_key_def split: if_splits)
  then have "length (drop 1 (skip_ws r2)) < length (skip_ws r2)" by (cases "skip_ws r2") auto
  then show ?thesis
    using s r2 skip_ws_length [of r2] skip_ws_length [of "drop 1 (skip_ws r2)"] scan_string_length [OF r2(1)]
    by simp
qed

lemma scan_length: "scan n ph ch m s = Inr (v, r) \<Longrightarrow> length r < length s"
proof (induction n arbitrary: m s v r)
  case (Suc n)
  have after: "length r < length s"
    if "scan n ph ch AValue q = Inr (x, r1)" "length q \<le> length s" "skip_ws r1 = d # r2"
      "r = r2 \<or> (\<exists>m'. scan n ph ch m' (skip_ws r2) = Inr (v, r))" for q x r1 d r2
    using that Suc.IH [OF that(1)] Suc.IH [of _ "skip_ws r2" v r] skip_ws_length [of r1] skip_ws_length [of r2]
    by fastforce
  show ?case
  proof (cases m)
    case AValue
    then obtain c s1 where s: "s = c # s1" using Suc.prems by (cases s) auto
    consider "c = 34" | "c = 123" | "c = 91" | "c \<notin> {34, 123, 91}" by auto
    then show ?thesis
    proof cases
      case 1
      then show ?thesis using Suc.prems AValue s
        by (auto dest!: scan_string_length split: option.splits)
    next
      case 4
      then show ?thesis using Suc.prems AValue s scan_atom_length [of ch s v r] by simp
    qed (use Suc.prems Suc.IH [of _ "skip_ws s1" v r] AValue s skip_ws_length [of s1] in
        \<open>fastforce simp: Let_def exn_simps split: if_splits\<close>)+
  next
    case (AnArray acc)
    then obtain x r1 where x: "scan n ph ch AValue s = Inr (x, r1)"
      using Suc.prems by (cases "scan n ph ch AValue s") auto
    with Suc.prems AnArray obtain d r2 where d: "skip_ws r1 = d # r2" by (cases "skip_ws r1") auto
    have "r = r2 \<or> (\<exists>m'. scan n ph ch m' (skip_ws r2) = Inr (v, r))"
      using Suc.prems AnArray x d by (auto split: if_split_asm)
    then show ?thesis by (rule after [OF x order.refl d])
  next
    case (AnObject acc)
    then obtain k q where k: "scan_key s = Some (k, q)"
      using Suc.prems by (cases "scan_key s") auto
    with AnObject Suc.prems obtain x r1 where x: "scan n ph ch AValue q = Inr (x, r1)"
      by (cases "scan n ph ch AValue q") auto
    with Suc.prems AnObject k obtain d r2 where d: "skip_ws r1 = d # r2" by (cases "skip_ws r1") auto
    have "r = r2 \<or> (\<exists>m'. scan n ph ch m' (skip_ws r2) = Inr (v, r))"
      using Suc.prems AnObject k x d by (auto simp: bindE_Inr_iff split: if_split_asm)
    then show ?thesis using after [OF x _ d] scan_key_length [OF k] by simp
  qed
qed simp

definition scan_need :: "scan_mode \<Rightarrow> pystr \<Rightarrow> nat" where
  "scan_need m s = 2 * length s + (case m of AValue \<Rightarrow> 0 | _ \<Rightarrow> 1)"

lemma bindE_cong:
  "m = m' \<Longrightarrow> (\<And>x. m' = Inr x \<Longrightarrow> f x = g x) \<Longrightarrow> bindE m f = bindE m' g"
  by (cases m') auto

lemma scan_fuel: "scan_need m s < n \<Longrightarrow> n \<le> k \<Longrightarrow> scan k ph ch m s = scan n ph ch m s"
proof (induction n arbitrary: k m s)
  case (Suc n)
  then obtain j where k: "k = Suc j" "n \<le> j" by (cases k) auto
  have ih: "scan j ph ch m' q = scan n ph ch m' q" if "scan_need m' q < n" for m' q
    using Suc.IH that k(2) by blast
  have after: "scan j ph ch m' (skip_ws r2) = scan n ph ch m' (skip_ws r2)"
    if "scan n ph ch AValue q = Inr (x, r1)" "length q \<le> length s" "skip_ws r1 = d # r2"
      "m \<noteq> AValue" for q x r1 d r2 m'
    using that scan_length [OF that(1)] skip_ws_length [of r1] skip_ws_length [of r2] Suc.prems
    by (intro ih) (auto simp: scan_need_def split: scan_mode.splits)
  show ?case
  proof (cases m)
    case AValue
    show ?thesis
    proof (cases s)
      case (Cons c r)
      then have "scan j ph ch m' (skip_ws r) = scan n ph ch m' (skip_ws r)" for m'
        using Suc.prems AValue skip_ws_length [of r]
        by (intro ih) (auto simp: scan_need_def split: scan_mode.splits)
      then show ?thesis using AValue Cons k by (simp add: Let_def)
    qed (simp add: AValue k)
  next
    case (AnArray acc)
    have "scan j ph ch AValue s = scan n ph ch AValue s"
      using Suc.prems AnArray by (intro ih) (simp add: scan_need_def)
    then show ?thesis
      unfolding k scan.simps AnArray scan_mode.case
      using after [where q = s] AnArray by (intro bindE_cong) (auto split: list.split)
  next
    case (AnObject acc)
    show ?thesis
    proof (cases "scan_key s")
      case None
      then show ?thesis using AnObject k by simp
    next
      case (Some kr)
      obtain key q where kr: "kr = (key, q)" by (cases kr)
      have q: "length q + 1 < length s" using scan_key_length [of s key q] Some kr by simp
      then have "scan j ph ch AValue q = scan n ph ch AValue q"
        using Suc.prems AnObject by (intro ih) (simp add: scan_need_def)
      then show ?thesis
        unfolding k scan.simps AnObject scan_mode.case Some kr option.case prod.case
        using after [where q = q] AnObject q by (intro bindE_cong) (auto split: list.split)
    qed
  qed
qed simp

section \<open>Round trip through \<open>bytes\<close>\<close>

lemma escape_char_printable: "c \<in> set (escape_char False x) \<Longrightarrow> 32 \<le> c"
proof -
  have "32 \<le> hex_lower n" for n by (simp add: hex_lower_def)
  then show "c \<in> set (escape_char False x) \<Longrightarrow> 32 \<le> c"
    by (auto simp: escape_char_def hex4_text_def split: if_splits)
qed

lemma string_text_printable: "c \<in> set (string_text False x) \<Longrightarrow> 32 \<le> c"
  by (auto simp: string_text_def dest: escape_char_printable)

lemma join_on_set: "c \<in> set (join_on sep ts) \<Longrightarrow> c \<in> set sep \<or> (\<exists>t \<in> set ts. c \<in> set t)"
  by (induction sep ts rule: join_on.induct) auto

lemma dumps_printable:
  "dumps False v = Inr t \<Longrightarrow> float_free v \<Longrightarrow> c \<in> set t \<Longrightarrow> 32 \<le> c"
proof (induction "False" v arbitrary: t c rule: dumps.induct)
  case (3 i)
  then show ?case
    using nat_digits_digits [of c "nat (- i)"] nat_digits_digits [of c "nat i"]
    by (auto simp: int_str_def is_digit_def split: if_splits)
next
  case (6 xs)
  obtain ts where ts: "list_all2 (\<lambda>x t. dumps False x = Inr t) xs ts" "t = 91 # join_on [44] ts @ [93]"
    using 6(2) by (auto simp: exn_simps)
  have "32 \<le> c" if u: "u \<in> set ts" "c \<in> set u" for u
  proof -
    obtain x where "x \<in> set xs" "dumps False x = Inr u"
      using list_all2_right [OF ts(1) u(1)] by auto
    with 6(3) u(2) show ?thesis by (intro 6(1) [of x u c]) (auto simp: list_all_iff)
  qed
  then show ?case using join_on_set [of c "[44]" ts] 6(4) ts(2) by auto
next
  case (7 d)
  obtain ts where ts: "list_all2 (\<lambda>x t. \<exists>u. dumps False (snd x) = Inr u \<and>
      string_text False (fst x) @ 58 # u = t) d ts" "t = 123 # join_on [44] ts @ [125]"
    using 7(2) by (auto simp: exn_simps)
  have "32 \<le> c" if u: "u \<in> set ts" "c \<in> set u" for u
  proof -
    obtain x w where x: "x \<in> set d" "dumps False (snd x) = Inr w" "string_text False (fst x) @ 58 # w = u"
      using list_all2_right [OF ts(1) u(1)] by auto
    have "c \<in> set w \<Longrightarrow> 32 \<le> c"
      using 7(3) x by (intro 7(1) [of x w c]) (auto simp: list_all_iff)
    then show ?thesis using x(3) u(2) string_text_printable by auto
  qed
  then show ?case using join_on_set [of c "[44]" ts] 7(4) ts(2) by auto
qed (auto simp: lit_def string_text_printable split: if_splits)

lemma utf8_char_nonzero: "0 < c \<Longrightarrow> 0 \<notin> set (utf8_char c)"
  by (auto simp: utf8_char_def)

theorem loads_dump_bytes:
  assumes hook: "\<And>d. distinct (map fst d) \<Longrightarrow> ph d = Inr (JObj d)"
    and v: "wf_json v" "float_free v" and b: "dump_bytes v = Inr bs"
  shows "loads_bytes ph ch bs = Inr v"
proof -
  obtain t where t: "dumps False v = Inr t" "utf8_encode t = Some bs"
    using b by (auto simp: dump_bytes_def exn_simps split: option.splits)
  obtain c r where c: "t = c # r" "c < 128" using dumps_head [OF t(1) v(2)] by auto
  then obtain bs' where bs: "bs = c # bs'"
    using t(2) by (auto simp: utf8_encode_def split: if_splits)
  have "0 \<notin> set bs"
  proof
    assume "0 \<in> set bs"
    then obtain x where x: "x \<in> set t" "0 \<in> set (utf8_char x)"
      using t(2) by (auto simp: utf8_encode_def split: if_splits)
    with dumps_printable [OF t(1) v(2) x(1)] show False using utf8_char_nonzero [of x] by simp
  qed
  then have nz: "i < length bs \<Longrightarrow> bs ! i \<noteq> 0" for i using nth_mem [of i bs] by metis
  then have "2 \<le> length bs \<Longrightarrow> bs ! 0 \<noteq> 0 \<and> bs ! 1 \<noteq> 0" using nz [of 0] nz [of 1] by linarith
  moreover have "take k bs \<noteq> x # xs" if "128 \<le> x \<or> x = 0" for k x xs
    using that bs c \<open>0 \<notin> set bs\<close> by (cases k) auto
  ultimately have "json_decode_bytes bs = utf8_decoder True bs"
    by (cases "2 \<le> length bs") (auto simp: json_decode_bytes_def)
  then show ?thesis
    using utf8_decode_encode [OF t(2)] loads_dumps [OF hook v t(1)]
    by (simp add: loads_bytes_def)
qed

section \<open>Sorted keys\<close>

lemma map_of_sort_key: "distinct (map fst d) \<Longrightarrow> map_of (sort_key fst d) k = map_of d k"
  by (intro fun_cong [OF map_of_inject_set [THEN iffD2]]) (auto simp: distinct_map)

lemma map_of_map_snd: "map_of (map (\<lambda>kv. (fst kv, f (snd kv))) d) k = map_option f (map_of d k)"
  by (induction d) auto

lemma dget_sort_keys:
  "distinct (map fst d) \<Longrightarrow> dget (obj_of (sort_keys (JObj d))) k = sort_keys (dget d k)"
  by (simp add: dget_def map_of_sort_key map_of_map_snd comp_def split: option.split)

lemma has_key_sort_keys:
  "distinct (map fst d) \<Longrightarrow> has_key (obj_of (sort_keys (JObj d))) k = has_key d k"
  by (simp add: has_key_def map_of_sort_key map_of_map_snd comp_def)

lemma sort_keys_preserves:
  "wf_json v \<Longrightarrow> wf_json (sort_keys v)" "float_free v \<Longrightarrow> float_free (sort_keys v)"
  by (induction v rule: sort_keys.induct)
    (auto simp: list_all_iff comp_def distinct_map inj_on_def)

text \<open>
  A layout of JSON values changes at most the order of the members of objects.  What reads objects
  by key cannot tell a value from its layout; clients prove that once, and it holds for the value
  itself and for \<open>sort_keys\<close>.
\<close>

locale json_layout =
  fixes layout :: "json \<Rightarrow> json"
  assumes layout_scalar: "layout JNull = JNull" "layout (JBool b) = JBool b" "layout (JStr s) = JStr s"
    and layout_array: "layout (JArr xs) = JArr (map layout xs)"
    and layout_is_obj: "layout (JObj d) = JObj (obj_of (layout (JObj d)))"
    and layout_dget: "distinct (map fst d) \<Longrightarrow> dget (obj_of (layout (JObj d))) k = layout (dget d k)"
    and layout_has_key: "distinct (map fst d) \<Longrightarrow> has_key (obj_of (layout (JObj d))) k = has_key d k"
begin

lemma layout_dkeys:
  assumes "distinct (map fst d)"
  shows "set (dkeys (obj_of (layout (JObj d)))) = set (dkeys d)"
  using layout_has_key [OF assms] by (auto simp: has_key_iff)

end

interpretation plain_layout: json_layout "\<lambda>v. v"
  by unfold_locales simp_all

interpretation sorted_layout: json_layout sort_keys
  by unfold_locales (simp, simp, simp, simp, simp, rule dget_sort_keys, assumption, rule has_key_sort_keys)

section \<open>What \<open>dumps\<close> and the encoding accept\<close>

fun encodable :: "json \<Rightarrow> bool" where
  "encodable (JInt i) = (length (nat_digits (nat \<bar>i\<bar>)) \<le> int_limit)"
| "encodable (JFloat f) = (case f of FFinite _ _ \<Rightarrow> True | _ \<Rightarrow> False)"
| "encodable (JStr s) = list_all is_scalar s"
| "encodable (JArr xs) = list_all encodable xs"
| "encodable (JObj d) = list_all (\<lambda>kv. list_all is_scalar (fst kv) \<and> encodable (snd kv)) d"
| "encodable _ = True"

lemma shortest_digits: "shortest r = (ds, p) \<Longrightarrow> c \<in> set ds \<Longrightarrow> is_digit c"
proof -
  have at: "shortest_at r n = Some (ds, p) \<Longrightarrow> \<exists>b. ds = nat_digits b" for n ds p
    by (auto simp: shortest_at_def Let_def split: list.splits if_splits)
  assume s: "shortest r = (ds, p)" "c \<in> set ds"
  show "is_digit c"
  proof (cases "first_some (shortest_at r) [1 ..< 18]")
    case None
    then show ?thesis using s by (auto simp: shortest_def is_digit_def)
  next
    case (Some x)
    then obtain n where "shortest_at r n = Some (ds, p)"
      using first_some_SomeD [OF Some] s(1) by (auto simp: shortest_def)
    then show ?thesis using at s(2) nat_digits_digits by blast
  qed
qed

lemma float_repr_ascii: "set (float_repr neg r) \<subseteq> {..<128}"
proof -
  obtain ds p where s: "shortest r = (ds, p)" by fastforce
  define e where "e = rev (dropWhile (\<lambda>c. c = 48) (rev ds))"
  have "set (dropWhile (\<lambda>c. c = 48) (rev ds)) \<subseteq> set ds" by (auto dest: set_dropWhileD)
  moreover have "set ds \<subseteq> {..<128}" by (auto dest!: shortest_digits [OF s] simp: is_digit_def)
  ultimately have "set e \<subseteq> {..<128}" by (simp add: e_def)
  moreover from this have "set (take n e) \<subseteq> {..<128}" "set (drop n e) \<subseteq> {..<128}" for n
    using set_take_subset [of n e] set_drop_subset [of n e] by auto
  moreover have "set (nat_digits m) \<subseteq> {..<128}" for m
    by (auto dest!: nat_digits_digits simp: is_digit_def)
  moreover have "set (replicate n (48::nat)) \<subseteq> {..<128}" "set (lit ''0.'') \<subseteq> {..<128}" "set (lit ''.0'') \<subseteq> {..<128}"
    "set (lit ''0.0'') \<subseteq> {..<128}" for n
    by (auto simp: lit_def)
  ultimately show ?thesis
    unfolding float_repr_def s prod.case Let_def e_def [symmetric]
    by (simp del: set_replicate_conv_if) auto
qed

lemma ascii_scalar [simp]: "c < 128 \<Longrightarrow> is_scalar c"
  by (simp add: is_scalar_def)

lemma string_text_scalar: "list_all is_scalar s \<Longrightarrow> list_all is_scalar (string_text False s)"
proof -
  have "is_scalar (hex_lower n)" if "n < 16" for n using that by (simp add: hex_lower_def)
  then have "list_all is_scalar (hex4_text u)" for u by (simp add: hex4_text_def)
  then have "list_all is_scalar (escape_char False c)" if "is_scalar c" for c
    using that by (simp add: escape_char_def)
  then show "list_all is_scalar s \<Longrightarrow> list_all is_scalar (string_text False s)"
    by (induction s) (auto simp: string_text_def)
qed

lemma join_on_scalar: "list_all (list_all is_scalar) ts \<Longrightarrow> list_all is_scalar (join_on [44] ts)"
  using join_on_set by (fastforce simp: list_all_iff)

lemma mapE_total_ex:
  "(\<And>x. x \<in> set xs \<Longrightarrow> \<exists>y. f x = Inr y \<and> P y) \<Longrightarrow> \<exists>ys. mapE f xs = Inr ys \<and> list_all P ys"
  by (induction xs) fastforce+

lemma dumps_total: "encodable v \<Longrightarrow> \<exists>t. dumps False v = Inr t \<and> list_all is_scalar t"
proof (induction v rule: encodable.induct)
  case (1 i)
  have "list_all is_scalar (nat_digits n)" for n
    using nat_digits_digits by (fastforce simp: list_all_iff is_digit_def)
  then show ?case using 1 by (auto simp: int_str_def)
next
  case (2 f)
  then show ?case
    using float_repr_ascii by (cases f) (fastforce simp: list_all_iff)+
next
  case (4 xs)
  have "\<exists>ts. mapE (dumps False) xs = Inr ts \<and> list_all (list_all is_scalar) ts"
    using 4 by (intro mapE_total_ex) (auto simp: list_all_iff)
  then show ?case using join_on_scalar by auto
next
  case (5 d)
  have "\<exists>ts. mapE (\<lambda>kv. bindE (dumps False (snd kv)) (\<lambda>t. Inr (string_text False (fst kv) @ 58 # t))) d = Inr ts
      \<and> list_all (list_all is_scalar) ts"
  proof (intro mapE_total_ex)
    fix kv
    assume "kv \<in> set d"
    then obtain t where "dumps False (snd kv) = Inr t" "list_all is_scalar t" "list_all is_scalar (fst kv)"
      using 5(1) [of kv] 5(2) by (cases kv) (auto simp: list_all_iff)
    then show "\<exists>y. bindE (dumps False (snd kv)) (\<lambda>t. Inr (string_text False (fst kv) @ 58 # t)) = Inr y
        \<and> list_all is_scalar y"
      using string_text_scalar by auto
  qed
  then show ?case using join_on_scalar by auto
qed (auto simp: lit_def string_text_scalar)

lemma dump_bytes_total: "encodable v \<Longrightarrow> \<exists>bs. dump_bytes v = Inr bs"
  using dumps_total [of v] by (auto simp: dump_bytes_def utf8_encode_def)

lemma encodable_sort_keys: "encodable v \<Longrightarrow> encodable (sort_keys v)"
  by (induction v rule: sort_keys.induct) (auto simp: list_all_iff)

section \<open>Scanned values are well formed\<close>

lemma scan_wf_json:
  assumes ph: "\<And>ps v. ph ps = Inr v \<Longrightarrow> list_all (\<lambda>kv. wf_json (snd kv)) ps \<Longrightarrow> wf_json v"
    and ch: "\<And>w v. ch w = Inr v \<Longrightarrow> wf_json v"
  shows "scan n ph ch m s = Inr (v, r) \<Longrightarrow>
    (case m of AValue \<Rightarrow> True | AnArray acc \<Rightarrow> list_all wf_json acc
     | AnObject acc \<Rightarrow> list_all (\<lambda>kv. wf_json (snd kv)) acc) \<Longrightarrow> wf_json v"
proof (induction n arbitrary: m s v r)
  case (Suc n)
  have atom: "scan_atom ch s = Inr (v, r) \<Longrightarrow> wf_json v"
    using ch by (auto simp: scan_atom_def scan_number_def json_words_def bindE_Inr_iff Let_def
        split: option.splits if_splits prod.splits list.splits)
  show ?case
  proof (cases m)
    case AValue
    then obtain c s1 where s: "s = c # s1" using Suc.prems(1) by (cases s) auto
    then show ?thesis
      using Suc.prems(1) AValue atom ph [of "[]" v]
      by (auto simp: Let_def bindE_Inr_iff dest: Suc.IH split: if_splits option.splits)
  next
    case (AnArray acc)
    then obtain x r1 where x: "scan n ph ch AValue s = Inr (x, r1)"
      using Suc.prems(1) by (cases "scan n ph ch AValue s") auto
    then have "wf_json x" using Suc.IH by fastforce
    moreover obtain d r2 where "skip_ws r1 = d # r2"
      using Suc.prems(1) AnArray x by (cases "skip_ws r1") auto
    ultimately show ?thesis
      using Suc.prems AnArray x Suc.IH [of "AnArray (x # acc)" "skip_ws r2" v r]
      by (auto simp: list_all_iff split: if_splits)
  next
    case (AnObject acc)
    then obtain k q where k: "scan_key s = Some (k, q)"
      using Suc.prems(1) by (cases "scan_key s") auto
    with AnObject Suc.prems(1) obtain x r1 where x: "scan n ph ch AValue q = Inr (x, r1)"
      by (cases "scan n ph ch AValue q") auto
    then have "wf_json x" using Suc.IH by fastforce
    moreover obtain d r2 where "skip_ws r1 = d # r2"
      using Suc.prems(1) AnObject k x by (cases "skip_ws r1") auto
    ultimately show ?thesis
      using Suc.prems AnObject k x Suc.IH [of "AnObject ((k, x) # acc)" "skip_ws r2" v r]
        ph [of "rev ((k, x) # acc)" v]
      by (auto simp: list_all_iff bindE_Inr_iff split: if_splits)
  qed
qed simp

lemma raises_scan:
  assumes Q: "Q JSONDecodeError" "Q int_too_long" and ph: "\<And>ps. raises Q (ph ps)" and ch: "\<And>w. raises Q (ch w)"
  shows "raises Q (scan n ph ch m s)"
proof (induction n arbitrary: m s)
  case (Suc n)
  have num: "raises Q (scan_number s)" for s
    using Q by (auto simp: scan_number_def Let_def split: option.split prod.split list.split)
  have atom: "raises Q (scan_atom ch s)" for s
    using num ch by (auto simp: scan_atom_def split: option.split intro!: raises_bindE)
  show ?case
  proof (cases m)
    case AValue
    then show ?thesis
      using Suc atom Q ph by (auto simp: Let_def split: list.split option.split intro!: raises_bindE)
  next
    case (AnArray acc)
    then show ?thesis
      using Suc Q by (auto split: list.split intro!: raises_bindE)
  next
    case (AnObject acc)
    then show ?thesis
      using Suc Q ph by (auto split: list.split option.split intro!: raises_bindE)
  qed
qed (simp add: Q)

lemma raises_loads_bytes:
  assumes "Q UnicodeError" "Q JSONDecodeError" "Q int_too_long" "\<And>ps. raises Q (ph ps)" "\<And>w. raises Q (ch w)"
  shows "raises Q (loads_bytes ph ch b)"
  using raises_scan [of Q ph ch, OF assms(2-5)] assms(1,2)
  by (auto simp: loads_bytes_def loads_def simp del: scan.simps split: option.split intro!: raises_bindE)

lemma dict_put_new: "k \<notin> fst ` set d \<Longrightarrow> dict_put d k v = d @ [(k, v)]"
  by (induction d k v rule: dict_put.induct) auto

lemma dict_put_keys: "fst ` set (dict_put d k v) = insert k (fst ` set d)"
  by (induction d k v rule: dict_put.induct) auto

lemma dict_put_distinct: "distinct (map fst d) \<Longrightarrow> distinct (map fst (dict_put d k v))"
  by (induction d k v rule: dict_put.induct) (auto simp: dict_put_keys simp flip: image_set)

lemma dict_put_lookup: "map_of (dict_put d k v) = (map_of d)(k \<mapsto> v)"
  by (induction d k v rule: dict_put.induct) auto

lemma dict_put_mem: "kv \<in> set (dict_put d k v) \<Longrightarrow> kv \<in> set d \<or> kv = (k, v)"
  by (induction d k v rule: dict_put.induct) (auto split: if_splits)

lemma plain_pairs_distinct:
  assumes "distinct (map fst ps)"
  shows "plain_pairs ps = Inr (JObj ps)"
proof -
  have "distinct (map fst (acc @ ps)) \<Longrightarrow> foldl (\<lambda>d (k, v). dict_put d k v) acc ps = acc @ ps" for acc
    by (induction ps arbitrary: acc) (auto simp: dict_put_new)
  from this [of "[]"] assms show ?thesis by (simp add: plain_pairs_def)
qed

end
