(* ===== verification/ManagedPolicy.thy ===== *)
theory ManagedPolicy
  imports PyUrl PyJson
begin

text \<open>
  \<open>tools/policy/managed_policy.py\<close>: the lexical resolver of managed filesystem policies.  A portable
  sandbox context is parsed into an immutable \<open>ManagedPolicy\<close>; a path is then decided by the most
  specific entry that contains it, with a separate check that protects project metadata.
\<close>

section \<open>Data\<close>

datatype Access = READ | WRITE | DENY

fun access_value :: "Access \<Rightarrow> pystr" where
  "access_value READ = lit ''read''"
| "access_value WRITE = lit ''write''"
| "access_value DENY = lit ''deny''"

fun precedence :: "Access \<Rightarrow> nat" where
  "precedence READ = 0"
| "precedence WRITE = 1"
| "precedence DENY = 2"

definition METADATA_NAMES :: "pystr list" where
  "METADATA_NAMES = [lit ''.git'', lit ''.agents'', lit ''.codex'']"

datatype GuestPath = GuestPath (parts: "pystr list")

datatype Special = Root | ProjectRoots | Tmpdir | SlashTmp

fun special_name :: "Special \<Rightarrow> pystr" where
  "special_name Root = lit ''root''"
| "special_name ProjectRoots = lit ''project_roots''"
| "special_name Tmpdir = lit ''tmpdir''"
| "special_name SlashTmp = lit ''slash_tmp''"

text \<open>\<open>Entry\<close>: \<open>kind\<close> is \<open>"path"\<close> with a path, or \<open>"special"\<close> with a token and its optional subpath.\<close>

datatype Entry =
    PathEntry (entry_access: Access) GuestPath
  | SpecialEntry (entry_access: Access) Special "pystr list option"

record ResolvedEntry =
  re_path :: GuestPath
  re_access :: Access
  source_index :: nat

record Decision =
  d_path :: GuestPath
  resolved_access :: Access
  metadata_write_denial :: "pystr option"

record ManagedPolicy =
  cwd :: GuestPath
  workspace_roots :: "GuestPath list"
  user_home_dir :: "GuestPath option"
  temporary_directories :: "GuestPath list option"
  entries :: "Entry list"
  resolved_entries :: "ResolvedEntry list"
  windows_sandbox_private_desktop :: bool
  windows_sandbox_proxy_settings_mode :: "pystr option"

section \<open>Field validators\<close>

definition perr :: "pystr \<Rightarrow> string \<Rightarrow> exn" where
  "perr field reason = PolicyError field (lit reason)"

definition p_object :: "json \<Rightarrow> pystr \<Rightarrow> pystr list \<Rightarrow> pystr list \<Rightarrow> exn + dict" where
  "p_object value field allowed required =
     (case value of
        JObj d \<Rightarrow>
          seqE (eachE (\<lambda>k. raiseIf (k \<notin> set allowed) (perr (field @ 46 # k) ''unsupported field'')) (dkeys d))
         (seqE (eachE (\<lambda>k. raiseIf (\<not> has_key d k) (perr (field @ 46 # k) ''required field is missing'')) required)
         (Inr d))
      | _ \<Rightarrow> Inl (perr field ''expected a JSON object''))"

definition is_control :: "nat \<Rightarrow> bool" where
  "is_control c = (c < 32 \<or> c = 127)"

definition p_text :: "json \<Rightarrow> pystr \<Rightarrow> exn + pystr" where
  "p_text value field =
     (case value of
        JStr s \<Rightarrow>
          if utf8_encode s = None then Inl (perr field ''non-UTF-8 text is unsupported'')
          else if list_ex is_control s then Inl (perr field ''control characters are unsupported'')
          else Inr s
      | _ \<Rightarrow> Inl (perr field ''expected a string''))"

definition p_array :: "json \<Rightarrow> pystr \<Rightarrow> exn + json list" where
  "p_array value field =
     (case value of JArr xs \<Rightarrow> Inr xs | _ \<Rightarrow> Inl (perr field ''expected a JSON array''))"

definition p_false_option :: "json \<Rightarrow> pystr \<Rightarrow> exn + unit" where
  "p_false_option value field =
     (case value of
        JBool b \<Rightarrow> raiseIf b (perr field ''enabled option is unsupported'')
      | _ \<Rightarrow> Inl (perr field ''expected a boolean''))"

definition p_only_null :: "json \<Rightarrow> pystr \<Rightarrow> exn + unit" where
  "p_only_null value field = raiseIf (value \<noteq> JNull) (perr field ''non-null option is unsupported'')"

section \<open>Guest paths\<close>

definition is_drive :: "pystr \<Rightarrow> bool" where
  "is_drive s = (case s of [a, b] \<Rightarrow> is_alpha a \<and> (b = 58 \<or> b = 124) | _ \<Rightarrow> False)"

definition dots :: "pystr list" where
  "dots = [lit ''.'', lit ''..'']"

definition validated :: "pystr list \<Rightarrow> pystr \<Rightarrow> exn + GuestPath" where
  "validated ps field =
     (if ps \<noteq> [] \<and> is_drive (hd ps) then Inl (perr field ''drive-shaped first component is unsupported'')
      else Inr (GuestPath ps))"

definition uri_component :: "pystr \<Rightarrow> pystr \<Rightarrow> exn + pystr" where
  "uri_component field encoded =
     (case (case unquote_to_bytes encoded of Inl e \<Rightarrow> None | Inr bs \<Rightarrow> utf8_decode bs) of
        None \<Rightarrow> Inl (perr field ''non-UTF-8 path bytes are unsupported'')
      | Some c \<Rightarrow>
          bindE (p_text (JStr c) field) (\<lambda>_.
          if 47 \<in> set c then Inl (perr field ''percent-encoded separator has no safe lexical boundary'')
          else if c \<in> set dots
          then Inl (perr field ''dot segments require upstream URL normalization and are unsupported'')
          else Inr c))"

text \<open>\<open>netloc.lower()\<close> is compared with ASCII names only, on which \<^const>\<open>ascii_lower\<close> agrees with it.\<close>

definition from_uri :: "json \<Rightarrow> pystr \<Rightarrow> exn + GuestPath" where
  "from_uri v field =
     bindE (p_text v field) (\<lambda>value.
     if \<not> prefix (lit ''file://'') value then Inl (perr field ''expected an absolute file:// URI'')
     else if 92 \<in> set value \<or> 63 \<in> set value \<or> 35 \<in> set value
     then Inl (perr field ''raw backslash, query or fragment is unsupported'')
     else if bad_percent value then Inl (perr field ''malformed percent encoding'')
     else (case urlsplit value of
         None \<Rightarrow> Inl (perr field ''invalid file URI'')
       | Some parsed \<Rightarrow>
           if ascii_lower (netloc parsed) \<notin> {[], lit ''localhost''}
           then Inl (perr field ''foreign authority, credentials or port is unsupported'')
           else if \<not> prefix (lit ''/'') (path parsed)
           then Inl (perr field ''expected an absolute POSIX URI path'')
           else bindE (mapE (uri_component field) (filter (\<lambda>e. e \<noteq> []) (split_on 47 (path parsed))))
                  (\<lambda>ps. validated ps field)))"

definition from_absolute :: "json \<Rightarrow> pystr \<Rightarrow> exn + GuestPath" where
  "from_absolute v field =
     bindE (p_text v field) (\<lambda>value.
     if \<not> prefix (lit ''/'') value then Inl (perr field ''expected an absolute POSIX guest path'')
     else let ps = filter (\<lambda>p. p \<noteq> []) (split_on 47 value) in
       if list_ex (\<lambda>p. p \<in> set dots) ps
       then Inl (perr field ''dot segments in native paths are unsupported'')
       else validated ps field)"

definition guest_path :: "GuestPath \<Rightarrow> pystr" where
  "guest_path g = 47 # join_on [47] (parts g)"

definition guest_uri :: "GuestPath \<Rightarrow> exn + pystr" where
  "guest_uri g = bindE (mapE (quote []) (parts g)) (\<lambda>qs. Inr (lit ''file:///'' @ join_on [47] qs))"

definition contains :: "GuestPath \<Rightarrow> GuestPath \<Rightarrow> bool" where
  "contains self other = (take (length (parts self)) (parts other) = parts self)"

definition gappend :: "GuestPath \<Rightarrow> pystr list \<Rightarrow> GuestPath" where
  "gappend self ps = GuestPath (parts self @ ps)"

section \<open>Decisions\<close>

definition can_read :: "Decision \<Rightarrow> bool" where
  "can_read d = (resolved_access d \<noteq> DENY)"

definition can_write :: "Decision \<Rightarrow> bool" where
  "can_write d = (resolved_access d = WRITE \<and> metadata_write_denial d = None)"

definition access :: "Decision \<Rightarrow> Access" where
  "access d = (if resolved_access d = WRITE \<and> \<not> can_write d then READ else resolved_access d)"

text \<open>The inner loop over \<open>METADATA_NAMES\<close> for one entry, with the outer loop's \<open>break\<close>.\<close>

definition entry_protects :: "GuestPath \<Rightarrow> ResolvedEntry \<Rightarrow> (GuestPath \<times> pystr) option" where
  "entry_protects p entry =
     (if re_access entry \<noteq> WRITE then None
      else first_some (\<lambda>name. let candidate = gappend (re_path entry) [name] in
             if contains candidate p then Some (candidate, name) else None) METADATA_NAMES)"

definition decide_guest :: "ManagedPolicy \<Rightarrow> GuestPath \<Rightarrow> Decision" where
  "decide_guest pol p =
     (let candidates = filter (\<lambda>e. contains (re_path e) p) (resolved_entries pol);
          winner = max_by (\<lambda>e. (length (parts (re_path e)), precedence (re_access e))) candidates;
          acc = (case winner of None \<Rightarrow> DENY | Some w \<Rightarrow> re_access w);
          metadata =
            (if acc = WRITE then
               (case first_some (entry_protects p) (resolved_entries pol) of
                  None \<Rightarrow> None
                | Some (protected, name) \<Rightarrow>
                    if list_ex (\<lambda>e. re_access e = WRITE \<and> contains protected (re_path e)
                          \<and> contains (re_path e) p) (resolved_entries pol)
                    then None else Some name)
             else None)
      in \<lparr>d_path = p, resolved_access = acc, metadata_write_denial = metadata\<rparr>)"

definition decide :: "ManagedPolicy \<Rightarrow> pystr \<Rightarrow> exn + Decision" where
  "decide pol absolute_guest_path =
     bindE (from_absolute (JStr absolute_guest_path) (lit ''path'')) (\<lambda>p. Inr (decide_guest pol p))"

definition decide_uri :: "ManagedPolicy \<Rightarrow> pystr \<Rightarrow> exn + Decision" where
  "decide_uri pol guest_uri_text =
     bindE (from_uri (JStr guest_uri_text) (lit ''path'')) (\<lambda>p. Inr (decide_guest pol p))"

section \<open>Serialisation\<close>

fun entry_to_dict :: "Entry \<Rightarrow> exn + json" where
  "entry_to_dict (PathEntry a g) =
     bindE (guest_uri g) (\<lambda>u. Inr (JObj
       [(lit ''path'', JObj [(lit ''type'', jlit ''path''), (lit ''path'', JStr u)]),
        (lit ''access'', JStr (access_value a))]))"
| "entry_to_dict (SpecialEntry a sp sub) =
     Inr (JObj
       [(lit ''path'', JObj [(lit ''type'', jlit ''special''),
          (lit ''value'', JObj ((lit ''kind'', JStr (special_name sp)) #
             (case sub of None \<Rightarrow> [] | Some ps \<Rightarrow> [(lit ''subpath'', JStr (join_on [47] ps))])))]),
        (lit ''access'', JStr (access_value a))])"

definition uri_list :: "GuestPath list \<Rightarrow> exn + json" where
  "uri_list gs = bindE (mapE guest_uri gs) (\<lambda>us. Inr (JArr (map JStr us)))"

definition to_context_dict :: "ManagedPolicy \<Rightarrow> exn + json" where
  "to_context_dict pol =
     bindE (mapE entry_to_dict (entries pol)) (\<lambda>es.
     bindE (guest_uri (cwd pol)) (\<lambda>c.
     bindE (uri_list (workspace_roots pol)) (\<lambda>roots.
     bindE (case user_home_dir pol of None \<Rightarrow> Inr []
            | Some h \<Rightarrow> bindE (guest_uri h) (\<lambda>u. Inr [(lit ''userHomeDir'', JStr u)])) (\<lambda>home.
     bindE (case temporary_directories pol of None \<Rightarrow> Inr []
            | Some ts \<Rightarrow> bindE (uri_list ts) (\<lambda>u. Inr [(lit ''temporaryDirectories'', u)])) (\<lambda>temps.
     Inr (JObj
       ([(lit ''permissions'', JObj
           [(lit ''type'', jlit ''managed''),
            (lit ''file_system'', JObj [(lit ''type'', jlit ''restricted''), (lit ''entries'', JArr es)]),
            (lit ''network'', jlit ''restricted'')]),
         (lit ''cwd'', JStr c),
         (lit ''workspaceRoots'', roots),
         (lit ''windowsSandboxLevel'', jlit ''disabled''),
         (lit ''windowsSandboxPrivateDesktop'', JBool (windows_sandbox_private_desktop pol)),
         (lit ''useLegacyLandlock'', JBool False)]
        @ home
        @ (case windows_sandbox_proxy_settings_mode pol of None \<Rightarrow> []
           | Some m \<Rightarrow> [(lit ''windowsSandboxProxySettingsMode'', JStr m)])
        @ temps)))))))"

section \<open>Parsing\<close>

definition parse_access :: "json \<Rightarrow> pystr \<Rightarrow> exn + Access" where
  "parse_access v field =
     (if v = jlit ''read'' then Inr READ else if v = jlit ''write'' then Inr WRITE
      else if v = jlit ''deny'' \<or> v = jlit ''none'' then Inr DENY
      else Inl (perr field ''expected read, write, deny or the upstream none alias''))"

definition parse_special :: "json \<Rightarrow> pystr \<Rightarrow> exn + Special" where
  "parse_special v field =
     (if v = jlit ''root'' then Inr Root
      else if v = jlit ''project_roots'' \<or> v = jlit ''current_working_directory'' then Inr ProjectRoots
      else if v = jlit ''tmpdir'' then Inr Tmpdir
      else if v = jlit ''slash_tmp'' then Inr SlashTmp
      else Inl (perr field ''unsupported special path; no platform defaults or unknown-token fallback''))"

definition parse_subpath :: "json \<Rightarrow> pystr \<Rightarrow> exn + pystr list" where
  "parse_subpath v field =
     bindE (p_text v field) (\<lambda>raw.
     if prefix (lit ''/'') raw \<or> lit ''..'' \<in> set (split_on 47 raw)
     then Inl (perr field ''absolute and parent-traversing subpaths are unsupported'')
     else Inr (filter (\<lambda>p. p \<noteq> [] \<and> p \<noteq> lit ''.'') (split_on 47 raw)))"

definition entry_field :: "nat \<Rightarrow> pystr" where
  "entry_field index = lit ''$.permissions.file_system.entries['' @ nat_digits index @ lit '']''"

definition parse_entry :: "nat \<Rightarrow> json \<Rightarrow> exn + Entry" where
  "parse_entry index v =
     (let field = entry_field index in
      bindE (p_object v field [lit ''path'', lit ''access'', lit ''missing_path_behavior'']
               [lit ''path'', lit ''access'']) (\<lambda>value.
      seqE (p_only_null (dget value (lit ''missing_path_behavior'')) (field @ lit ''.missing_path_behavior''))
     (bindE (parse_access (dget value (lit ''access'')) (field @ lit ''.access'')) (\<lambda>acc.
      bindE (p_object (dget value (lit ''path'')) (field @ lit ''.path'')
               [lit ''type'', lit ''path'', lit ''value'', lit ''pattern''] [lit ''type'']) (\<lambda>pd.
      if dget pd (lit ''type'') = jlit ''path'' then
        bindE (p_object (JObj pd) (field @ lit ''.path'') [lit ''type'', lit ''path''] [lit ''path'']) (\<lambda>_.
        bindE (from_uri (dget pd (lit ''path'')) (field @ lit ''.path.path'')) (\<lambda>g.
        Inr (PathEntry acc g)))
      else if dget pd (lit ''type'') \<noteq> jlit ''special'' then
        Inl (perr (field @ lit ''.path.type'')
          ''only literal and supported special paths are accepted; globs are unsupported'')
      else
        bindE (p_object (JObj pd) (field @ lit ''.path'') [lit ''type'', lit ''value''] [lit ''value'']) (\<lambda>_.
        bindE (p_object (dget pd (lit ''value'')) (field @ lit ''.path.value'')
                 [lit ''kind'', lit ''subpath''] [lit ''kind'']) (\<lambda>special.
        bindE (parse_special (dget special (lit ''kind'')) (field @ lit ''.path.value.kind'')) (\<lambda>kind.
        if kind = Root \<and> acc = WRITE then
          Inl (perr (field @ lit ''.access'')
            ''special root write requires the upstream full-disk narrowing analysis and is unsupported'')
        else if kind \<noteq> ProjectRoots then
          bindE (p_object (JObj special) (field @ lit ''.path.value'') [lit ''kind''] []) (\<lambda>_.
          Inr (SpecialEntry acc kind None))
        else if dget special (lit ''subpath'') \<noteq> JNull then
          bindE (parse_subpath (dget special (lit ''subpath'')) (field @ lit ''.path.value.subpath'')) (\<lambda>sub.
          Inr (SpecialEntry acc kind (Some sub)))
        else Inr (SpecialEntry acc kind None)))))))))"

definition get_default :: "dict \<Rightarrow> pystr \<Rightarrow> json \<Rightarrow> json" where
  "get_default d k v = (if has_key d k then dget d k else v)"

text \<open>The local function \<open>paths\<close> of \<open>parse_context\<close>, and the resolution of one entry.\<close>

definition paths :: "dict \<Rightarrow> pystr \<Rightarrow> exn + GuestPath list" where
  "paths context key =
     bindE (p_array (get_default context key (JArr [])) (lit ''$.'' @ key)) (\<lambda>values.
     mapE (\<lambda>(index, v). from_uri v (lit ''$.'' @ key @ lit ''['' @ nat_digits index @ lit '']''))
       (enumerate 0 values))"

definition targets :: "GuestPath list \<Rightarrow> GuestPath list option \<Rightarrow> Entry \<Rightarrow> GuestPath list" where
  "targets roots temps entry =
     (case entry of
        PathEntry _ g \<Rightarrow> [g]
      | SpecialEntry _ Root _ \<Rightarrow> [GuestPath []]
      | SpecialEntry _ ProjectRoots sub \<Rightarrow>
          map (\<lambda>root. gappend root (case sub of None \<Rightarrow> [] | Some ps \<Rightarrow> ps)) roots
      | SpecialEntry _ Tmpdir _ \<Rightarrow> (case temps of None \<Rightarrow> [] | Some ts \<Rightarrow> ts)
      | SpecialEntry _ SlashTmp _ \<Rightarrow> [GuestPath [lit ''tmp'']])"

definition resolve :: "GuestPath list \<Rightarrow> GuestPath list option \<Rightarrow> Entry list \<Rightarrow> ResolvedEntry list" where
  "resolve roots temps es =
     concat (map (\<lambda>(index, entry).
        map (\<lambda>p. \<lparr>re_path = p, re_access = entry_access entry, source_index = index\<rparr>) (targets roots temps entry))
       (enumerate 0 es))"

definition context_keys :: "pystr list" where
  "context_keys = map lit [''permissions'', ''cwd'', ''workspaceRoots'', ''userHomeDir'',
     ''temporaryDirectories'', ''windowsSandboxLevel'', ''windowsSandboxPrivateDesktop'',
     ''windowsSandboxProxySettingsMode'', ''useLegacyLandlock'']"

text \<open>The checks on \<open>permissions\<close>; the result is the \<open>entries\<close> value of the file system policy.\<close>

definition parse_permissions :: "json \<Rightarrow> exn + json" where
  "parse_permissions v =
     bindE (p_object v (lit ''$.permissions'') [lit ''type'', lit ''file_system'', lit ''network'']
              [lit ''type'']) (\<lambda>permissions.
     if dget permissions (lit ''type'') \<noteq> jlit ''managed''
     then Inl (perr (lit ''$.permissions.type'') ''only managed policies are accepted'')
     else
     bindE (p_object (JObj permissions) (lit ''$.permissions'') [lit ''type'', lit ''file_system'', lit ''network'']
              [lit ''file_system'', lit ''network'']) (\<lambda>_.
     if dget permissions (lit ''network'') \<noteq> jlit ''restricted''
     then Inl (perr (lit ''$.permissions.network'')
            ''only restricted network intent is accepted; no networking is enforced here'')
     else
     bindE (p_object (dget permissions (lit ''file_system'')) (lit ''$.permissions.file_system'')
              [lit ''type'', lit ''entries'', lit ''glob_scan_max_depth''] [lit ''type'']) (\<lambda>fs.
     if dget fs (lit ''type'') \<noteq> jlit ''restricted''
     then Inl (perr (lit ''$.permissions.file_system.type'') ''only restricted filesystem policies are accepted'')
     else
     bindE (p_object (JObj fs) (lit ''$.permissions.file_system'')
              [lit ''type'', lit ''entries'', lit ''glob_scan_max_depth''] [lit ''entries'']) (\<lambda>_.
     seqE (p_only_null (dget fs (lit ''glob_scan_max_depth'')) (lit ''$.permissions.file_system.glob_scan_max_depth''))
     (Inr (dget fs (lit ''entries'')))))))"

definition parse_context :: "json \<Rightarrow> exn + ManagedPolicy" where
  "parse_context document =
     bindE (p_object document (lit ''$'') context_keys
              [lit ''permissions'', lit ''cwd'', lit ''windowsSandboxLevel'']) (\<lambda>context.
     if dget context (lit ''windowsSandboxLevel'') \<noteq> jlit ''disabled''
     then Inl (perr (lit ''$.windowsSandboxLevel'')
            ''only disabled Windows settings are accepted for this POSIX resolver'')
     else
     (let private_desktop = get_default context (lit ''windowsSandboxPrivateDesktop'') (JBool False);
          proxy_mode = dget context (lit ''windowsSandboxProxySettingsMode'') in
      if \<not> is_bool private_desktop
      then Inl (perr (lit ''$.windowsSandboxPrivateDesktop'') ''expected a boolean'')
      else if proxy_mode \<notin> {JNull, jlit ''reconcile'', jlit ''preserve''}
      then Inl (perr (lit ''$.windowsSandboxProxySettingsMode'')
             ''expected null or a supported Windows proxy preference'')
      else
      seqE (p_false_option (get_default context (lit ''useLegacyLandlock'') (JBool False)) (lit ''$.useLegacyLandlock''))
     (bindE (parse_permissions (dget context (lit ''permissions''))) (\<lambda>raw_entries.
      bindE (from_uri (dget context (lit ''cwd'')) (lit ''$.cwd'')) (\<lambda>c.
      bindE (paths context (lit ''workspaceRoots'')) (\<lambda>roots.
      bindE (if dget context (lit ''userHomeDir'') = JNull then Inr None
             else bindE (from_uri (dget context (lit ''userHomeDir'')) (lit ''$.userHomeDir''))
               (\<lambda>h. Inr (Some h))) (\<lambda>home.
      bindE (if dget context (lit ''temporaryDirectories'') = JNull then Inr None
             else bindE (paths context (lit ''temporaryDirectories'')) (\<lambda>ts. Inr (Some ts))) (\<lambda>temps.
      bindE (p_array raw_entries (lit ''$.permissions.file_system.entries'')) (\<lambda>values.
      bindE (mapE (\<lambda>(index, v). parse_entry index v) (enumerate 0 values)) (\<lambda>es.
      Inr \<lparr>cwd = c, workspace_roots = roots, user_home_dir = home, temporary_directories = temps,
           entries = es, resolved_entries = resolve roots temps es,
           windows_sandbox_private_desktop = bool_of private_desktop,
           windows_sandbox_proxy_settings_mode =
             (if proxy_mode = JNull then None else Some (str_of proxy_mode))\<rparr>))))))))))"

text \<open>
  \<open>_decode_json\<close>.  The key in the message of a duplicate member is printed as it is, where the
  source prints its \<open>repr\<close>.
\<close>

fun policy_unique :: "pystr list \<Rightarrow> (pystr \<times> json) list \<Rightarrow> exn + unit" where
  "policy_unique seen [] = Inr ()"
| "policy_unique seen ((k, v) # ps) =
     (if k \<in> set seen then Inl (PolicyError (lit ''$'') (lit ''duplicate JSON member '' @ k))
      else policy_unique (k # seen) ps)"

definition policy_pairs :: pairs_hook where
  "policy_pairs ps = seqE (policy_unique [] ps) (Inr (JObj ps))"

definition policy_nonfinite :: const_hook where
  "policy_nonfinite w = Inl (PolicyError (lit ''$'') (lit ''non-finite JSON value '' @ w))"

definition is_json_text_error :: "exn \<Rightarrow> bool" where
  "is_json_text_error e = (e = JSONDecodeError \<or> e = UnicodeError)"

definition decode_json :: "pystr \<Rightarrow> exn + json" where
  "decode_json document =
     catchE (loads policy_pairs policy_nonfinite document) is_json_text_error
       (\<lambda>_. perr (lit ''$'') ''invalid JSON text'')"

definition decode_json_bytes :: "pybytes \<Rightarrow> exn + json" where
  "decode_json_bytes document =
     (case utf8_decode document of
        None \<Rightarrow> Inl (perr (lit ''$'') ''invalid JSON text'')
      | Some s \<Rightarrow> decode_json s)"

definition parse_context_text :: "pystr \<Rightarrow> exn + ManagedPolicy" where
  "parse_context_text document = bindE (decode_json document) parse_context"

definition parse_context_bytes :: "pybytes \<Rightarrow> exn + ManagedPolicy" where
  "parse_context_bytes document = bindE (decode_json_bytes document) parse_context"

end
