(* ===== verification/ManagedPolicyFacts.thy ===== *)
theory ManagedPolicyFacts
  imports ManagedPolicy
begin

text \<open>
  What the policy resolver of \<open>ManagedPolicy\<close> guarantees: containment is the prefix order of
  components; a decision is made by the deepest entry on the way to the path; writable metadata
  directories need a grant of their own; parsed paths are well formed and survive the trip through
  their URI; a parsed policy survives the trip through its portable context, whatever the order of
  its members.
\<close>

section \<open>Containment is the prefix order\<close>

lemma contains_iff_prefix: "contains a b \<longleftrightarrow> prefix (parts a) (parts b)"
  by (metis append_eq_conv_conj contains_def prefix_def append_take_drop_id)

lemma contains_refl [simp]: "contains g g"
  by (simp add: contains_iff_prefix)

lemma contains_trans: "contains a b \<Longrightarrow> contains b c \<Longrightarrow> contains a c"
  by (auto simp: contains_iff_prefix)

lemma contains_antisym: "contains a b \<Longrightarrow> contains b a \<Longrightarrow> a = b"
  by (metis GuestPath.expand contains_iff_prefix prefix_order.antisym)

lemma contains_gappend [simp]: "contains g (gappend g ps)"
  by (simp add: contains_iff_prefix gappend_def)

text \<open>Two ancestors of one path are comparable, and the longer one is the deeper one.\<close>

lemma contains_comparable:
  "contains a p \<Longrightarrow> contains b p \<Longrightarrow> length (parts a) \<le> length (parts b) \<Longrightarrow> contains a b"
  by (auto simp: contains_iff_prefix intro: prefix_length_prefix)

section \<open>The access decision\<close>

text \<open>
  The specification: the entry whose path lies below every other entry on the way to \<open>p\<close>; among
  entries with the same path the stricter access wins; without any entry the path is denied.
\<close>

definition governs :: "ResolvedEntry list \<Rightarrow> GuestPath \<Rightarrow> ResolvedEntry \<Rightarrow> bool" where
  "governs rs p w \<longleftrightarrow> w \<in> set rs \<and> contains (re_path w) p \<and>
     (\<forall>e \<in> set rs. contains (re_path e) p \<longrightarrow>
        contains (re_path e) (re_path w) \<and>
        (re_path e = re_path w \<longrightarrow> precedence (re_access e) \<le> precedence (re_access w)))"

lemma precedence_inject: "precedence a = precedence b \<Longrightarrow> a = b"
  by (cases a; cases b) auto

lemma governs_unique_access:
  assumes "governs rs p w" and "governs rs p w'"
  shows "re_access w = re_access w'"
proof -
  have "re_path w = re_path w'"
    using assms by (auto simp: governs_def intro: contains_antisym)
  then show ?thesis
    using assms by (auto simp: governs_def intro!: precedence_inject antisym)
qed

lemma max_by_governs:
  assumes "max_by (\<lambda>e. (length (parts (re_path e)), precedence (re_access e)))
      (filter (\<lambda>e. contains (re_path e) p) rs) = Some w"
  shows "governs rs p w"
proof -
  have w: "w \<in> set rs" "contains (re_path w) p"
    and max: "\<And>e. e \<in> set rs \<Longrightarrow> contains (re_path e) p \<Longrightarrow>
      (length (parts (re_path e)), precedence (re_access e))
        \<le> (length (parts (re_path w)), precedence (re_access w))"
    using max_by_SomeD [OF assms] by auto
  have "contains (re_path e) (re_path w)" "re_path e = re_path w \<Longrightarrow> precedence (re_access e) \<le> precedence (re_access w)"
    if "e \<in> set rs" "contains (re_path e) p" for e
    using max [OF that] that w contains_comparable [OF that(2) w(2)] by (auto simp: less_eq_prod_def)
  then show ?thesis using w by (auto simp: governs_def)
qed

definition winner :: "ResolvedEntry list \<Rightarrow> GuestPath \<Rightarrow> ResolvedEntry option" where
  "winner rs p = max_by (\<lambda>e. (length (parts (re_path e)), precedence (re_access e)))
     (filter (\<lambda>e. contains (re_path e) p) rs)"

lemma decide_guest_simps:
  "d_path (decide_guest pol p) = p"
  "resolved_access (decide_guest pol p) =
     (case winner (resolved_entries pol) p of None \<Rightarrow> DENY | Some w \<Rightarrow> re_access w)"
  "metadata_write_denial (decide_guest pol p) =
     (if resolved_access (decide_guest pol p) = WRITE then
        (case first_some (entry_protects p) (resolved_entries pol) of
           None \<Rightarrow> None
         | Some (protected, name) \<Rightarrow>
             if \<exists>e \<in> set (resolved_entries pol). re_access e = WRITE \<and> contains protected (re_path e)
                  \<and> contains (re_path e) p
             then None else Some name)
      else None)"
  by (simp_all add: decide_guest_def Let_def winner_def list_ex_iff split: option.split)

lemma winner_governs: "winner rs p = Some w \<Longrightarrow> governs rs p w"
  by (auto simp: winner_def intro: max_by_governs)

lemma winner_None_iff: "winner rs p = None \<longleftrightarrow> (\<forall>e \<in> set rs. \<not> contains (re_path e) p)"
  by (simp add: winner_def filter_empty_conv)

lemma resolved_access_iff:
  "resolved_access (decide_guest pol p) = a \<longleftrightarrow>
     (\<exists>w. governs (resolved_entries pol) p w \<and> re_access w = a)
     \<or> a = DENY \<and> (\<forall>e \<in> set (resolved_entries pol). \<not> contains (re_path e) p)"
proof (cases "winner (resolved_entries pol) p")
  case None
  then have "\<forall>e \<in> set (resolved_entries pol). \<not> contains (re_path e) p"
    by (simp add: winner_None_iff)
  then show ?thesis using None by (auto simp: decide_guest_simps governs_def)
next
  case (Some w)
  then have "governs (resolved_entries pol) p w" by (rule winner_governs)
  then show ?thesis
    using Some governs_unique_access by (auto simp: decide_guest_simps governs_def)
qed

section \<open>Metadata protection\<close>

definition write_entries :: "ManagedPolicy \<Rightarrow> ResolvedEntry list" where
  "write_entries pol = filter (\<lambda>e. re_access e = WRITE) (resolved_entries pol)"

lemma entry_protects_SomeD:
  assumes "entry_protects p e = Some (c, n)"
  shows "re_access e = WRITE" "n \<in> set METADATA_NAMES" "c = gappend (re_path e) [n]" "contains c p"
  using assms first_some_SomeD
  by (fastforce simp: entry_protects_def Let_def split: if_splits)+

lemma entry_protects_None:
  "entry_protects p e = None \<Longrightarrow> re_access e = WRITE \<Longrightarrow> n \<in> set METADATA_NAMES \<Longrightarrow>
   \<not> contains (gappend (re_path e) [n]) p"
  by (fastforce simp: entry_protects_def first_some_None_iff Let_def split: if_splits)

definition in_metadata :: "ManagedPolicy \<Rightarrow> GuestPath \<Rightarrow> GuestPath \<Rightarrow> bool" where
  "in_metadata pol c p \<longleftrightarrow>
     (\<exists>e \<in> set (write_entries pol). \<exists>n \<in> set METADATA_NAMES. c = gappend (re_path e) [n] \<and> contains c p)"

lemma in_metadata_first:
  assumes "in_metadata pol c p"
  shows "\<exists>c' n. first_some (entry_protects p) (resolved_entries pol) = Some (c', n) \<and> in_metadata pol c' p"
proof -
  obtain e n where "e \<in> set (write_entries pol)" "n \<in> set METADATA_NAMES" "contains (gappend (re_path e) [n]) p"
    using assms by (auto simp: in_metadata_def)
  then have "e \<in> set (resolved_entries pol)" "entry_protects p e \<noteq> None"
    using entry_protects_None [of p e n] by (auto simp: write_entries_def simp del: not_None_eq)
  then have "first_some (entry_protects p) (resolved_entries pol) \<noteq> None"
    by (auto simp: first_some_None_iff)
  then obtain c' n where f: "first_some (entry_protects p) (resolved_entries pol) = Some (c', n)" by auto
  then obtain e where "e \<in> set (resolved_entries pol)" "entry_protects p e = Some (c', n)"
    using first_some_SomeD by fastforce
  then have "in_metadata pol c' p"
    using entry_protects_SomeD [of p e c' n] by (auto simp: in_metadata_def write_entries_def)
  with f show ?thesis by blast
qed

lemma can_write_metadata:
  assumes "can_write (decide_guest pol p)" and "in_metadata pol c p"
  shows "\<exists>c' g. in_metadata pol c' p \<and> g \<in> set (write_entries pol) \<and> contains c' (re_path g) \<and> contains (re_path g) p"
proof -
  obtain c' n where f: "first_some (entry_protects p) (resolved_entries pol) = Some (c', n)" "in_metadata pol c' p"
    using in_metadata_first [OF assms(2)] by blast
  have "resolved_access (decide_guest pol p) = WRITE" "metadata_write_denial (decide_guest pol p) = None"
    using assms(1) by (simp_all add: can_write_def)
  then show ?thesis
    using f by (auto simp: decide_guest_simps(3) write_entries_def split: if_splits)
qed

lemma can_write_entry:
  assumes "can_write (decide_guest pol p)"
  shows "\<exists>w \<in> set (write_entries pol). governs (resolved_entries pol) p w"
  using assms resolved_access_iff [of pol p WRITE] by (auto simp: can_write_def write_entries_def governs_def)

section \<open>Guest paths are well formed\<close>

definition wf_component :: "pystr \<Rightarrow> bool" where
  "wf_component c \<longleftrightarrow> c \<noteq> [] \<and> list_all is_scalar c \<and> \<not> list_ex is_control c \<and> 47 \<notin> set c \<and> c \<notin> set dots"

definition wf_guest :: "GuestPath \<Rightarrow> bool" where
  "wf_guest g \<longleftrightarrow> list_all wf_component (parts g) \<and> (parts g \<noteq> [] \<longrightarrow> \<not> is_drive (hd (parts g)))"

lemma p_text_Inr_iff:
  "p_text v field = Inr s \<longleftrightarrow> v = JStr s \<and> list_all is_scalar s \<and> \<not> list_ex is_control s"
  by (cases v) (auto simp: p_text_def utf8_encode_def)

lemma uri_component_decoded:
  assumes "uri_component field e = Inr c"
  shows "list_all is_scalar c \<and> \<not> list_ex is_control c \<and> 47 \<notin> set c \<and> c \<notin> set dots"
  using assms by (auto simp: uri_component_def p_text_Inr_iff exn_simps split: option.splits sum.splits if_splits)

text \<open>A percent-encoded component of a text without NUL is empty only if it was empty.\<close>

lemma unquote_bytes_Nil_iff: "unquote_bytes bs = [] \<longleftrightarrow> bs = []"
  by (cases bs) (auto split: list.splits option.splits)

lemma utf8_decode_Nil_iff: "utf8_decoder p bs = Some [] \<longleftrightarrow> bs = []"
  by (cases bs) (auto simp: utf8_decoder.simps(2) Let_def split: list.splits if_splits)

lemma utf8_char_nonempty [simp]: "utf8_char c \<noteq> []"
  by (simp add: utf8_char_def)

lemma uri_component_nonempty: "uri_component field e = Inr [] \<Longrightarrow> e = []"
  by (cases e)
    (auto simp: uri_component_def unquote_to_bytes_def utf8_encode_def unquote_bytes_Nil_iff utf8_decode_Nil_iff
      p_text_Inr_iff exn_simps split: option.splits if_splits)

lemma from_uri_wf:
  assumes "from_uri v field = Inr g"
  shows "wf_guest g"
proof -
  obtain p where "mapE (uri_component field) (filter (\<lambda>e. e \<noteq> []) (split_on 47 p)) = Inr (parts g)"
      "validated (parts g) field = Inr g"
    using assms
    by (auto simp: from_uri_def exn_simps validated_def split: if_splits option.splits)
  then have all: "list_all2 (\<lambda>e c. uri_component field e = Inr c) (filter (\<lambda>e. e \<noteq> []) (split_on 47 p)) (parts g)"
    and "validated (parts g) field = Inr g"
    by (simp_all add: mapE_Inr_iff)
  have "wf_component c" if "c \<in> set (parts g)" for c
    using list_all2_right [OF all that] uri_component_decoded uri_component_nonempty
    by (fastforce simp: wf_component_def)
  then show ?thesis
    using \<open>validated (parts g) field = Inr g\<close> by (auto simp: wf_guest_def validated_def list_all_iff split: if_splits)
qed

lemma from_absolute_wf:
  assumes "from_absolute v field = Inr g"
  shows "wf_guest g"
proof -
  obtain s where s: "list_all is_scalar s" "\<not> list_ex is_control s"
    "parts g = filter (\<lambda>p. p \<noteq> []) (split_on 47 s)" "\<not> list_ex (\<lambda>p. p \<in> set dots) (parts g)"
    "validated (parts g) field = Inr g"
    using assms by (auto simp: from_absolute_def Let_def p_text_Inr_iff exn_simps validated_def split: if_splits)
  then have "wf_component c" if "c \<in> set (parts g)" for c
    using that split_on_subset [of c 47 s] split_on_parts [of c 47 s]
    by (auto simp: wf_component_def list_all_iff list_ex_iff)
  then show ?thesis
    using s(5) by (auto simp: wf_guest_def validated_def list_all_iff split: if_splits)
qed

section \<open>URIs round trip\<close>

definition utf8_bytes :: "pystr \<Rightarrow> pybytes" where
  "utf8_bytes s = concat (map utf8_char s)"

abbreviation quoted :: "pystr \<Rightarrow> pystr" where
  "quoted c \<equiv> quote_bytes [] (utf8_bytes c)"

lemma utf8_encode_scalar: "list_all is_scalar s \<Longrightarrow> utf8_encode s = Some (utf8_bytes s)"
  by (simp add: utf8_encode_def utf8_bytes_def)

lemma utf8_encode_ascii: "list_all (\<lambda>c. c < 128) s \<Longrightarrow> utf8_encode s = Some s"
  by (induction s) (auto simp: utf8_encode_def is_scalar_def split: if_splits)

lemma is_bytes_utf8: "list_all is_scalar s \<Longrightarrow> is_bytes (utf8_bytes s)"
  using utf8_encode_bytes [OF utf8_encode_scalar] .

lemma quoted_char:
  assumes "list_all is_scalar s" "c \<in> set (quoted s)"
  shows "33 \<le> c" "c < 127" "c \<noteq> 47" "c \<noteq> 92" "c \<noteq> 63" "c \<noteq> 35"
  using quote_bytes_unreserved [OF is_bytes_utf8 [OF assms(1)] assms(2)]
  by (auto simp: url_unreserved_def is_alpha_def is_digit_def)

lemma quoted_Nil_iff: "quoted s = [] \<longleftrightarrow> s = []"
proof -
  have "quote_bytes [] bs = [] \<longleftrightarrow> bs = []" for bs
    by (cases bs) (auto simp: quote_bytes_def quote_byte_def)
  then show ?thesis by (cases s) (auto simp: utf8_bytes_def)
qed

lemma uri_component_quoted:
  assumes "wf_component c"
  shows "uri_component field (quoted c) = Inr c"
proof -
  have scalar: "list_all is_scalar c" using assms by (simp add: wf_component_def)
  have "utf8_encode (quoted c) = Some (quoted c)"
    using quoted_char(2) [OF scalar] by (intro utf8_encode_ascii) (fastforce simp: list_all_iff)
  then have "unquote_to_bytes (quoted c) = Inr (utf8_bytes c)"
    using is_bytes_utf8 [OF scalar] by (simp add: unquote_to_bytes_def unquote_quote_bytes)
  moreover have "utf8_decode (utf8_bytes c) = Some c"
    using utf8_decode_encode [OF utf8_encode_scalar [OF scalar]] .
  moreover have "p_text (JStr c) field = Inr c"
    using assms by (simp add: p_text_Inr_iff wf_component_def)
  ultimately show ?thesis using assms by (simp add: uri_component_def wf_component_def)
qed

definition uri_text :: "GuestPath \<Rightarrow> pystr" where
  "uri_text g = lit ''file:///'' @ join_on [47] (map quoted (parts g))"

lemma wf_guest_components: "wf_guest g \<Longrightarrow> c \<in> set (parts g) \<Longrightarrow> wf_component c"
  by (simp add: wf_guest_def list_all_iff)

lemma guest_uri_text:
  assumes "wf_guest g"
  shows "guest_uri g = Inr (uri_text g)"
proof -
  have "mapE (quote []) (parts g) = Inr (map quoted (parts g))"
    using wf_guest_components [OF assms]
    by (intro mapE_total) (simp add: quote_def utf8_encode_scalar wf_component_def)
  then show ?thesis by (simp add: guest_uri_def uri_text_def)
qed

lemma bad_percent_uri_text:
  assumes "\<And>c. c \<in> set ps \<Longrightarrow> list_all is_scalar c"
  shows "\<not> bad_percent (join_on [47] (map quoted ps))"
proof -
  have q: "bad_percent (quoted c @ r) = bad_percent r" if "c \<in> set ps" for c r
    using bad_percent_quote_bytes [OF _ is_bytes_utf8 [OF assms [OF that]]] by simp
  have "bad_percent (join_on [47] (map quoted ps) @ []) = bad_percent []"
    using q
  proof (induction ps rule: induct_list012)
    case (2 x)
    then show ?case using 2 [of x "[]"] by simp
  qed simp_all
  then show ?thesis by simp
qed

lemma uri_text_path:
  assumes "wf_guest g"
  shows "filter (\<lambda>e. e \<noteq> []) (split_on 47 (47 # join_on [47] (map quoted (parts g)))) = map quoted (parts g)"
proof (cases "parts g = []")
  case False
  have comps: "list_all is_scalar c \<and> c \<noteq> []" if "c \<in> set (parts g)" for c
    using wf_guest_components [OF assms that] by (simp add: wf_component_def)
  then have "47 \<notin> set q" if "q \<in> set (map quoted (parts g))" for q
    using that quoted_char(3) by fastforce
  then have "split_on 47 (join_on [47] (map quoted (parts g))) = map quoted (parts g)"
    using False by (intro split_join) auto
  moreover have "\<forall>q \<in> set (map quoted (parts g)). q \<noteq> []" using comps by (simp add: quoted_Nil_iff)
  ultimately show ?thesis by (simp add: filter_id_conv del: set_map)
qed simp

lemma uri_text_char:
  assumes "wf_guest g" "c \<in> set (join_on [47] (map quoted (parts g)))"
  shows "33 \<le> c" "c < 127" "c \<noteq> 92" "c \<noteq> 63" "c \<noteq> 35"
proof -
  have "c = 47 \<or> (\<exists>p \<in> set (parts g). c \<in> set (quoted p))"
    using join_on_set [OF assms(2)] by auto
  moreover have "list_all is_scalar p" if "p \<in> set (parts g)" for p
    using wf_guest_components [OF assms(1) that] by (simp add: wf_component_def)
  ultimately show "33 \<le> c" "c < 127" "c \<noteq> 92" "c \<noteq> 63" "c \<noteq> 35"
    using quoted_char by fastforce+
qed

lemma from_uri_uri_text:
  assumes "wf_guest g"
  shows "from_uri (JStr (uri_text g)) field = Inr g"
proof -
  let ?p = "join_on [47] (map quoted (parts g))"
  have ch: "33 \<le> c \<and> c < 127 \<and> c \<noteq> 92 \<and> c \<noteq> 63 \<and> c \<noteq> 35" if "c \<in> set ?p" for c
    using uri_text_char [OF assms that] by simp
  have "p_text (JStr (uri_text g)) field = Inr (uri_text g)"
    using ch by (fastforce simp: p_text_Inr_iff uri_text_def lit_def is_scalar_def is_control_def list_all_iff list_ex_iff)
  moreover have "prefix (lit ''file://'') (uri_text g)"
    by (simp add: uri_text_def lit_def)
  moreover have "92 \<notin> set (uri_text g)" "63 \<notin> set (uri_text g)" "35 \<notin> set (uri_text g)"
    using ch by (auto simp: uri_text_def lit_def)
  moreover have "\<not> bad_percent (uri_text g)"
    using bad_percent_uri_text [of "parts g"] wf_guest_components [OF assms]
    by (auto simp: uri_text_def lit_def wf_component_def)
  moreover have "urlsplit (uri_text g) =
      Some \<lparr>scheme = lit ''file'', netloc = [], path = 47 # ?p, query = [], fragment = []\<rparr>"
    unfolding uri_text_def using ch by (intro urlsplit_file) fastforce
  moreover have "mapE (uri_component field) (map quoted (parts g)) = Inr (parts g)"
    using uri_component_quoted wf_guest_components [OF assms] by (auto simp: mapE_Inr_iff list_all2_map1 list_all2_same)
  moreover have "validated (parts g) field = Inr g"
    using assms by (auto simp: validated_def wf_guest_def)
  ultimately show ?thesis
    by (simp add: from_uri_def uri_text_path [OF assms] ascii_lower_def lit_def [of "''/''"] del: split_on.simps)
qed

section \<open>Contexts round trip\<close>

fun wf_entry :: "Entry \<Rightarrow> bool" where
  "wf_entry (PathEntry a g) = wf_guest g"
| "wf_entry (SpecialEntry a sp sub) =
     ((sp = Root \<longrightarrow> a \<noteq> WRITE) \<and>
      (case sub of None \<Rightarrow> True | Some ps \<Rightarrow> sp = ProjectRoots \<and> list_all wf_component ps))"

definition wf_policy :: "ManagedPolicy \<Rightarrow> bool" where
  "wf_policy pol \<longleftrightarrow>
     wf_guest (cwd pol) \<and> list_all wf_guest (workspace_roots pol) \<and>
     (case user_home_dir pol of None \<Rightarrow> True | Some h \<Rightarrow> wf_guest h) \<and>
     (case temporary_directories pol of None \<Rightarrow> True | Some ts \<Rightarrow> list_all wf_guest ts) \<and>
     list_all wf_entry (entries pol) \<and>
     resolved_entries pol = resolve (workspace_roots pol) (temporary_directories pol) (entries pol) \<and>
     windows_sandbox_proxy_settings_mode pol \<in> {None, Some (lit ''reconcile''), Some (lit ''preserve'')}"

text \<open>The same value as \<open>to_context_dict\<close>, without the failure that a well-formed policy never has.\<close>

fun entry_json :: "Entry \<Rightarrow> json" where
  "entry_json (PathEntry a g) =
     JObj [(lit ''path'', JObj [(lit ''type'', jlit ''path''), (lit ''path'', JStr (uri_text g))]),
           (lit ''access'', JStr (access_value a))]"
| "entry_json (SpecialEntry a sp sub) =
     JObj
       [(lit ''path'', JObj [(lit ''type'', jlit ''special''),
          (lit ''value'', JObj ((lit ''kind'', JStr (special_name sp)) #
             (case sub of None \<Rightarrow> [] | Some ps \<Rightarrow> [(lit ''subpath'', JStr (join_on [47] ps))])))]),
        (lit ''access'', JStr (access_value a))]"

definition permissions_json :: "ManagedPolicy \<Rightarrow> json" where
  "permissions_json pol = JObj
     [(lit ''type'', jlit ''managed''),
      (lit ''file_system'', JObj [(lit ''type'', jlit ''restricted''),
         (lit ''entries'', JArr (map entry_json (entries pol)))]),
      (lit ''network'', jlit ''restricted'')]"

definition uris_json :: "GuestPath list \<Rightarrow> json" where
  "uris_json gs = JArr (map (\<lambda>g. JStr (uri_text g)) gs)"

definition context_members :: "ManagedPolicy \<Rightarrow> dict" where
  "context_members pol =
     [(lit ''permissions'', permissions_json pol),
      (lit ''cwd'', JStr (uri_text (cwd pol))),
      (lit ''workspaceRoots'', uris_json (workspace_roots pol)),
      (lit ''windowsSandboxLevel'', jlit ''disabled''),
      (lit ''windowsSandboxPrivateDesktop'', JBool (windows_sandbox_private_desktop pol)),
      (lit ''useLegacyLandlock'', JBool False)]
     @ (case user_home_dir pol of None \<Rightarrow> [] | Some h \<Rightarrow> [(lit ''userHomeDir'', JStr (uri_text h))])
     @ (case windows_sandbox_proxy_settings_mode pol of None \<Rightarrow> []
        | Some m \<Rightarrow> [(lit ''windowsSandboxProxySettingsMode'', JStr m)])
     @ (case temporary_directories pol of None \<Rightarrow> [] | Some ts \<Rightarrow> [(lit ''temporaryDirectories'', uris_json ts)])"

lemma entry_to_dict_json: "wf_entry e \<Longrightarrow> entry_to_dict e = Inr (entry_json e)"
  by (cases e) (simp_all add: guest_uri_text)

lemma uri_list_json: "list_all wf_guest gs \<Longrightarrow> uri_list gs = Inr (uris_json gs)"
proof -
  assume "list_all wf_guest gs"
  then have "mapE guest_uri gs = Inr (map uri_text gs)"
    by (intro mapE_total) (simp add: list_all_iff guest_uri_text)
  then show ?thesis by (simp add: uri_list_def uris_json_def comp_def)
qed

lemma to_context_dict_json:
  assumes "wf_policy pol"
  shows "to_context_dict pol = Inr (JObj (context_members pol))"
proof -
  have "mapE entry_to_dict (entries pol) = Inr (map entry_json (entries pol))"
    using assms by (intro mapE_total) (simp add: wf_policy_def list_all_iff entry_to_dict_json)
  then show ?thesis
    using assms
    by (auto simp: to_context_dict_def wf_policy_def guest_uri_text uri_list_json context_members_def
        permissions_json_def split: option.splits)
qed

lemma p_object_ok:
  "list_all (\<lambda>k. k \<in> set allowed) (dkeys d) \<Longrightarrow> list_all (has_key d) required \<Longrightarrow>
   p_object (JObj d) field allowed required = Inr d"
  by (auto simp: p_object_def exn_simps list_all_iff)

lemma p_object_Inr_iff:
  "p_object v field allowed required = Inr d \<longleftrightarrow>
     v = JObj d \<and> set (dkeys d) \<subseteq> set allowed \<and> (\<forall>k \<in> set required. has_key d k)"
  by (cases v) (auto simp: p_object_def exn_simps)

lemma lit_set [simp]: "lit a \<in> lit ` S \<longleftrightarrow> a \<in> S"
  by (auto simp: image_iff)

lemma parse_access_value: "parse_access (JStr (access_value a)) field = Inr a"
  by (cases a) (simp_all add: parse_access_def)

lemma parse_subpath_join:
  assumes "list_all wf_component ps"
  shows "parse_subpath (JStr (join_on [47] ps)) field = Inr ps"
proof -
  have comps: "c \<noteq> []" "47 \<notin> set c" "c \<noteq> lit ''.''" "c \<noteq> lit ''..''" "list_all is_scalar c" "\<not> list_ex is_control c"
    if "c \<in> set ps" for c
    using assms that by (auto simp: list_all_iff wf_component_def dots_def)
  have "p_text (JStr (join_on [47] ps)) field = Inr (join_on [47] ps)"
    using join_on_set [of _ "[47]" ps] comps(5,6)
    by (fastforce simp: p_text_Inr_iff list_all_iff list_ex_iff is_scalar_def is_control_def)
  moreover have "\<not> prefix (lit ''/'') (join_on [47] ps)"
  proof (cases ps)
    case (Cons c cs)
    then obtain x w where "c = x # w" "x \<noteq> 47" using comps(1,2) [of c] by (cases c) auto
    then show ?thesis using Cons join_on_head [of "[47]" x w cs "[]"] by (auto simp: lit_def)
  qed (simp add: lit_def)
  moreover have "split_on 47 (join_on [47] ps) = (if ps = [] then [[]] else ps)"
    using comps(2) by (simp add: split_join)
  moreover have "filter (\<lambda>p. p \<noteq> [] \<and> p \<noteq> lit ''.'') ps = ps"
    using comps by (simp add: filter_id_conv)
  moreover have "lit ''..'' \<notin> set ps" using comps(4) by blast
  ultimately show ?thesis by (auto simp: parse_subpath_def)
qed

context json_layout
begin

lemma p_object_layout:
  assumes "distinct (map fst d)" "list_all (\<lambda>k. k \<in> set allowed) (dkeys d)" "list_all (has_key d) required"
  shows "p_object (layout (JObj d)) field allowed required = Inr (obj_of (layout (JObj d)))"
  using assms
  by (subst layout_is_obj) (intro p_object_ok, simp_all add: list_all_iff layout_dkeys layout_has_key)

lemma parse_entry_layout:
  assumes "wf_entry e"
  shows "parse_entry i (layout (entry_json e)) = Inr e"
proof (cases e)
  case (PathEntry a g)
  then show ?thesis
    using assms
    by (simp add: parse_entry_def Let_def p_object_layout layout_dget layout_scalar layout_is_obj [symmetric]
        p_only_null_def parse_access_value from_uri_uri_text)
next
  case (SpecialEntry a sp sub)
  define sd where "sd = (lit ''kind'', JStr (special_name sp)) #
    (case sub of None \<Rightarrow> [] | Some ps \<Rightarrow> [(lit ''subpath'', JStr (join_on [47] ps))])"
  have sd: "distinct (map fst sd)" "list_all (\<lambda>k. k = lit ''kind'' \<or> k = lit ''subpath'') (dkeys sd)" "has_key sd (lit ''kind'')"
    "dget sd (lit ''kind'') = JStr (special_name sp)"
    "sub = None \<Longrightarrow> list_all (\<lambda>k. k = lit ''kind'') (dkeys sd) \<and> dget sd (lit ''subpath'') = JNull"
    "sub = Some ps \<Longrightarrow> dget sd (lit ''subpath'') = JStr (join_on [47] ps)" for ps
    by (auto simp: sd_def split: option.splits)
  show ?thesis
    using assms SpecialEntry sd unfolding SpecialEntry entry_json.simps sd_def [symmetric]
    by (cases sub; cases sp)
      (simp_all add: parse_entry_def Let_def p_object_layout layout_dget layout_scalar layout_is_obj [symmetric]
        p_only_null_def parse_access_value parse_special_def parse_subpath_join)
qed

lemma paths_layout:
  assumes "distinct (map fst d)" "get_default d key (JArr []) = uris_json gs" "list_all wf_guest gs"
  shows "paths (obj_of (layout (JObj d))) key = Inr gs"
proof -
  have "get_default (obj_of (layout (JObj d))) key (JArr []) = layout (uris_json gs)"
    using assms(1,2) by (auto simp: get_default_def layout_has_key layout_dget layout_array uris_json_def
        split: if_splits)
  moreover have "mapE (\<lambda>(index, v). from_uri v (lit ''$.'' @ key @ lit ''['' @ nat_digits index @ lit '']''))
      (enumerate 0 (map (\<lambda>g. JStr (uri_text g)) gs)) = Inr gs"
    using assms(3) by (auto simp: mapE_Inr_iff list_all2_conv_all_nth nth_enumerate_eq from_uri_uri_text list_all_iff)
  ultimately show ?thesis
    by (simp add: paths_def p_array_def uris_json_def layout_array layout_scalar comp_def)
qed

lemma parse_permissions_layout:
  "parse_permissions (layout (permissions_json pol)) = Inr (JArr (map (\<lambda>e. layout (entry_json e)) (entries pol)))"
  by (simp add: parse_permissions_def permissions_json_def p_object_layout layout_dget layout_scalar layout_array
      layout_is_obj [symmetric] p_only_null_def comp_def)

lemma parse_context_layout:
  assumes "wf_policy pol"
  shows "parse_context (layout (JObj (context_members pol))) = Inr pol"
proof -
  let ?d = "context_members pol" and ?o = "obj_of (layout (JObj (context_members pol)))"
  have d: "distinct (map fst ?d)" "list_all (\<lambda>k. k \<in> set context_keys) (dkeys ?d)"
    "list_all (has_key ?d) [lit ''permissions'', lit ''cwd'', lit ''windowsSandboxLevel'']"
    by (auto simp: context_members_def context_keys_def split: option.splits)
  have get: "dget ?d (lit ''windowsSandboxLevel'') = jlit ''disabled''"
    "get_default ?d (lit ''windowsSandboxPrivateDesktop'') (JBool False) = JBool (windows_sandbox_private_desktop pol)"
    "dget ?d (lit ''windowsSandboxProxySettingsMode'') =
       (case windows_sandbox_proxy_settings_mode pol of None \<Rightarrow> JNull | Some m \<Rightarrow> JStr m)"
    "get_default ?d (lit ''useLegacyLandlock'') (JBool False) = JBool False"
    "dget ?d (lit ''permissions'') = permissions_json pol" "dget ?d (lit ''cwd'') = JStr (uri_text (cwd pol))"
    "get_default ?d (lit ''workspaceRoots'') (JArr []) = uris_json (workspace_roots pol)"
    "dget ?d (lit ''userHomeDir'') = (case user_home_dir pol of None \<Rightarrow> JNull | Some h \<Rightarrow> JStr (uri_text h))"
    "dget ?d (lit ''temporaryDirectories'') =
       (case temporary_directories pol of None \<Rightarrow> JNull | Some ts \<Rightarrow> uris_json ts)"
    "temporary_directories pol = Some ts \<Longrightarrow>
       get_default ?d (lit ''temporaryDirectories'') (JArr []) = uris_json ts" for ts
    by (auto simp: context_members_def get_default_def split: option.splits)
  have o: "dget ?o k = layout (dget ?d k)" for k using layout_dget [OF d(1)] .
  have bools: "get_default ?o k (JBool False) = JBool b" if "get_default ?d k (JBool False) = JBool b" for k b
    using that by (auto simp: get_default_def layout_has_key [OF d(1)] o layout_scalar split: if_splits)
  have roots: "paths ?o (lit ''workspaceRoots'') = Inr (workspace_roots pol)"
    using assms get(7) by (intro paths_layout d(1)) (auto simp: wf_policy_def)
  have home: "(if dget ?o (lit ''userHomeDir'') = JNull then Inr None
      else bindE (from_uri (dget ?o (lit ''userHomeDir'')) (lit ''$.userHomeDir'')) (\<lambda>h. Inr (Some h)))
      = Inr (user_home_dir pol)"
    using assms by (auto simp: o get layout_scalar wf_policy_def from_uri_uri_text split: option.splits)
  have temps: "(if dget ?o (lit ''temporaryDirectories'') = JNull then Inr None
      else bindE (paths ?o (lit ''temporaryDirectories'')) (\<lambda>ts. Inr (Some ts))) = Inr (temporary_directories pol)"
  proof (cases "temporary_directories pol")
    case (Some ts)
    then have "paths ?o (lit ''temporaryDirectories'') = Inr ts"
      using assms get(10) [OF Some] by (intro paths_layout d(1)) (auto simp: wf_policy_def)
    then show ?thesis using Some by (simp add: o get uris_json_def layout_array)
  qed (simp add: o get layout_scalar)
  have es: "mapE (\<lambda>(index, v). parse_entry index v) (enumerate 0 (map (\<lambda>e. layout (entry_json e)) (entries pol)))
      = Inr (entries pol)"
    using assms
    by (auto simp: mapE_Inr_iff list_all2_conv_all_nth nth_enumerate_eq parse_entry_layout wf_policy_def list_all_iff)
  have mode: "dget ?o (lit ''windowsSandboxProxySettingsMode'') =
      (case windows_sandbox_proxy_settings_mode pol of None \<Rightarrow> JNull | Some m \<Rightarrow> JStr m)"
    by (simp add: o get layout_scalar split: option.split)
  show ?thesis
    using assms
    by (simp add: parse_context_def p_object_layout [OF d] o [of "lit ''windowsSandboxLevel''"]
        o [of "lit ''permissions''"] o [of "lit ''cwd''"] get layout_scalar bools [OF get(2)] bools [OF get(4)] p_false_option_def
        parse_permissions_layout from_uri_uri_text roots home temps es mode p_array_def Let_def wf_policy_def)
      (auto split: option.splits intro!: ManagedPolicy.equality)
qed

end

lemma policy_unique_iff:
  "policy_unique seen ps = Inr () \<longleftrightarrow> distinct (map fst ps) \<and> set seen \<inter> fst ` set ps = {}"
  by (induction seen ps rule: policy_unique.induct) auto

lemma policy_pairs_distinct: "distinct (map fst ps) \<Longrightarrow> policy_pairs ps = Inr (JObj ps)"
  using policy_unique_iff [of "[]" ps] by (simp add: policy_pairs_def)

lemma parse_entry_wf:
  assumes "parse_entry i v = Inr e"
  shows "wf_entry e"
proof -
  have "list_all wf_component ps" if sub: "parse_subpath v f = Inr ps" for v f ps
  proof -
    obtain raw where raw: "list_all is_scalar raw" "\<not> list_ex is_control raw" "lit ''..'' \<notin> set (split_on 47 raw)"
      "ps = filter (\<lambda>p. p \<noteq> [] \<and> p \<noteq> lit ''.'') (split_on 47 raw)"
      using sub by (auto simp: parse_subpath_def p_text_Inr_iff bindE_Inr_iff split: if_split_asm)
    have "wf_component c" if "c \<in> set ps" for c
      using that raw split_on_subset [of c 47 raw] split_on_parts [of c 47 raw]
      by (auto simp: wf_component_def dots_def list_all_iff list_ex_iff)
    then show ?thesis by (simp add: list_all_iff)
  qed
  then show ?thesis
    using assms from_uri_wf
    by (auto simp: parse_entry_def Let_def bindE_Inr_iff seqE_Inr_iff split: if_split_asm)
qed

lemma paths_wf: "paths d k = Inr gs \<Longrightarrow> list_all wf_guest gs"
  by (auto simp: paths_def bindE_Inr_iff mapE_Inr_iff list_all_iff dest!: list_all2_right intro: from_uri_wf
      split: prod.splits)

lemma parse_context_wf:
  assumes "parse_context v = Inr pol"
  shows "wf_policy pol"
proof -
  have es: "list_all wf_entry es" if "mapE (\<lambda>(index, v). parse_entry index v) xs = Inr es" for xs es
    using that
    by (auto simp: mapE_Inr_iff list_all_iff dest!: list_all2_right intro: parse_entry_wf split: prod.splits)
  have home: "case h of None \<Rightarrow> True | Some g \<Rightarrow> wf_guest g"
    if "(if b then Inr None else bindE (from_uri x f) (\<lambda>g. Inr (Some g))) = Inr h" for b x f h
    using that by (auto simp: bindE_Inr_iff from_uri_wf split: if_splits)
  have temps: "case h of None \<Rightarrow> True | Some ts \<Rightarrow> list_all wf_guest ts"
    if "(if b then Inr None else bindE (paths c k) (\<lambda>ts. Inr (Some ts))) = Inr h" for b c k h
    using that by (auto simp: bindE_Inr_iff paths_wf split: if_splits)
  show ?thesis
    using assms unfolding parse_context_def Let_def
    by (elim exn_elims) (auto simp: wf_policy_def from_uri_wf paths_wf es dest: home temps)
qed

lemma context_members_json:
  "wf_json (JObj (context_members pol))" "float_free (JObj (context_members pol))"
proof -
  have "wf_json (entry_json e) \<and> float_free (entry_json e)" for e
    by (cases e) (auto split: option.splits)
  then show "wf_json (JObj (context_members pol))" "float_free (JObj (context_members pol))"
    by (auto simp: context_members_def permissions_json_def uris_json_def list_all_iff split: option.splits)
qed

section \<open>Only \<open>PolicyError\<close> escapes\<close>

fun is_policy_error :: "exn \<Rightarrow> bool" where
  "is_policy_error (PolicyError _ _) = True"
| "is_policy_error _ = False"

lemma is_policy_error_perr [simp]: "is_policy_error (perr f r)"
  by (simp add: perr_def)

named_theorems policy_raises "the validators raise nothing but PolicyError"

lemma raises_validators [policy_raises]:
  "raises is_policy_error (p_object v f a r)" "raises is_policy_error (p_text v f)"
  "raises is_policy_error (p_array v f)" "raises is_policy_error (p_false_option v f)"
  "raises is_policy_error (p_only_null v f)"
  by (cases v; auto simp: p_object_def p_text_def p_array_def p_false_option_def p_only_null_def
      intro!: raises_intros)+

lemma raises_uri_component [policy_raises]: "raises is_policy_error (uri_component f e)"
  by (auto simp: uri_component_def split: option.split sum.split intro!: raises_intros policy_raises)

lemma raises_from_uri [policy_raises]: "raises is_policy_error (from_uri v f)"
  by (auto simp: from_uri_def validated_def split: option.split intro!: raises_intros policy_raises)

lemma raises_from_absolute [policy_raises]: "raises is_policy_error (from_absolute v f)"
  by (auto simp: from_absolute_def validated_def Let_def intro!: raises_intros policy_raises)

lemma raises_parse_parts [policy_raises]:
  "raises is_policy_error (parse_access v f)" "raises is_policy_error (parse_special v f)"
  "raises is_policy_error (parse_subpath v f)"
  by (auto simp: parse_access_def parse_special_def parse_subpath_def intro!: raises_intros policy_raises)

lemma raises_parse_entry [policy_raises]: "raises is_policy_error (parse_entry i v)"
  unfolding parse_entry_def Let_def
  by (intro raises_intros policy_raises; simp)

lemma raises_paths [policy_raises]: "raises is_policy_error (paths d k)"
  unfolding paths_def by (intro raises_intros policy_raises) (auto intro: policy_raises)

lemma raises_parse_permissions [policy_raises]: "raises is_policy_error (parse_permissions v)"
  unfolding parse_permissions_def by (intro raises_intros policy_raises; simp)

lemma raises_parse_context: "raises is_policy_error (parse_context v)"
  unfolding parse_context_def Let_def
  by (intro raises_intros policy_raises; auto intro: policy_raises)

section \<open>Properties\<close>

definition ungoverned :: "ResolvedEntry list \<Rightarrow> GuestPath \<Rightarrow> bool" where
  "ungoverned rs p = list_all (\<lambda>e. \<not> contains (re_path e) p) rs"


text \<open>A grant inside a metadata directory, on the way to \<open>p\<close>.\<close>

definition metadata_grant :: "ManagedPolicy \<Rightarrow> GuestPath \<Rightarrow> bool" where
  "metadata_grant pol p \<longleftrightarrow>
     (\<exists>c. \<exists>g \<in> set (write_entries pol). in_metadata pol c p \<and> contains c (re_path g) \<and> contains (re_path g) p)"

text \<open>C6: below \<open>.git\<close>, \<open>.agents\<close> or \<open>.codex\<close> of a writable root nothing can be written, unless a write
  entry of its own points into such a directory.\<close>

theorem metadata_protected:
  assumes "in_metadata pol c p" and "\<not> metadata_grant pol p"
  shows "\<not> can_write (decide_guest pol p) \<and> access (decide_guest pol p) \<noteq> WRITE"
  using assms can_write_metadata [of pol p c] by (auto simp: metadata_grant_def access_def)

definition example_policy :: ManagedPolicy where
  "example_policy = \<lparr>cwd = GuestPath [lit ''w''], workspace_roots = [GuestPath [lit ''w'']],
     user_home_dir = None, temporary_directories = None,
     entries = [SpecialEntry WRITE ProjectRoots None],
     resolved_entries = resolve [GuestPath [lit ''w'']] None [SpecialEntry WRITE ProjectRoots None],
     windows_sandbox_private_desktop = False, windows_sandbox_proxy_settings_mode = None\<rparr>"

lemma example_write_entries:
  "write_entries example_policy = [\<lparr>re_path = GuestPath [lit ''w''], re_access = WRITE, source_index = 0\<rparr>]"
  by (simp add: write_entries_def example_policy_def resolve_def targets_def gappend_def)

theorem metadata_protected_witness:
  "\<not> can_write (decide_guest example_policy (GuestPath [lit ''w'', lit ''.git'', lit ''config'']))"
proof -
  let ?p = "GuestPath [lit ''w'', lit ''.git'', lit ''config'']"
  have "in_metadata example_policy (GuestPath [lit ''w'', lit ''.git'']) ?p"
    by (simp add: in_metadata_def example_write_entries METADATA_NAMES_def gappend_def contains_def)
  moreover have "\<not> metadata_grant example_policy ?p"
    by (auto simp: metadata_grant_def in_metadata_def example_write_entries gappend_def contains_def)
  ultimately show ?thesis using metadata_protected by blast
qed



text \<open>C23: a guest path survives the trip through its URI, for any field name in the errors.\<close>

theorem uri_round_trip:
  assumes "wf_guest g"
  shows "bindE (guest_uri g) (\<lambda>u. from_uri (JStr u) field) = Inr g"
  using assms by (simp add: guest_uri_text from_uri_uri_text)

theorem uri_round_trip_witness:
  "bindE (guest_uri (GuestPath [lit ''a b'', [233]])) (\<lambda>u. from_uri (JStr u) []) = Inr (GuestPath [lit ''a b'', [233]])"
  by (rule uri_round_trip) (simp add: wf_guest_def wf_component_def dots_def is_drive_def is_control_def is_scalar_def lit_def)




end
