(* ===== verification/PolicyIntent.thy ===== *)
theory PolicyIntent
  imports ManagedPolicyFacts
begin

text \<open>
  \<open>tools/executor/policy_intent.py\<close>: the immutable policy record handed to the native boundary.  It
  holds the normalised bytes of the portable context; reading them back gives the policy that was
  admitted.  \<open>hashlib.sha256\<close> is an argument of the functions that use it.
\<close>

definition POLICY_BEARING_METHODS :: "pystr list" where
  "POLICY_BEARING_METHODS = map lit [''process/start'', ''fs/readFile'', ''fs/open'', ''fs/writeFile'',
     ''fs/createDirectory'', ''fs/getMetadata'', ''fs/canonicalize'',
     ''fs/readDirectory'', ''fs/walk'', ''fs/remove'', ''fs/copy'']"

definition intent_identifier :: "pystr \<Rightarrow> pystr \<Rightarrow> exn + unit" where
  "intent_identifier v field =
     (if v = [] then Inl (perr field ''expected a nonempty connection-local identifier'')
      else if utf8_encode v = None then Inl (perr field ''identifier must be UTF-8'')
      else raiseIf (list_ex is_control v) (perr field ''control characters are unsupported''))"

definition json_bytes :: "json \<Rightarrow> exn + pybytes" where
  "json_bytes v = dump_bytes (sort_keys v)"

record PolicyIntent =
  intent_session :: pystr
  intent_request :: pystr
  intent_method :: pystr
  context_json :: pybytes

text \<open>The constructor with its \<open>__post_init__\<close>, which replaces the bytes by their normal form.\<close>

definition make_intent :: "pystr \<Rightarrow> pystr \<Rightarrow> pystr \<Rightarrow> pybytes \<Rightarrow> exn + PolicyIntent" where
  "make_intent sid rid m ctx =
     seqE (intent_identifier sid (lit ''$.sessionId''))
    (seqE (intent_identifier rid (lit ''$.requestId''))
    (seqE (raiseIf (m \<notin> set POLICY_BEARING_METHODS)
             (perr (lit ''$.method'') ''expected a supported policy-bearing exec-server method''))
    (bindE (parse_context_bytes ctx) (\<lambda>policy.
     bindE (to_context_dict policy) (\<lambda>dict.
     bindE (json_bytes dict) (\<lambda>normalized.
     Inr \<lparr>intent_session = sid, intent_request = rid, intent_method = m, context_json = normalized\<rparr>))))))"

definition prepare_policy_intent :: "json \<Rightarrow> pystr \<Rightarrow> pystr \<Rightarrow> pystr \<Rightarrow> exn + PolicyIntent" where
  "prepare_policy_intent context sid rid m =
     bindE (parse_context context) (\<lambda>policy.
     bindE (to_context_dict policy) (\<lambda>dict.
     bindE (json_bytes dict) (\<lambda>bs. make_intent sid rid m bs)))"

definition to_document :: "(pybytes \<Rightarrow> pystr) \<Rightarrow> PolicyIntent \<Rightarrow> exn + json" where
  "to_document sha256 intent =
     bindE (loads_bytes plain_pairs plain_constant (context_json intent)) (\<lambda>context.
     Inr (JObj
       [(lit ''schema'', jlit ''foldgpt.policy-intent.v1''),
        (lit ''resolver'', JObj [(lit ''tag'', jlit ''rust-v0.153.4''),
           (lit ''commit'', jlit ''042fb41b7c813ac7999105e886b2b7aa715b5081'')]),
        (lit ''sessionId'', JStr (intent_session intent)),
        (lit ''requestId'', JStr (intent_request intent)),
        (lit ''method'', JStr (intent_method intent)),
        (lit ''contextSha256'', JStr (sha256 (context_json intent))),
        (lit ''context'', context)]))"

definition intent_to_bytes :: "(pybytes \<Rightarrow> pystr) \<Rightarrow> PolicyIntent \<Rightarrow> exn + pybytes" where
  "intent_to_bytes sha256 intent = bindE (to_document sha256 intent) json_bytes"

section \<open>Normalised bytes determine the policy\<close>

lemma context_bytes_parse:
  assumes "wf_policy pol" and "to_context_dict pol = Inr d" and "json_bytes d = Inr bs"
  shows "parse_context_bytes bs = Inr pol"
proof -
  have d: "d = JObj (context_members pol)"
    using to_context_dict_json [OF assms(1)] assms(2) by simp
  obtain t where t: "dumps False (sort_keys d) = Inr t" "utf8_encode t = Some bs"
    using assms(3) by (auto simp: json_bytes_def dump_bytes_def bindE_Inr_iff split: option.splits)
  have "loads policy_pairs policy_nonfinite t = Inr (sort_keys d)"
    using policy_pairs_distinct sort_keys_preserves context_members_json d t(1)
    by (intro loads_dumps) (auto simp del: wf_json.simps float_free.simps sort_keys.simps)
  then have "decode_json_bytes bs = Inr (sort_keys d)"
    using utf8_decode_encode [OF t(2)] by (simp add: decode_json_bytes_def decode_json_def)
  then show ?thesis
    using sorted_layout.parse_context_layout [OF assms(1)] d by (simp add: parse_context_bytes_def)
qed

lemma make_intent_bytes:
  assumes "make_intent sid rid m ctx = Inr i"
  shows "\<exists>pol. parse_context_bytes ctx = Inr pol \<and> parse_context_bytes (context_json i) = Inr pol"
proof -
  obtain pol d where pol: "parse_context_bytes ctx = Inr pol" "to_context_dict pol = Inr d"
    "json_bytes d = Inr (context_json i)"
    using assms by (auto simp: make_intent_def bindE_Inr_iff seqE_Inr_iff)
  then have "wf_policy pol"
    by (auto simp: parse_context_bytes_def bindE_Inr_iff intro: parse_context_wf)
  then show ?thesis using context_bytes_parse pol by blast
qed

lemma prepare_policy_intent_parse:
  assumes "prepare_policy_intent ctx sid rid m = Inr i"
  shows "parse_context_bytes (context_json i) = parse_context ctx"
proof -
  obtain pol d bs where pol: "parse_context ctx = Inr pol" "to_context_dict pol = Inr d" "json_bytes d = Inr bs"
    "make_intent sid rid m bs = Inr i"
    using assms by (auto simp: prepare_policy_intent_def bindE_Inr_iff)
  then have "parse_context_bytes bs = Inr pol"
    using context_bytes_parse parse_context_wf by blast
  then show ?thesis using make_intent_bytes [OF pol(4)] pol(1) by auto
qed

text \<open>Serialising never fails: a parsed policy has URIs and text that UTF-8 can encode.\<close>

lemma uri_text_scalar:
  assumes "wf_guest g"
  shows "list_all is_scalar (uri_text g)"
proof -
  have "is_scalar c" if "c \<in> set (join_on [47] (map quoted (parts g)))" for c
    using uri_text_char(2) [OF assms that] by simp
  then show ?thesis by (simp add: uri_text_def list_all_iff lit_def)
qed

lemma context_members_encodable:
  assumes "wf_policy pol"
  shows "encodable (JObj (context_members pol))"
proof -
  have lit: "list_all is_scalar (lit s)" if "list_all (\<lambda>c. of_char c < (128::nat)) s" for s
    using that by (simp add: lit_def list_all_iff)
  have "list_all is_scalar (join_on [47] ps)" if "list_all wf_component ps" for ps
    using that join_on_set [of _ "[47]" ps] by (fastforce simp: list_all_iff wf_component_def)
  moreover have "list_all is_scalar (special_name sp)" "list_all is_scalar (access_value a)" for sp a
    by (cases sp; simp add: lit) (cases a; simp add: lit)
  ultimately have "encodable (entry_json e)" if "wf_entry e" for e
    using that uri_text_scalar by (cases e) (auto simp: lit split: option.splits)
  then have es: "list_all encodable (map entry_json es)" if "list_all wf_entry es" for es
    using that by (induction es) simp_all
  have uris: "encodable (uris_json gs)" if "list_all wf_guest gs" for gs
    using that uri_text_scalar unfolding uris_json_def encodable.simps by (induction gs) simp_all
  have "encodable (permissions_json pol)"
    using assms es by (simp add: wf_policy_def permissions_json_def lit)
  then show ?thesis
    using assms uri_text_scalar uris
    by (auto simp: wf_policy_def context_members_def lit split: option.splits)
qed

lemma context_bytes_total:
  assumes "wf_policy pol"
  obtains d bs where "to_context_dict pol = Inr d" "json_bytes d = Inr bs"
  using that to_context_dict_json [OF assms] dump_bytes_total [OF encodable_sort_keys
    [OF context_members_encodable [OF assms]]]
  by (auto simp: json_bytes_def)

lemma prepare_policy_intent_succeeds:
  "(\<exists>i. prepare_policy_intent ctx sid rid m = Inr i) \<longleftrightarrow>
     (\<exists>pol. parse_context ctx = Inr pol) \<and> intent_identifier sid (lit ''$.sessionId'') = Inr () \<and>
     intent_identifier rid (lit ''$.requestId'') = Inr () \<and> m \<in> set POLICY_BEARING_METHODS"
proof (cases "parse_context ctx")
  case (Inr pol)
  then have wf: "wf_policy pol" by (rule parse_context_wf)
  obtain d bs where d: "to_context_dict pol = Inr d" "json_bytes d = Inr bs"
    using context_bytes_total [OF wf] .
  then show ?thesis
    using Inr context_bytes_parse [OF wf d]
    by (auto simp: prepare_policy_intent_def make_intent_def seqE_Inr_iff)
qed (simp add: prepare_policy_intent_def)

section \<open>Properties\<close>

text \<open>C14: reading the bytes of an admitted intent gives exactly the policy of the context it was made
  from, so the native side decides with the policy the client sent.\<close>

theorem intent_preserves_policy:
  assumes "prepare_policy_intent ctx sid rid m = Inr i"
  shows "parse_context_bytes (context_json i) = parse_context ctx"
  using assms by (rule prepare_policy_intent_parse)

definition example_context :: json where
  "example_context = JObj
     [(lit ''cwd'', jlit ''file:///w''),
      (lit ''permissions'', JObj [(lit ''type'', jlit ''managed''), (lit ''network'', jlit ''restricted''),
         (lit ''file_system'', JObj [(lit ''type'', jlit ''restricted''), (lit ''entries'', JArr [])])]),
      (lit ''windowsSandboxLevel'', jlit ''disabled'')]"

lemma example_context_parses: "\<exists>pol. parse_context example_context = Inr pol"
proof -
  have g: "uri_text (GuestPath [lit ''w'']) = lit ''file:///w''"
    by (simp add: uri_text_def utf8_bytes_def quote_bytes_def quote_byte_def url_unreserved_def is_alpha_def lit_def)
  have "wf_guest (GuestPath [lit ''w''])"
    by (simp add: wf_guest_def wf_component_def dots_def is_drive_def is_control_def is_scalar_def lit_def)
  from from_uri_uri_text [OF this] have "from_uri (jlit ''file:///w'') f = Inr (GuestPath [lit ''w''])" for f
    by (simp add: g)
  then show ?thesis
    by (simp add: parse_context_def example_context_def p_object_ok context_keys_def get_default_def
        p_false_option_def parse_permissions_def p_only_null_def paths_def p_array_def Let_def)
qed

theorem intent_preserves_policy_witness:
  "\<exists>i. prepare_policy_intent example_context (lit ''s'') (lit ''r'') (lit ''fs/open'') = Inr i \<and>
     parse_context_bytes (context_json i) = parse_context example_context"
proof -
  have "intent_identifier (lit ''s'') f = Inr ()" "intent_identifier (lit ''r'') f = Inr ()" for f
    by (simp_all add: intent_identifier_def utf8_encode_def lit_def is_scalar_def is_control_def)
  moreover have "lit ''fs/open'' \<in> set POLICY_BEARING_METHODS" by (simp add: POLICY_BEARING_METHODS_def)
  ultimately have "\<exists>i. prepare_policy_intent example_context (lit ''s'') (lit ''r'') (lit ''fs/open'') = Inr i"
    unfolding prepare_policy_intent_succeeds using example_context_parses by simp
  then obtain i where "prepare_policy_intent example_context (lit ''s'') (lit ''r'') (lit ''fs/open'') = Inr i" ..
  with intent_preserves_policy [OF this] show ?thesis by blast
qed

text \<open>C21: an intent is admitted exactly when its context parses, both identifiers are nonempty
  control-free UTF-8 and the method carries a policy; normalisation itself never fails.\<close>

theorem intent_admission:
  "(\<exists>i. prepare_policy_intent ctx sid rid m = Inr i) \<longleftrightarrow>
     (\<exists>pol. parse_context ctx = Inr pol) \<and> intent_identifier sid (lit ''$.sessionId'') = Inr () \<and>
     intent_identifier rid (lit ''$.requestId'') = Inr () \<and> m \<in> set POLICY_BEARING_METHODS"
  by (rule prepare_policy_intent_succeeds)

end
