(* ===== verification/NativePathUri.thy ===== *)
theory NativePathUri
  imports ManagedPolicyFacts
begin

text \<open>
  \<open>tools/executor/native_path_uri.py\<close>: the canonical file URIs of the engine, which keep more path
  characters literal than \<open>GuestPath.uri\<close>.  The decoder accepts exactly what the encoder writes.
\<close>

definition PATH_SAFE :: "nat list" where
  "PATH_SAFE = lit ''!$&'' @ [39] @ lit ''()*+,:;=@[]^|''"

definition native_path_error :: exn where
  "native_path_error = ValueError (lit ''Native URI requires an absolute UTF-8 POSIX path'')"

definition path_uri :: "pystr \<Rightarrow> exn + pystr" where
  "path_uri p =
     (if \<not> prefix (lit ''/'') p \<or> list_ex is_control p then Inl native_path_error
      else case utf8_encode p of
        None \<Rightarrow> Inl UnicodeError
      | Some bs \<Rightarrow>
          if 4096 \<le> length bs then Inl native_path_error
          else let ps = (if p = lit ''/'' then [] else split_on 47 (drop 1 p)) in
            if list_ex (\<lambda>q. q = [] \<or> q \<in> set dots) ps \<or> ps \<noteq> [] \<and> is_drive (hd ps)
            then Inl (ValueError (lit ''Native URI path has ambiguous components''))
            else bindE (mapE (quote PATH_SAFE) ps) (\<lambda>qs. Inr (lit ''file:///'' @ join_on [47] qs)))"

text \<open>
  \<open>urllib.parse.unquote(s, errors="strict")\<close>: the runs of ASCII characters are unquoted and decoded
  one by one, the other characters are kept.
\<close>

fun unquote_runs :: "pystr \<Rightarrow> pystr \<Rightarrow> exn + pystr" where
  "unquote_runs acc [] =
     (case utf8_decode (unquote_bytes (rev acc)) of None \<Rightarrow> Inl UnicodeError | Some t \<Rightarrow> Inr t)"
| "unquote_runs acc (c # s) =
     (if c < 128 then unquote_runs (c # acc) s
      else case utf8_decode (unquote_bytes (rev acc)) of
          None \<Rightarrow> Inl UnicodeError
        | Some t \<Rightarrow> bindE (unquote_runs [] s) (\<lambda>r. Inr (t @ c # r)))"

definition unquote :: "pystr \<Rightarrow> exn + pystr" where
  "unquote s = (if 37 \<notin> set s then Inr s else unquote_runs [] s)"

definition uri_path :: "pystr \<Rightarrow> exn + pystr" where
  "uri_path v =
     (case urlsplit v of
        None \<Rightarrow> Inl (ValueError (lit ''Invalid IPv6 URL''))
      | Some uri \<Rightarrow>
          if scheme uri \<noteq> lit ''file'' \<or> netloc uri \<noteq> [] \<or> query uri \<noteq> [] \<or> fragment uri \<noteq> []
          then Inl (ValueError (lit ''Native path must be a local absolute file URI''))
          else bindE (unquote (path uri)) (\<lambda>p.
               bindE (path_uri p) (\<lambda>u.
               if u \<noteq> v then Inl (ValueError (lit ''Native file URI is not canonical'')) else Inr p)))"

section \<open>The decoder inverts the encoder\<close>

abbreviation safe_quoted :: "pystr \<Rightarrow> pystr" where
  "safe_quoted c \<equiv> quote_bytes PATH_SAFE (utf8_bytes c)"

lemma path_safe: "37 \<notin> set PATH_SAFE" "c \<in> set PATH_SAFE \<Longrightarrow> 33 \<le> c \<and> c < 127 \<and> c \<noteq> 35 \<and> c \<noteq> 63 \<and> c \<noteq> 47"
  by (auto simp: PATH_SAFE_def lit_def)

lemma safe_quoted_char:
  assumes "list_all is_scalar s" "c \<in> set (safe_quoted s)"
  shows "33 \<le> c" "c < 127" "c \<noteq> 47" "c \<noteq> 63" "c \<noteq> 35"
  using quote_bytes_chars [OF is_bytes_utf8 [OF assms(1)] assms(2)] path_safe(2) [of c]
  by (auto simp: url_unreserved_def is_alpha_def is_digit_def)

text \<open>Unquoting a text of ASCII characters is one acc.\<close>

lemma unquote_runs_ascii:
  "list_all (\<lambda>c. c < 128) s \<Longrightarrow>
   unquote_runs acc s = (case utf8_decode (unquote_bytes (rev acc @ s)) of None \<Rightarrow> Inl UnicodeError | Some t \<Rightarrow> Inr t)"
  by (induction s arbitrary: acc) auto

lemma utf8_decode_all_ascii: "list_all (\<lambda>c. c < 128) s \<Longrightarrow> utf8_decode s = Some s"
  by (induction s) auto

lemma unquote_bytes_notin: "37 \<notin> set s \<Longrightarrow> unquote_bytes s = s"
  by (induction s) auto

lemma unquote_ascii:
  assumes "list_all (\<lambda>c. c < 128) s" "utf8_decode (unquote_bytes s) = Some t"
  shows "unquote s = Inr t"
  using assms by (auto simp: unquote_def unquote_runs_ascii utf8_decode_all_ascii unquote_bytes_notin)

lemma unquote_bytes_append_safe:
  assumes "37 \<notin> set safe" "is_bytes bs"
  shows "unquote_bytes (quote_bytes safe bs @ r) = bs @ unquote_bytes r"
  using assms(2) by (induction bs) (auto simp: quote_bytes_def is_bytes_def unquote_quote_byte assms(1))

lemma unquote_join:
  assumes "\<And>c. c \<in> set ps \<Longrightarrow> list_all is_scalar c"
  shows "unquote_bytes (join_on [47] (map safe_quoted ps)) = utf8_bytes (join_on [47] ps)"
proof -
  have q: "unquote_bytes (safe_quoted c @ r) = utf8_bytes c @ unquote_bytes r" if "c \<in> set ps" for c r
    using that assms is_bytes_utf8 path_safe(1) unquote_bytes_append_safe by blast
  then show ?thesis
  proof (induction ps rule: induct_list012)
    case (2 x)
    then show ?case using 2 [of x "[]"] by simp
  qed (simp_all add: utf8_bytes_def)
qed

lemma path_uri_Inr:
  assumes "path_uri p = Inr u"
  shows "\<exists>ps. p = 47 # join_on [47] ps \<and> list_all wf_component ps \<and>
    u = lit ''file:///'' @ join_on [47] (map safe_quoted ps)"
proof -
  define ps where "ps = (if p = lit ''/'' then [] else split_on 47 (drop 1 p))"
  have slash: "prefix (lit ''/'') p" and ctl: "\<not> list_ex is_control p" and sc: "list_all is_scalar p"
    and dots: "\<not> list_ex (\<lambda>q. q = [] \<or> q \<in> set dots) ps"
    and q: "bindE (mapE (quote PATH_SAFE) ps) (\<lambda>qs. Inr (lit ''file:///'' @ join_on [47] qs)) = Inr u"
    using assms by (auto simp: path_uri_def ps_def utf8_encode_def Let_def split: if_splits)
  obtain r where p: "p = 47 # r" using slash by (auto simp: lit_def prefix_def)
  then have join: "p = 47 # join_on [47] ps" by (auto simp: ps_def lit_def)
  have wf: "wf_component c" if "c \<in> set ps" for c
    using that dots ctl sc p split_on_subset [of c 47 r] split_on_parts [of c 47 r]
    by (auto simp: wf_component_def ps_def list_all_iff list_ex_iff split: if_splits)
  then have "mapE (quote PATH_SAFE) ps = Inr (map safe_quoted ps)"
    by (intro mapE_total) (simp add: quote_def utf8_encode_scalar wf_component_def)
  then show ?thesis using q join wf by (auto simp: list_all_iff)
qed

lemma uri_path_path_uri:
  assumes "path_uri p = Inr u"
  shows "uri_path u = Inr p"
proof -
  obtain ps where p: "p = 47 # join_on [47] ps" and wf: "list_all wf_component ps"
    and u: "u = lit ''file:///'' @ join_on [47] (map safe_quoted ps)"
    using path_uri_Inr [OF assms] by blast
  let ?q = "join_on [47] (map safe_quoted ps)"
  have sc: "list_all is_scalar c" if "c \<in> set ps" for c
    using wf that by (auto simp: list_all_iff wf_component_def)
  have ch: "33 \<le> c \<and> c < 127 \<and> c \<noteq> 63 \<and> c \<noteq> 35" if "c \<in> set ?q" for c
  proof -
    from join_on_set [OF that] consider "c = 47" | s where "s \<in> set ps" "c \<in> set (safe_quoted s)" by auto
    then show ?thesis
    proof cases
      case (2 s)
      then show ?thesis using safe_quoted_char [OF sc] by blast
    qed simp
  qed
  have split: "urlsplit u =
      Some \<lparr>scheme = lit ''file'', netloc = [], path = 47 # ?q, query = [], fragment = []\<rparr>"
    unfolding u using ch by (intro urlsplit_file) fastforce
  have "list_all is_scalar (join_on [47] ps)"
    using join_on_set [of _ "[47]" ps] sc by (fastforce simp: list_all_iff)
  then have "utf8_decode (unquote_bytes (47 # ?q)) = Some p"
    using unquote_join [OF sc] utf8_decode_encode [OF utf8_encode_scalar] p by simp
  moreover have "list_all (\<lambda>c. c < 128) (47 # ?q)" using ch by (fastforce simp: list_all_iff)
  ultimately have "unquote (47 # ?q) = Inr p" by (intro unquote_ascii)
  then show ?thesis using assms split by (simp add: uri_path_def)
qed

section \<open>Properties\<close>

text \<open>C26: decoding a canonical URI and encoding a path are inverse: a URI decodes to a path exactly when
  it is the encoding of that path.\<close>

theorem uri_path_canonical: "uri_path u = Inr p \<longleftrightarrow> path_uri p = Inr u"
proof
  assume "uri_path u = Inr p"
  then show "path_uri p = Inr u"
    by (auto simp: uri_path_def bindE_Inr_iff split: option.splits if_splits)
qed (rule uri_path_path_uri)

end
