(* ===== verification/ExecProtocol.thy ===== *)
theory ExecProtocol
  imports PolicyIntent
begin

text \<open>
  The wire protocol of \<open>tools/executor/exec_server.py\<close>: decoding and encoding of envelopes, and the
  validation of the outer fields of every operation.
\<close>

section \<open>Constants\<close>

definition MAX_MESSAGE_BYTES :: nat where
  "MAX_MESSAGE_BYTES = 64 * 1024 * 1024"

definition MAX_VALUE_NODES :: nat where
  "MAX_VALUE_NODES = 256 * 1024"

definition CAPABILITIES :: "pystr list" where
  "CAPABILITIES = map lit [''networkProxyLaunch'', ''capabilityDiscoverySandbox'', ''environmentConfigRead'',
     ''httpHeaderEnvVars'', ''sandboxedFileStreaming'', ''shellSnapshotV2'']"

definition PROCESS_METHODS :: "pystr list" where
  "PROCESS_METHODS = map lit [''process/start'', ''process/read'', ''process/write'', ''process/signal'',
     ''process/terminate'']"

definition FILE_METHODS :: "pystr list" where
  "FILE_METHODS = map lit [''fs/readFile'', ''fs/open'', ''fs/readBlock'', ''fs/close'', ''fs/writeFile'',
     ''fs/createDirectory'', ''fs/getMetadata'', ''fs/canonicalize'', ''fs/readDirectory'',
     ''fs/walk'', ''fs/remove'', ''fs/copy'']"

definition BACKEND_METHODS :: "pystr list" where
  "BACKEND_METHODS = PROCESS_METHODS @ FILE_METHODS @
     map lit [''capabilityRoots/discoverV1'', ''environmentConfig/read'', ''http/request'']"

definition CONTROL_METHODS :: "pystr list" where
  "CONTROL_METHODS = map lit [''environment/info'', ''environment/status'', ''process/signal'',
     ''process/terminate'', ''fs/close'']"

definition NOTIFICATIONS :: "pystr list" where
  "NOTIFICATIONS = map lit [''process/output'', ''process/exited'', ''process/closed'', ''http/request/bodyDelta'']"

section \<open>Messages\<close>

text \<open>\<open>RpcError.response\<close>; any other exception has no response of its own.\<close>

definition rpc_response :: "int \<Rightarrow> pystr \<Rightarrow> json option \<Rightarrow> json \<Rightarrow> json" where
  "rpc_response code message data request_id =
     JObj [(lit ''id'', request_id),
           (lit ''error'', JObj ([(lit ''code'', JInt code), (lit ''message'', JStr message)]
              @ (case data of None \<Rightarrow> [] | Some d \<Rightarrow> [(lit ''data'', d)])))]"

definition encode_message :: "json \<Rightarrow> exn + pybytes" where
  "encode_message v = dump_bytes v"

text \<open>The hooks \<open>_object\<close> and \<open>_nonfinite\<close>.\<close>

definition exec_pairs :: pairs_hook where
  "exec_pairs ps =
     (if distinct (map fst ps) then Inr (JObj ps) else Inl (ValueError (lit ''duplicate JSON object key'')))"

definition exec_nonfinite :: const_hook where
  "exec_nonfinite w = Inl (ValueError (lit ''non-finite JSON number''))"

text \<open>
  The loop over \<open>pending\<close>: the stack of values still to visit (its top first) and the number visited.
\<close>

fun strict_item :: "json \<Rightarrow> exn + unit" where
  "strict_item (JObj d) = raiseIf (list_ex (\<lambda>kv. utf8_encode (fst kv) = None) d) UnicodeError"
| "strict_item (JStr s) = raiseIf (utf8_encode s = None) UnicodeError"
| "strict_item (JFloat f) =
     (case f of FFinite _ _ \<Rightarrow> Inr () | _ \<Rightarrow> Inl (ValueError (lit ''non-finite JSON number'')))"
| "strict_item _ = Inr ()"

fun children :: "json \<Rightarrow> json list" where
  "children (JObj d) = map snd d"
| "children (JArr xs) = xs"
| "children _ = []"

lemma size_children: "sum_list (map (\<lambda>x. Suc (size x)) (children v)) \<le> size v"
proof (cases v)
  case (JArr xs)
  have "sum_list (map (\<lambda>x. Suc (size x)) xs) \<le> size_list size xs" for xs :: "json list"
    by (induction xs) auto
  with JArr show ?thesis by (simp add: le_SucI)
next
  case (JObj d)
  have "sum_list (map (\<lambda>x. Suc (size (snd x))) d) \<le> size_list (size_prod (\<lambda>_. 0) size) d" for d :: dict
    by (induction d) (auto simp: size_prod_simp)
  with JObj show ?thesis by (simp add: comp_def le_SucI)
qed simp_all

function visit :: "nat \<Rightarrow> json list \<Rightarrow> exn + unit" where
  "visit count [] = Inr ()"
| "visit count (item # pending) =
     (if MAX_VALUE_NODES < count + 1 then Inl (ValueError (lit ''JSON-RPC message exceeds value limit''))
      else seqE (strict_item item) (visit (count + 1) (rev (children item) @ pending)))"
  by pat_completeness auto
termination
  by (relation "measure (\<lambda>(count, pending). sum_list (map (\<lambda>x. Suc (size x)) pending))")
    (use size_children in \<open>auto simp: rev_map [symmetric] less_Suc_eq_le\<close>)

definition valid_id :: "json \<Rightarrow> bool" where
  "valid_id v = (case v of JStr _ \<Rightarrow> True | JInt i \<Rightarrow> - (2 ^ 63) \<le> i \<and> i < 2 ^ 63 | _ \<Rightarrow> False)"

definition envelope :: "json \<Rightarrow> exn + dict" where
  "envelope v =
     (case v of
        JObj d \<Rightarrow>
          if has_key d (lit ''id'') \<and> \<not> valid_id (dget d (lit ''id''))
          then Inl (ValueError (lit ''id must be a string or signed 64-bit integer''))
          else if has_key d (lit ''method'') then
            (if is_str (dget d (lit ''method'')) then Inr d else Inl (ValueError (lit ''method must be a string'')))
          else if \<not> has_key d (lit ''id'') \<or> \<not> (has_key d (lit ''result'') \<or> has_key d (lit ''error''))
          then Inl (ValueError (lit ''expected request, notification, response, or error''))
          else Inr d
      | _ \<Rightarrow> Inl (ValueError (lit ''expected a JSON-RPC object'')))"

definition decode_message :: "pybytes \<Rightarrow> exn + dict" where
  "decode_message line =
     catchE
       (bindE (loads_bytes exec_pairs exec_nonfinite line) (\<lambda>v.
        seqE (visit 0 [v]) (envelope v)))
       is_value_error
       (\<lambda>_. rpc (- 32600) ''Malformed exec-server message'')"

section \<open>Field validation\<close>

datatype pykind = KStr | KBool | KInt | KDict | KList

fun has_kind :: "pykind \<Rightarrow> json \<Rightarrow> bool" where
  "has_kind KStr v = is_str v"
| "has_kind KBool v = is_bool v"
| "has_kind KInt v = is_int v"
| "has_kind KDict v = is_obj v"
| "has_kind KList v = is_arr v"

definition rpcs :: "int \<Rightarrow> pystr \<Rightarrow> exn" where
  "rpcs code message = RpcError code message None"

definition check_fields :: "json \<Rightarrow> pystr list \<Rightarrow> pystr list \<Rightarrow> exn + dict" where
  "check_fields params required optional =
     (case params of
        JObj d \<Rightarrow>
          let missing = sort (filter (\<lambda>k. \<not> has_key d k) required);
              unknown = sort (filter (\<lambda>k. k \<notin> set required \<and> k \<notin> set optional) (dkeys d)) in
          if missing \<noteq> []
          then Inl (rpcs (- 32602) (lit ''Missing required parameters: '' @ join_on (lit '', '') missing))
          else if unknown \<noteq> []
          then Inl (rpcs (- 32602) (lit ''Unsupported parameters: '' @ join_on (lit '', '') unknown))
          else Inr d
      | _ \<Rightarrow> Inl (rpc (- 32602) ''params must be an object''))"

definition check_type :: "json \<Rightarrow> pykind \<Rightarrow> pystr \<Rightarrow> exn + unit" where
  "check_type v kind name = raiseIf (\<not> has_kind kind v) (rpcs (- 32602) (name @ lit '' has an invalid type''))"

definition check_uri :: "json \<Rightarrow> pystr \<Rightarrow> exn + unit" where
  "check_uri v name =
     seqE (check_type v KStr name)
       (let bad = rpcs (- 32602) (name @ lit '' must be an absolute file URI'') in
        case urlsplit (str_of v) of
          None \<Rightarrow> Inl bad
        | Some parsed \<Rightarrow>
            raiseIf (scheme parsed \<noteq> lit ''file'' \<or> \<not> prefix (lit ''/'') (path parsed) \<or> query parsed \<noteq> []
                \<or> fragment parsed \<noteq> [] \<or> 0 \<in> set (str_of v)) bad)"

definition check_base64 :: "json \<Rightarrow> pystr \<Rightarrow> exn + unit" where
  "check_base64 v name =
     seqE (check_type v KStr name)
       (raiseIf (case b64decode (str_of v) of None \<Rightarrow> True | Some bs \<Rightarrow> b64encode bs \<noteq> str_of v)
          (rpcs (- 32602) (name @ lit '' must contain canonical base64'')))"

definition check_u64 :: "json \<Rightarrow> pystr \<Rightarrow> exn + unit" where
  "check_u64 v name =
     raiseIf (\<not> (is_int v \<and> 0 \<le> int_of v \<and> int_of v < 2 ^ 64))
       (rpcs (- 32602) (name @ lit '' must be an unsigned 64-bit integer''))"

definition check_root :: "json \<Rightarrow> exn + unit" where
  "check_root r =
     bindE (check_fields r [lit ''id'', lit ''path''] [lit ''sandbox'']) (\<lambda>d.
     seqE (check_type (dget d (lit ''id'')) KStr (lit ''root id''))
    (seqE (check_uri (dget d (lit ''path'')) (lit ''root path''))
    (if dget d (lit ''sandbox'') \<noteq> JNull then check_type (dget d (lit ''sandbox'')) KDict (lit ''root sandbox'')
     else Inr ())))"

text \<open>The required and optional fields of each operation.\<close>

definition schemas :: "(pystr \<times> pystr list \<times> pystr list) list" where
  "schemas = map (\<lambda>(m, r, p). (lit m, map lit r, map lit p))
     [(''process/start'', [''processId'', ''argv'', ''cwd'', ''env'', ''tty''],
         [''envPolicy'', ''shellSnapshot'', ''pipeStdin'', ''arg0'', ''sandbox'', ''enforceManagedNetwork'',
          ''managedNetwork'', ''networkProxy'']),
      (''process/read'', [''processId''], [''afterSeq'', ''maxBytes'', ''waitMs'']),
      (''process/write'', [''processId'', ''chunk'', ''writeId''], []),
      (''process/signal'', [''processId'', ''signal''], []),
      (''process/terminate'', [''processId''], []),
      (''fs/readFile'', [''path''], [''sandbox'', ''followSymlinks'']),
      (''fs/open'', [''path'', ''handleId''], [''sandbox'']),
      (''fs/readBlock'', [''handleId'', ''offset'', ''len''], []),
      (''fs/close'', [''handleId''], []),
      (''fs/writeFile'', [''path'', ''dataBase64''], [''sandbox'', ''followSymlinks'']),
      (''fs/createDirectory'', [''path''], [''sandbox'', ''recursive'', ''followSymlinks'']),
      (''fs/getMetadata'', [''path''], [''sandbox'', ''followSymlinks'']),
      (''fs/canonicalize'', [''path''], [''sandbox'']),
      (''fs/readDirectory'', [''path''], [''sandbox'']),
      (''fs/walk'', [''path'', ''options''], [''sandbox'']),
      (''fs/remove'', [''path''], [''sandbox'', ''recursive'', ''force'', ''followSymlinks'']),
      (''fs/copy'', [''sourcePath'', ''destinationPath'', ''recursive''], [''sandbox'']),
      (''capabilityRoots/discoverV1'', [''roots''], [])]"

definition check_param :: "pystr list \<Rightarrow> pystr \<times> json \<Rightarrow> exn + unit" where
  "check_param optional kv =
     (case kv of (key, v) \<Rightarrow>
      if v = JNull \<and> key \<in> set optional then
        raiseIf (key \<in> lit ` {''pipeStdin'', ''enforceManagedNetwork''}) (rpcs (- 32602) (key @ lit '' cannot be null''))
      else if key \<in> lit ` {''processId'', ''handleId'', ''writeId'', ''arg0'', ''signal''} then check_type v KStr key
      else if key \<in> lit ` {''path'', ''cwd'', ''sourcePath'', ''destinationPath''} then check_uri v key
      else if key \<in> lit ` {''tty'', ''pipeStdin'', ''recursive'', ''force'', ''followSymlinks'', ''enforceManagedNetwork''}
      then check_type v KBool key
      else if key \<in> lit ` {''offset'', ''len'', ''afterSeq'', ''maxBytes'', ''waitMs''} then check_u64 v key
      else if key \<in> lit ` {''sandbox'', ''managedNetwork'', ''networkProxy'', ''envPolicy'', ''shellSnapshot'', ''options''}
      then check_type v KDict key
      else if key \<in> lit ` {''chunk'', ''dataBase64''} then check_base64 v key
      else if key = lit ''argv'' then
        seqE (check_type v KList key) (eachE (\<lambda>a. check_type a KStr (lit ''argv item'')) (arr_of v))
      else if key = lit ''env'' then
        seqE (check_type v KDict key) (eachE (\<lambda>e. check_type e KStr (lit ''env value'')) (map snd (obj_of v)))
      else if key = lit ''roots'' then
        seqE (check_type v KList key) (eachE check_root (arr_of v))
      else Inr ())"

definition validate_operation :: "pystr \<Rightarrow> json \<Rightarrow> exn + unit" where
  "validate_operation method params =
     (case map_of schemas method of
        None \<Rightarrow> check_type params KDict (lit ''params'')
      | Some (required, optional) \<Rightarrow>
          bindE (check_fields params required optional) (\<lambda>d.
          seqE (eachE (check_param optional) d)
            (raiseIf (method = lit ''process/signal'' \<and> dget d (lit ''signal'') \<noteq> jlit ''interrupt'')
               (rpc (- 32602) ''Unsupported process signal''))))"

section \<open>The bounded traversal\<close>

fun nodes :: "json \<Rightarrow> nat" where
  "nodes (JArr xs) = Suc (sum_list (map nodes xs))"
| "nodes (JObj d) = Suc (sum_list (map (\<lambda>kv. nodes (snd kv)) d))"
| "nodes _ = 1"

fun strict_json :: "json \<Rightarrow> bool" where
  "strict_json (JStr s) = list_all is_scalar s"
| "strict_json (JFloat f) = (case f of FFinite _ _ \<Rightarrow> True | _ \<Rightarrow> False)"
| "strict_json (JArr xs) = list_all strict_json xs"
| "strict_json (JObj d) = list_all (\<lambda>kv. list_all is_scalar (fst kv) \<and> strict_json (snd kv)) d"
| "strict_json _ = True"

lemma nodes_children: "nodes v = Suc (sum_list (map nodes (children v)))"
  by (cases v) (simp_all add: comp_def)

lemma strict_children: "strict_json v \<longleftrightarrow> strict_item v = Inr () \<and> list_all strict_json (children v)"
  by (cases v) (auto simp: utf8_encode_def list_all_iff list_ex_iff split: pyfloat.splits)

lemma visit_Inr_iff:
  "visit count pending = Inr () \<longleftrightarrow>
     (pending = [] \<or> count + sum_list (map nodes pending) \<le> MAX_VALUE_NODES) \<and> list_all strict_json pending"
proof (induction count pending rule: visit.induct)
  case (2 count item pending)
  have "rev (children item) @ pending = [] \<longleftrightarrow> children item = [] \<and> pending = []" by auto
  moreover have "0 < nodes x" for x by (cases x) auto
  ultimately show ?case
    using 2 by (auto simp: seqE_Inr_iff strict_children [of item] nodes_children [of item] rev_map [symmetric])
qed simp

lemma visit_value: "visit 0 [v] = Inr () \<longleftrightarrow> nodes v \<le> MAX_VALUE_NODES \<and> strict_json v"
  by (simp add: visit_Inr_iff del: visit.simps)

section \<open>Decoding\<close>

lemma exec_pairs_Inr_iff: "exec_pairs ps = Inr v \<longleftrightarrow> v = JObj ps \<and> distinct (map fst ps)"
  by (auto simp: exec_pairs_def)

lemma loads_exec_wf:
  assumes "loads_bytes exec_pairs exec_nonfinite line = Inr v"
  shows "wf_json v"
proof -
  obtain n s r where "scan n exec_pairs exec_nonfinite AValue s = Inr (v, r)"
    using assms
    by (auto simp: loads_bytes_def loads_def bindE_Inr_iff simp del: scan.simps split: option.splits if_splits)
  then show ?thesis
    by (rule scan_wf_json [rotated 2]) (auto simp: exec_pairs_Inr_iff exec_nonfinite_def)
qed

lemma envelope_Inr_iff:
  "envelope v = Inr d \<longleftrightarrow> v = JObj d \<and>
     (has_key d (lit ''id'') \<longrightarrow> valid_id (dget d (lit ''id''))) \<and>
     (if has_key d (lit ''method'') then is_str (dget d (lit ''method''))
      else has_key d (lit ''id'') \<and> (has_key d (lit ''result'') \<or> has_key d (lit ''error'')))"
  by (cases v) (auto simp: envelope_def)

definition wf_message :: "dict \<Rightarrow> bool" where
  "wf_message d \<longleftrightarrow> wf_json (JObj d) \<and> strict_json (JObj d) \<and> nodes (JObj d) \<le> MAX_VALUE_NODES \<and>
     envelope (JObj d) = Inr d"

lemma decode_message_wf: "decode_message line = Inr d \<Longrightarrow> wf_message d"
  by (auto simp: decode_message_def bindE_Inr_iff seqE_Inr_iff visit_value envelope_Inr_iff wf_message_def
      simp del: wf_json.simps strict_json.simps nodes.simps visit.simps dest: loads_exec_wf)

lemma decode_encode_message:
  assumes "wf_message d" "float_free (JObj d)" "encode_message (JObj d) = Inr line"
  shows "decode_message line = Inr d"
proof -
  have "loads_bytes exec_pairs exec_nonfinite line = Inr (JObj d)"
    using assms unfolding encode_message_def wf_message_def
    by (intro loads_dump_bytes) (auto simp: exec_pairs_def simp del: wf_json.simps float_free.simps)
  moreover have "visit 0 [JObj d] = Inr ()" "envelope (JObj d) = Inr d"
    using assms(1) unfolding wf_message_def visit_value by blast+
  ultimately show ?thesis by (simp add: decode_message_def del: visit.simps)
qed

section \<open>Errors are responses\<close>

fun is_rpc_error :: "int \<Rightarrow> exn \<Rightarrow> bool" where
  "is_rpc_error c (RpcError code _ _) = (code = c)"
| "is_rpc_error c _ = False"

lemma is_rpc_error_rpcs [simp]: "is_rpc_error c (rpcs c m)"
  by (simp add: rpcs_def)

named_theorems rpc_raises "the validators raise nothing but invalid-parameter errors"

abbreviation invalid_params :: "exn \<Rightarrow> bool" where
  "invalid_params \<equiv> is_rpc_error (- 32602)"

lemma raises_check_type [rpc_raises]: "raises invalid_params (check_type v k n)"
  by (simp add: check_type_def raiseIf_def)

lemma raises_check_fields [rpc_raises]: "raises invalid_params (check_fields v r p)"
  by (cases v) (auto simp: check_fields_def Let_def)

lemma raises_check_uri [rpc_raises]: "raises invalid_params (check_uri v n)"
  unfolding check_uri_def Let_def
  by (intro raises_intros rpc_raises) (auto split: option.split intro!: raises_intros)

lemma raises_check_base64 [rpc_raises]: "raises invalid_params (check_base64 v n)"
  unfolding check_base64_def by (intro raises_intros rpc_raises) auto

lemma raises_check_u64 [rpc_raises]: "raises invalid_params (check_u64 v n)"
  unfolding check_u64_def by (intro raises_intros) auto

lemma raises_check_root [rpc_raises]: "raises invalid_params (check_root v)"
  unfolding check_root_def by (intro raises_intros rpc_raises; simp)

lemma raises_check_param [rpc_raises]: "raises invalid_params (check_param opt kv)"
proof (cases kv)
  case (Pair key v)
  then show ?thesis
    unfolding check_param_def Pair prod.case by (intro raises_intros rpc_raises; simp)
qed

lemma raises_validate_operation: "raises invalid_params (validate_operation m v)"
proof (cases "map_of schemas m")
  case None
  then show ?thesis by (simp add: validate_operation_def rpc_raises)
next
  case (Some ro)
  obtain r p where "ro = (r, p)" by (cases ro)
  with Some show ?thesis
    by (auto simp: validate_operation_def intro!: raises_intros rpc_raises)
qed

lemma fields_Inr_iff:
  "check_fields v required optional = Inr d \<longleftrightarrow>
     v = JObj d \<and> (\<forall>k \<in> set required. has_key d k) \<and> set (dkeys d) \<subseteq> set required \<union> set optional"
proof -
  have "sort xs = [] \<longleftrightarrow> xs = []" for xs :: "pystr list"
    by (metis set_empty set_sort)
  then show ?thesis by (cases v) (auto simp: check_fields_def Let_def filter_empty_conv)
qed

lemma check_base64_Inr_iff:
  "check_base64 v n = Inr () \<longleftrightarrow> (\<exists>bs. is_bytes bs \<and> v = JStr (b64encode bs))"
proof (cases v)
  case (JStr s)
  then show ?thesis
    using b64.canonical_iff [of s]
    by (auto simp: check_base64_def check_type_def seqE_Inr_iff split: option.splits)
qed (simp_all add: check_base64_def check_type_def)

lemma decode_message_errors:
  "raises (\<lambda>e. e = rpc (- 32600) ''Malformed exec-server message'') (decode_message line)"
proof -
  have "raises is_value_error (loads_bytes exec_pairs exec_nonfinite line)"
    by (rule raises_loads_bytes) (simp_all add: int_too_long_def exec_pairs_def exec_nonfinite_def)
  moreover have "raises is_value_error (strict_item v)" for v
    by (cases v) (auto intro!: raises_intros split: pyfloat.split)
  then have "raises is_value_error (visit n vs)" for n vs
    by (induction n vs rule: visit.induct) (auto intro!: raises_intros)
  moreover have "raises is_value_error (envelope v)" for v
    by (cases v) (auto simp: envelope_def)
  ultimately have "raises is_value_error (bindE (loads_bytes exec_pairs exec_nonfinite line)
      (\<lambda>v. seqE (visit 0 [v]) (envelope v)))"
    by (intro raises_intros)
  then show ?thesis by (auto simp: decode_message_def raises_def catchE_def split: sum.splits)
qed

section \<open>Properties\<close>

text \<open>C27: decoding a line gives an envelope that has no repeated key at any depth, only encodable text and
  finite numbers, at most \<open>MAX_VALUE_NODES\<close> values, a string or 64-bit id and a method or a response; every
  other line, whatever its bytes, gives the one error -32600.\<close>

theorem decode_message_total:
  "case decode_message line of
     Inl e \<Rightarrow> e = rpc (- 32600) ''Malformed exec-server message''
   | Inr d \<Rightarrow> wf_message d"
  using decode_message_errors [of line] decode_message_wf [of line]
  by (auto simp: raises_def split: sum.splits)

text \<open>C20: a well-formed message without floats is recovered from its encoded line.\<close>

theorem message_round_trip:
  assumes "wf_message d" and "float_free (JObj d)" and "encode_message (JObj d) = Inr line"
  shows "decode_message line = Inr d"
  using assms by (rule decode_encode_message)

definition example_message :: dict where
  "example_message = [(lit ''id'', JInt 7), (lit ''method'', jlit ''fs/close''),
     (lit ''params'', JObj [(lit ''handleId'', jlit ''h'')])]"

theorem message_round_trip_witness:
  "\<exists>line. encode_message (JObj example_message) = Inr line \<and> decode_message line = Inr example_message"
proof -
  have "encodable (JObj example_message)"
    by (simp add: example_message_def lit_def int_limit_def nat_digits.simps)
  from dump_bytes_total [OF this] obtain line where "encode_message (JObj example_message) = Inr line"
    by (auto simp: encode_message_def)
  moreover have "wf_message example_message"
    by (simp add: wf_message_def example_message_def envelope_Inr_iff valid_id_def MAX_VALUE_NODES_def lit_def)
  moreover have "float_free (JObj example_message)" by (simp add: example_message_def)
  ultimately show ?thesis using message_round_trip by blast
qed

text \<open>C28: validation of an operation either raises the invalid-parameters error -32602 or, for the
  operations with a schema, guarantees an object that has every required field and no field outside the
  schema.\<close>

theorem validate_operation_total:
  "case validate_operation name arg of
     Inl e \<Rightarrow> invalid_params e
   | Inr _ \<Rightarrow> (case map_of schemas name of
       None \<Rightarrow> is_obj arg
     | Some (required, optional) \<Rightarrow>
         (\<exists>d. arg = JObj d \<and> list_all (has_key d) required \<and> set (dkeys d) \<subseteq> set required \<union> set optional))"
  using raises_validate_operation [of name arg]
  by (auto simp: validate_operation_def check_type_def fields_Inr_iff bindE_Inr_iff list_all_iff
      split: sum.splits option.splits)

end
