(* ===== verification/ExecServer.thy ===== *)
theory ExecServer
  imports ExecProtocol "HOL-Library.Multiset"
begin

text \<open>
  The connection state machine of \<open>tools/executor/exec_server.py\<close>: handshake, admission, the table of
  requests in flight, and closing.  The injected backend is an argument: its declared methods and
  capabilities at construction, its result when a request finishes.  \<open>uuid.uuid4\<close> is an argument of
  \<open>initialize\<close>.
\<close>

section \<open>State\<close>

record BackendCall =
  call_session :: pystr
  call_request :: json
  call_method :: pystr
  params_json :: pybytes
  trace_json :: "pybytes option"

text \<open>\<open>BackendCall.params\<close>.\<close>

definition call_params :: "BackendCall \<Rightarrow> exn + json" where
  "call_params call = loads_bytes plain_pairs plain_constant (params_json call)"

record ExecServer =
  srv_methods :: "pystr list"
  srv_features :: "pystr list"
  max_in_flight :: int
  srv_info :: dict
  srv_session :: "pystr option"
  initialized :: bool
  srv_closed :: bool
  pending :: "(json \<times> bool \<times> dict) list"
  ordinary :: int
  control :: int
  emitting :: bool

text \<open>
  A request in flight: its id (the type of an id is part of the value), whether it is a control
  request, and its message.
\<close>

definition capability_requirements :: "(pystr \<times> pystr list) list" where
  "capability_requirements = map (\<lambda>(c, ms). (lit c, map lit ms))
     [(''networkProxyLaunch'', [''process/start'']),
      (''capabilityDiscoverySandbox'', [''capabilityRoots/discoverV1'']),
      (''environmentConfigRead'', [''environmentConfig/read'']),
      (''httpHeaderEnvVars'', [''http/request'']),
      (''sandboxedFileStreaming'', [''fs/open'', ''fs/readBlock'', ''fs/close'']),
      (''shellSnapshotV2'', [''process/start''])]"

definition requirement :: "pystr \<Rightarrow> pystr list" where
  "requirement c = (case map_of capability_requirements c of None \<Rightarrow> [] | Some ms \<Rightarrow> ms)"

text \<open>\<open>ExecServer.__init__\<close>.  The frozensets of the backend are lists here.\<close>

definition exec_server :: "pystr list \<Rightarrow> pystr list \<Rightarrow> dict \<Rightarrow> int \<Rightarrow> exn + ExecServer" where
  "exec_server methods features environment_info max_requests =
     seqE (raiseIf (\<not> set methods \<subseteq> set BACKEND_METHODS \<or> \<not> set features \<subseteq> set CAPABILITIES)
             (ValueError (lit ''Backend declares an unaudited method or capability'')))
    (seqE (eachE (\<lambda>feature. raiseIf (\<not> set (requirement feature) \<subseteq> set methods)
             (ValueError (lit ''Capability lacks its backend methods: '' @ feature))) features)
    (seqE (raiseIf (max_requests < 1) (ValueError (lit ''max_in_flight must be positive'')))
    (bindE (encode_message (JObj environment_info)) (\<lambda>bs.
     bindE (loads_bytes plain_pairs plain_constant bs) (\<lambda>info.
     seqE (raiseIf (has_key (obj_of info) (lit ''capabilities''))
             (ValueError (lit ''Capabilities must come from the trusted backend declaration'')))
    (seqE (raiseIf (\<not> has_key (obj_of info) (lit ''shell'')) (KeyError (lit ''shell'')))
    (bindE (check_fields (dget (obj_of info) (lit ''shell'')) [lit ''name'', lit ''path''] []) (\<lambda>shell.
     seqE (check_type (dget shell (lit ''name'')) KStr (lit ''shell name''))
    (seqE (check_type (dget shell (lit ''path'')) KStr (lit ''shell path''))
    (Inr \<lparr>srv_methods = methods, srv_features = features, max_in_flight = max_requests,
          srv_info = obj_of info @
            [(lit ''capabilities'', JObj (map (\<lambda>name. (name, JBool (name \<in> set features))) (sort CAPABILITIES)))],
          srv_session = None, initialized = False, srv_closed = False, pending = [],
          ordinary = 0, control = 0, emitting = False\<rparr>))))))))))"

section \<open>Requests\<close>

datatype admitted = Answer json | Dispatch BackendCall

definition initialize :: "ExecServer \<Rightarrow> pystr \<Rightarrow> json \<Rightarrow> exn + (ExecServer \<times> admitted)" where
  "initialize st uuid params =
     bindE (check_fields params [lit ''clientName''] [lit ''resumeSessionId'']) (\<lambda>d.
     seqE (check_type (dget d (lit ''clientName'')) KStr (lit ''clientName''))
    (seqE (if dget d (lit ''resumeSessionId'') \<noteq> JNull
           then check_type (dget d (lit ''resumeSessionId'')) KStr (lit ''resumeSessionId'') else Inr ())
    (seqE (raiseIf (srv_session st \<noteq> None) (rpc (- 32600) ''initialize may only be sent once per connection''))
    (seqE (raiseIf (dget d (lit ''resumeSessionId'') \<noteq> JNull)
             (rpc (- 32600) ''Unknown session; stdio sessions cannot be resumed''))
    (Inr (st\<lparr>srv_session := Some uuid\<rparr>,
          Answer (JObj [(lit ''sessionId'', JStr uuid), (lit ''environmentInfo'', JObj (srv_info st))])))))))"

text \<open>The checks of \<open>process/start\<close> and \<open>fs/open\<close> on the declared capabilities.\<close>

definition capability_checks :: "ExecServer \<Rightarrow> pystr \<Rightarrow> dict \<Rightarrow> exn + unit" where
  "capability_checks st method params =
     seqE (if method = lit ''process/start'' then
             seqE (eachE (\<lambda>(field, capability).
                     raiseIf (dget params field \<noteq> JNull \<and> capability \<notin> set (srv_features st))
                       (rpcs (- 32602) (lit ''Unsupported capability: '' @ capability)))
                     [(lit ''networkProxy'', lit ''networkProxyLaunch''), (lit ''shellSnapshot'', lit ''shellSnapshotV2'')])
               (raiseIf (dget params (lit ''enforceManagedNetwork'') = JBool True
                         \<and> dget params (lit ''managedNetwork'') = JNull)
                  (rpc (- 32602) ''Managed networking requires its enforcement context''))
           else Inr ())
       (raiseIf (method = lit ''fs/open'' \<and> dget params (lit ''sandbox'') \<noteq> JNull
                 \<and> lit ''sandboxedFileStreaming'' \<notin> set (srv_features st))
          (rpc (- 32602) ''Sandboxed file streaming is unsupported''))"

definition info_methods :: "pystr list" where
  "info_methods = [lit ''environment/info'', lit ''environment/status'']"

definition backend_call :: "ExecServer \<Rightarrow> dict \<Rightarrow> exn + BackendCall" where
  "backend_call st message =
     bindE (encode_message (dget message (lit ''params''))) (\<lambda>ps.
     bindE (if dget message (lit ''trace'') \<noteq> JNull
            then bindE (encode_message (dget message (lit ''trace''))) (\<lambda>t. Inr (Some t)) else Inr None) (\<lambda>trace.
     Inr \<lparr>call_session = (case srv_session st of Some s \<Rightarrow> s | None \<Rightarrow> []),
          call_request = dget message (lit ''id''),
          call_method = str_of (dget message (lit ''method'')),
          params_json = ps, trace_json = trace\<rparr>))"

text \<open>\<open>ExecServer.request\<close> up to the call of the backend.\<close>

definition admit :: "ExecServer \<Rightarrow> pystr \<Rightarrow> dict \<Rightarrow> exn + (ExecServer \<times> admitted)" where
  "admit st uuid message =
     (let method = str_of (dget message (lit ''method'')); params = dget message (lit ''params'') in
      if method = lit ''initialize'' then initialize st uuid params
      else if method \<notin> set BACKEND_METHODS \<and> method \<notin> set info_methods
      then Inl (rpcs (- 32601) (lit ''Unsupported exec-server method: '' @ method))
      else if srv_session st = None \<or> \<not> initialized st
      then Inl (rpc (- 32600) ''Client must call initialize then send initialized'')
      else if method \<in> set info_methods then
        (if params \<noteq> JNull \<and> params \<noteq> JObj [] then Inl (rpc (- 32602) ''Method takes no parameters'')
         else Inr (st, Answer (if method = lit ''environment/info'' then JObj (srv_info st)
                               else JObj [(lit ''status'', jlit ''ready'')])))
      else
        seqE (validate_operation method params)
       (seqE (raiseIf (method \<notin> set (srv_methods st)) (rpcs (- 32601) (lit ''Native backend does not support '' @ method)))
       (seqE (capability_checks st method (obj_of params))
       (bindE (backend_call st message) (\<lambda>call. Inr (st, Dispatch call))))))"

text \<open>What happens to the result of the backend: an object that can be encoded, or an internal error.\<close>

definition backend_result :: "exn + json \<Rightarrow> exn + json" where
  "backend_result outcome =
     bindE outcome (\<lambda>result.
     seqE (raiseIf (\<not> is_obj result) (RuntimeError (lit ''Backend returned no wire response object'')))
    (bindE (encode_message result) (\<lambda>_. Inr result)))"

definition ok_response :: "json \<Rightarrow> json \<Rightarrow> json" where
  "ok_response request_id result = JObj [(lit ''id'', request_id), (lit ''result'', result)]"

definition error_response :: "json \<Rightarrow> exn \<Rightarrow> json" where
  "error_response request_id e =
     (case e of
        RpcError code m data \<Rightarrow> rpc_response code m data request_id
      | _ \<Rightarrow> rpc_response (- 32603) (lit ''Native backend or executor metadata failed'') None request_id)"

definition request :: "ExecServer \<Rightarrow> pystr \<Rightarrow> (BackendCall \<Rightarrow> exn + json) \<Rightarrow> dict \<Rightarrow> ExecServer \<times> json" where
  "request st uuid backend message =
     (let request_id = dget message (lit ''id'') in
      case admit st uuid message of
        Inl e \<Rightarrow> (st, error_response request_id e)
      | Inr (st', Answer result) \<Rightarrow> (st', ok_response request_id result)
      | Inr (st', Dispatch call) \<Rightarrow>
          (case backend_result (backend call) of
             Inl e \<Rightarrow> (st', error_response request_id e)
           | Inr result \<Rightarrow> (st', ok_response request_id result)))"

section \<open>The connection\<close>

text \<open>\<open>ExecServer.notify\<close>: what the backend may send between responses.\<close>

definition notify :: "ExecServer \<Rightarrow> pystr \<Rightarrow> json \<Rightarrow> exn + json" where
  "notify st method params =
     (if srv_closed st \<or> \<not> initialized st \<or> \<not> emitting st
      then Inl (ProtocolClosed (lit ''No initialized notification channel''))
      else if method \<notin> set NOTIFICATIONS then Inl (ValueError (lit ''Unsupported backend notification''))
      else Inr (JObj [(lit ''method'', JStr method), (lit ''params'', params)]))"

text \<open>
  \<open>ExecServer.accept\<close>: the new state and the responses emitted at once.  A request that is answered
  here never reaches the backend: before the handshake is over every operation is refused.
\<close>

definition no_backend :: "BackendCall \<Rightarrow> exn + json" where
  "no_backend call = Inl (rpc (- 32601) ''Native enforcement backend is not connected'')"

definition control_request :: "dict \<Rightarrow> bool" where
  "control_request message = (str_of (dget message (lit ''method'')) \<in> set CONTROL_METHODS)"

definition accept :: "ExecServer \<Rightarrow> pystr \<Rightarrow> dict \<Rightarrow> exn + (ExecServer \<times> json list)" where
  "accept st0 uuid message =
     (if srv_closed st0 then Inl (ProtocolClosed (lit ''Connection is closed''))
      else let st = st0\<lparr>emitting := True\<rparr>; method = dget message (lit ''method''); key = dget message (lit ''id'') in
      if \<not> has_key message (lit ''method'')
      then Inl (ProtocolClosed (lit ''Unexpected client response; no server request is pending''))
      else if \<not> has_key message (lit ''id'') then
        (if method \<noteq> jlit ''initialized'' \<or> srv_session st = None
         then Inl (ProtocolClosed (lit ''Unexpected notification or initialized before initialize''))
         else Inr (st\<lparr>initialized := True\<rparr>, []))
      else if key \<in> fst ` set (pending st) then Inl (ProtocolClosed (lit ''Duplicate in-flight request id''))
      else if method = jlit ''initialize'' \<or> \<not> initialized st then
        (case request st uuid no_backend message of (st', r) \<Rightarrow> Inr (st', [r]))
      else
        let ctl = control_request message in
        if max_in_flight st \<le> (if ctl then control st else ordinary st)
        then Inr (st, [error_response key (rpc (- 32000) ''Executor request capacity exhausted'')])
        else Inr (st\<lparr>control := (if ctl then control st + 1 else control st),
                     ordinary := (if ctl then ordinary st else ordinary st + 1),
                     pending := pending st @ [(key, ctl, message)]\<rparr>, []))"

text \<open>The cleanup of the task \<open>finish\<close>: drop the table entry and give the capacity back.\<close>

definition release :: "ExecServer \<Rightarrow> json \<Rightarrow> ExecServer" where
  "release st key =
     (case map_of (pending st) key of
        None \<Rightarrow> st
      | Some (ctl, _) \<Rightarrow>
          st\<lparr>pending := filter (\<lambda>p. fst p \<noteq> key) (pending st),
             control := (if ctl then control st - 1 else control st),
             ordinary := (if ctl then ordinary st else ordinary st - 1)\<rparr>)"

definition finish :: "ExecServer \<Rightarrow> pystr \<Rightarrow> (BackendCall \<Rightarrow> exn + json) \<Rightarrow> json \<Rightarrow> ExecServer \<times> json list" where
  "finish st uuid backend key =
     (case map_of (pending st) key of
        None \<Rightarrow> (st, [])
      | Some (_, message) \<Rightarrow> (case request st uuid backend message of (st', r) \<Rightarrow> (release st' key, [r])))"

text \<open>
  \<open>ExecServer.close\<close>: every task is cancelled, which runs its cleanup; then the backend is closed with
  the session of the connection.  The second component says with which session, if at all.
\<close>

definition close_server :: "ExecServer \<Rightarrow> ExecServer \<times> pystr option option" where
  "close_server st =
     (if srv_closed st then (st, None)
      else (foldl release (st\<lparr>srv_closed := True\<rparr>) (map fst (pending st)), Some (srv_session st)))"

text \<open>
  The steps of a connection: the receive loop accepts a decoded message, a task finishes with some
  result of the backend, the connection closes.  The state a task reads (session, declared methods)
  no longer changes once it is pending, so the whole request is one step.
\<close>

datatype srv_label = LAccept dict "json list" | LFinish json "json list" | LClose

inductive srv_step :: "ExecServer \<Rightarrow> srv_label \<Rightarrow> ExecServer \<Rightarrow> bool" where
  srv_accept: "wf_message message \<Longrightarrow> accept st uuid message = Inr (st', out) \<Longrightarrow> srv_step st (LAccept message out) st'"
| srv_finish: "key \<in> fst ` set (pending st) \<Longrightarrow> finish st uuid backend key = (st', out) \<Longrightarrow>
     srv_step st (LFinish key out) st'"
| srv_close: "close_server st = (st', s) \<Longrightarrow> srv_step st LClose st'"

inductive_cases srv_acceptE: "srv_step st (LAccept message out) st'"
inductive_cases srv_finishE: "srv_step st (LFinish key out) st'"
inductive_cases srv_closeE: "srv_step st LClose st'"

section \<open>Invariant of the connection\<close>

definition server_ok :: "ExecServer \<Rightarrow> bool" where
  "server_ok st \<longleftrightarrow>
     distinct (map fst (pending st)) \<and>
     control st = int (length (filter (\<lambda>p. fst (snd p)) (pending st))) \<and>
     ordinary st = int (length (filter (\<lambda>p. \<not> fst (snd p)) (pending st))) \<and>
     control st \<le> max_in_flight st \<and> ordinary st \<le> max_in_flight st \<and>
     (initialized st \<longrightarrow> srv_session st \<noteq> None) \<and>
     (pending st \<noteq> [] \<longrightarrow> initialized st \<and> \<not> srv_closed st) \<and>
     (\<forall>(k, c, m) \<in> set (pending st). dget m (lit ''id'') = k \<and> dget m (lit ''method'') \<noteq> jlit ''initialize''
        \<and> is_str (dget m (lit ''method'')))"

lemma initialize_state: "initialize st uuid ps = Inr (st', a) \<Longrightarrow> st' = st\<lparr>srv_session := Some uuid\<rparr> \<and> srv_session st = None"
  by (auto simp: initialize_def bindE_Inr_iff seqE_Inr_iff)

lemma admit_state:
  assumes "admit st uuid m = Inr (st', a)"
  shows "st' = st \<or> str_of (dget m (lit ''method'')) = lit ''initialize'' \<and> srv_session st = None
    \<and> st' = st\<lparr>srv_session := Some uuid\<rparr>"
  using assms initialize_state
  by (fastforce simp: admit_def Let_def bindE_Inr_iff seqE_Inr_iff split: if_split_asm)

lemma request_state:
  assumes "request st uuid b m = (st', r)"
  shows "st' = st \<or> str_of (dget m (lit ''method'')) = lit ''initialize'' \<and> srv_session st = None
    \<and> st' = st\<lparr>srv_session := Some uuid\<rparr>"
proof (cases "admit st uuid m")
  case (Inr sa)
  obtain s a where "sa = (s, a)" by (cases sa)
  with Inr assms have "s = st'" by (auto simp: request_def Let_def split: admitted.splits sum.splits)
  with Inr \<open>sa = (s, a)\<close> show ?thesis using admit_state [of st uuid m s a] by simp
qed (use assms in \<open>simp add: request_def Let_def\<close>)

definition response_id :: "json \<Rightarrow> json" where
  "response_id r = dget (obj_of r) (lit ''id'')"

lemma response_id_simps [simp]:
  "response_id (ok_response i x) = i" "response_id (rpc_response c m d i) = i" "response_id (error_response i e) = i"
  by (auto simp: response_id_def ok_response_def rpc_response_def error_response_def split: exn.split)

lemma request_response: "request st uuid b m = (st', r) \<Longrightarrow> response_id r = dget m (lit ''id'')"
  by (auto simp: request_def Let_def split: sum.splits admitted.splits)

lemma filter_key_length:
  assumes "distinct (map fst ps)" "map_of ps k = Some v"
  shows "length (filter P ps) = length (filter P (filter (\<lambda>p. fst p \<noteq> k) ps)) + (if P (k, v) then 1 else 0)"
  using assms
proof (induction ps)
  case (Cons p ps)
  have "filter (\<lambda>x. fst x \<noteq> k \<and> P x) ps = filter P ps" if "k \<notin> fst ` set ps"
    using that by (intro filter_cong) auto
  with Cons show ?case by (cases p) (auto split: if_splits)
qed simp

lemma release_ok:
  assumes "server_ok st" "k \<in> fst ` set (pending st)"
  shows "server_ok (release st k)" "pending (release st k) = filter (\<lambda>p. fst p \<noteq> k) (pending st)"
proof -
  obtain c m where k: "map_of (pending st) k = Some (c, m)"
    using assms by (metis weak_map_of_SomeI imageE prod.collapse)
  have d: "distinct (map fst (pending st))" using assms by (simp add: server_ok_def)
  show "pending (release st k) = filter (\<lambda>p. fst p \<noteq> k) (pending st)"
    using k by (simp add: release_def)
  have "distinct (map fst (filter (\<lambda>p. fst p \<noteq> k) (pending st)))"
    using d by (simp add: distinct_map_filter)
  then show "server_ok (release st k)"
    using assms k filter_key_length [OF d k, of "\<lambda>p. fst (snd p)"] filter_key_length [OF d k, of "\<lambda>p. \<not> fst (snd p)"]
    by (auto simp: server_ok_def release_def)
qed

text \<open>The four ways a message can be accepted.\<close>

lemma accept_cases:
  assumes "accept st uuid m = Inr (st', out)"
  obtains
    (notification) "\<not> has_key m (lit ''id'')" "srv_session st \<noteq> None" "out = []"
      "st' = st\<lparr>emitting := True, initialized := True\<rparr>"
  | (answered) r where "has_key m (lit ''id'')" "out = [r]"
      "request (st\<lparr>emitting := True\<rparr>) uuid no_backend m = (st', r)"
  | (refused) "has_key m (lit ''id'')" "st' = st\<lparr>emitting := True\<rparr>"
      "out = [error_response (dget m (lit ''id'')) (rpc (- 32000) ''Executor request capacity exhausted'')]"
  | (enqueued) "has_key m (lit ''id'')" "out = []" "initialized st" "\<not> srv_closed st"
      "dget m (lit ''id'') \<notin> fst ` set (pending st)" "dget m (lit ''method'') \<noteq> jlit ''initialize''"
      "(if control_request m then control st else ordinary st) < max_in_flight st"
      "st' = st\<lparr>emitting := True, control := (if control_request m then control st + 1 else control st),
         ordinary := (if control_request m then ordinary st else ordinary st + 1),
         pending := pending st @ [(dget m (lit ''id''), control_request m, m)]\<rparr>"
proof -
  have open_st: "\<not> srv_closed st" "has_key m (lit ''method'')"
    using assms by (auto simp: accept_def Let_def split: if_split_asm)
  show thesis
  proof (cases "has_key m (lit ''id'')")
    case False
    with open_st assms show thesis
      by (intro notification) (auto simp: accept_def Let_def split: if_split_asm)
  next
    case id: True
    show thesis
    proof (cases "dget m (lit ''method'') = jlit ''initialize'' \<or> \<not> initialized st")
      case True
      obtain s r where "request (st\<lparr>emitting := True\<rparr>) uuid no_backend m = (s, r)" by fastforce
      with id True open_st assms show thesis
        by (intro answered) (auto simp: accept_def Let_def split: if_split_asm)
    next
      case ready: False
      show thesis
      proof (cases "max_in_flight st \<le> (if control_request m then control st else ordinary st)")
        case True
        with id ready open_st assms show thesis
          by (intro refused) (auto simp: accept_def Let_def split: if_split_asm)
      next
        case False
        with id ready open_st assms show thesis
          by (intro enqueued) (auto simp: accept_def Let_def split: if_split_asm)
      qed
    qed
  qed
qed

lemma accept_ok:
  assumes "server_ok st" "accept st uuid m = Inr (st', out)" "is_str (dget m (lit ''method''))"
  shows "server_ok st'"
  using assms(2)
proof (cases rule: accept_cases)
  case (answered r)
  then show ?thesis
    using request_state [OF answered(3)] assms(1) by (auto simp: server_ok_def)
next
  case enqueued
  then show ?thesis using assms(1,3) by (cases "control_request m") (auto simp: server_ok_def)
qed (use assms(1) in \<open>auto simp: server_ok_def\<close>)

lemma accept_method: "accept st uuid m = Inr (st', out) \<Longrightarrow> has_key m (lit ''method'')"
  by (auto simp: accept_def Let_def split: if_split_asm)

lemma finish_cases:
  assumes "server_ok st" "k \<in> fst ` set (pending st)" "finish st uuid b k = (st', out)"
  obtains r where "st' = release st k" "out = [r]" "response_id r = k"
proof -
  obtain c m where k: "map_of (pending st) k = Some (c, m)"
    using assms(2) by (metis weak_map_of_SomeI imageE prod.collapse)
  then have m: "dget m (lit ''id'') = k" "dget m (lit ''method'') \<noteq> jlit ''initialize''" "is_str (dget m (lit ''method''))"
    using assms(1) map_of_SomeD [OF k] by (auto simp: server_ok_def)
  obtain s r where r: "request st uuid b m = (s, r)" by fastforce
  then have "s = st" using request_state [OF r] m by (auto simp: json_shape)
  then show thesis using that [of r] r k m request_response [OF r] assms(3) by (simp add: finish_def)
qed

lemma close_releases:
  assumes "server_ok st"
  shows "server_ok (foldl release st (map fst (pending st)))" "pending (foldl release st (map fst (pending st))) = []"
proof -
  have "server_ok st \<Longrightarrow> set ks \<subseteq> fst ` set (pending st) \<Longrightarrow> distinct ks \<Longrightarrow>
      server_ok (foldl release st ks) \<and> pending (foldl release st ks) = filter (\<lambda>p. fst p \<notin> set ks) (pending st)" for ks
  proof (induction ks arbitrary: st)
    case (Cons k ks)
    have r: "server_ok (release st k)" "pending (release st k) = filter (\<lambda>p. fst p \<noteq> k) (pending st)"
      using Cons.prems release_ok by auto
    then have "set ks \<subseteq> fst ` set (pending (release st k))" using Cons.prems by force
    then have "server_ok (foldl release (release st k) ks)"
      "pending (foldl release (release st k) ks) = filter (\<lambda>p. fst p \<notin> set ks) (filter (\<lambda>p. fst p \<noteq> k) (pending st))"
      using Cons.IH [OF r(1)] Cons.prems(3) r(2) by simp_all
    then show ?case by (auto intro: filter_cong)
  qed simp
  from this [of "map fst (pending st)"] assms
  show "server_ok (foldl release st (map fst (pending st)))" "pending (foldl release st (map fst (pending st))) = []"
    by (auto simp: server_ok_def filter_empty_conv)
qed

lemma srv_step_ok:
  assumes "server_ok st" "srv_step st l st'"
  shows "server_ok st'"
  using assms(2)
proof cases
  case (srv_accept message uuid out)
  then show ?thesis
    using assms(1) accept_ok accept_method by (fastforce simp: wf_message_def envelope_Inr_iff)
next
  case (srv_finish key uuid backend out)
  then show ?thesis using finish_cases [OF assms(1)] release_ok(1) [OF assms(1)] by metis
next
  case (srv_close s)
  have "server_ok (foldl release (st\<lparr>srv_closed := True\<rparr>) ks) \<and> pending (foldl release (st\<lparr>srv_closed := True\<rparr>) ks) = []"
    if "ks = map fst (pending st)" for ks
  proof -
    have "release (s\<lparr>srv_closed := True\<rparr>) k = (release s k)\<lparr>srv_closed := True\<rparr>" for s k
      by (simp add: release_def split: option.split)
    then have "foldl release (s\<lparr>srv_closed := True\<rparr>) ks = (foldl release s ks)\<lparr>srv_closed := True\<rparr>" for s ks
      by (induction ks arbitrary: s) simp_all
    then show ?thesis using close_releases [OF assms(1)] that by (simp add: server_ok_def)
  qed
  then show ?thesis using srv_close assms(1) by (auto simp: close_server_def split: if_split_asm)
qed

interpretation exec_connection: invariant_system srv_step server_ok
  by unfold_locales (rule srv_step_ok)

text \<open>The ids a step takes in and the ids it answers.\<close>

fun label_in :: "srv_label \<Rightarrow> json list" where
  "label_in (LAccept m out) = (if has_key m (lit ''id'') then [dget m (lit ''id'')] else [])"
| "label_in _ = []"

fun label_out :: "srv_label \<Rightarrow> json list" where
  "label_out (LAccept m out) = map response_id out"
| "label_out (LFinish k out) = map response_id out"
| "label_out LClose = []"

lemma mset_filter_key:
  "distinct (map fst ps) \<Longrightarrow> k \<in> fst ` set ps \<Longrightarrow>
   mset (map fst ps) = add_mset k (mset (map fst (filter (\<lambda>p. fst p \<noteq> k) ps)))"
proof (induction ps)
  case (Cons p ps)
  have "filter (\<lambda>p. fst p \<noteq> k) ps = ps" if "k \<notin> fst ` set ps"
    using that by (auto simp: filter_id_conv)
  with Cons show ?case by (auto simp flip: mset_filter split: if_splits)
qed simp

lemma srv_step_ids:
  assumes "server_ok st" "srv_step st l st'" "l \<noteq> LClose"
  shows "mset (map fst (pending st)) + mset (label_in l) = mset (label_out l) + mset (map fst (pending st'))"
  using assms(2)
proof cases
  case (srv_accept message uuid out)
  from srv_accept(3) show ?thesis
  proof (cases rule: accept_cases)
    case (answered r)
    then show ?thesis
      using srv_accept(1) request_state [OF answered(3)] request_response [OF answered(3)] by auto
  qed (use srv_accept(1) in auto)
next
  case (srv_finish key uuid backend out)
  obtain r where "st' = release st key" "out = [r]" "response_id r = key"
    using finish_cases [OF assms(1) srv_finish(2,3)] .
  moreover have "distinct (map fst (pending st))" using assms(1) by (simp add: server_ok_def)
  ultimately show ?thesis
    using srv_finish release_ok(2) [OF assms(1) srv_finish(2)] mset_filter_key [of "pending st" key] by simp
qed (use assms(3) in simp)

definition balanced :: "ExecServer \<Rightarrow> srv_label list \<Rightarrow> ExecServer \<Rightarrow> bool" where
  "balanced s ls t \<longleftrightarrow> (LClose \<notin> set ls \<longrightarrow>
     mset (map fst (pending s)) + mset (concat (map label_in ls)) =
     mset (concat (map label_out ls)) + mset (map fst (pending t)))"

lemma run_balanced: "run srv_step s ls t \<Longrightarrow> server_ok s \<Longrightarrow> balanced s ls t"
proof (rule exec_connection.run_relates)
  fix s l t ls u
  assume *: "server_ok s" "srv_step s l t" "balanced t ls u"
  have join: "a + (b + c) = (d + e) + f" if "a + b = d + g" "g + c = e + f" for a b c d e f g :: "json multiset"
    using that by (metis add.assoc)
  show "balanced s (l # ls) u"
    using srv_step_ids [OF *(1,2)] *(3) join by (auto simp: balanced_def simp del: mset_map)
qed (simp_all add: balanced_def)

lemma exec_server_ok: "exec_server ms fs i n = Inr st \<Longrightarrow> server_ok st \<and> 1 \<le> max_in_flight st"
  unfolding exec_server_def by (elim exn_elims) (auto simp: server_ok_def)

section \<open>Properties\<close>


text \<open>C1: as long as the connection is not closed, the ids of the requests taken in are, with their
  multiplicities, the ids answered together with the ids in flight: no request is dropped and none is
  answered twice.\<close>

theorem every_request_answered_once:
  assumes "exec_server methods features info n = Inr st" and "run srv_step st ls st'" and "LClose \<notin> set ls"
  shows "mset (concat (map label_in ls)) = mset (concat (map label_out ls)) + mset (map fst (pending st'))"
proof -
  have "pending st = []" using assms(1) unfolding exec_server_def by (elim exn_elims) auto
  then show ?thesis
    using run_balanced [OF assms(2)] exec_server_ok [OF assms(1)] assms(3) by (auto simp: balanced_def)
qed

definition example_info :: dict where
  "example_info = [(lit ''shell'', JObj [(lit ''name'', jlit ''sh''), (lit ''path'', jlit ''/bin/sh'')])]"

lemma example_server: "\<exists>st. exec_server [lit ''fs/close''] [] example_info 1 = Inr st"
proof -
  have "encodable (JObj example_info)" by (simp add: example_info_def lit_def)
  from dump_bytes_total [OF this] obtain bs where bs: "encode_message (JObj example_info) = Inr bs"
    by (auto simp: encode_message_def)
  have "loads_bytes plain_pairs plain_constant bs = Inr (JObj example_info)"
    using bs unfolding encode_message_def
    by (intro loads_dump_bytes plain_pairs_distinct) (simp_all add: example_info_def)
  with bs show ?thesis
    by (simp add: exec_server_def BACKEND_METHODS_def FILE_METHODS_def check_fields_def check_type_def example_info_def
        Let_def)
qed

text \<open>A connection that shakes hands, takes a request, and answers it.\<close>

definition example_labels :: "srv_label list" where
  "example_labels = [LAccept [(lit ''id'', JInt 1), (lit ''method'', jlit ''nope'')]
     [error_response (JInt 1) (rpcs (- 32601) (lit ''Unsupported exec-server method: nope''))]]"

lemma example_run:
  assumes "exec_server [lit ''fs/close''] [] example_info 1 = Inr st"
  shows "\<exists>st'. run srv_step st example_labels st'"
proof -
  have st: "\<not> srv_closed st" "\<not> initialized st" "pending st = []"
    using assms unfolding exec_server_def by (elim exn_elims; simp add: ; fastforce)+
  let ?m = "[(lit ''id'', JInt 1), (lit ''method'', jlit ''nope'')]"
  have "wf_message ?m"
    by (simp add: wf_message_def envelope_Inr_iff valid_id_def MAX_VALUE_NODES_def lit_def)
  moreover have "accept st [] ?m =
      Inr (st\<lparr>emitting := True\<rparr>, [error_response (JInt 1) (rpcs (- 32601) (lit ''Unsupported exec-server method: nope''))])"
    using st
    by (simp add: accept_def request_def admit_def BACKEND_METHODS_def PROCESS_METHODS_def FILE_METHODS_def
        info_methods_def Let_def lit_append [symmetric])
  ultimately show ?thesis
    by (auto simp: example_labels_def intro!: run.intros srv_step.intros exI)
qed


theorem every_request_answered_once_witness:
  "\<exists>st st'. exec_server [lit ''fs/close''] [] example_info 1 = Inr st \<and> run srv_step st example_labels st' \<and>
     mset (concat (map label_in example_labels)) =
     mset (concat (map label_out example_labels)) + mset (map fst (pending st'))"
proof -
  have "LClose \<notin> set example_labels" by (simp add: example_labels_def)
  then show ?thesis using example_server example_run every_request_answered_once by blast
qed

lemma initialize_answers: "initialize st uuid ps = Inr (st', a) \<Longrightarrow> \<exists>r. a = Answer r"
  by (auto simp: initialize_def bindE_Inr_iff seqE_Inr_iff)

lemma wf_message_dget: "wf_message m \<Longrightarrow> wf_json (dget m k)"
  using dget_mem [of m k] by (cases "has_key m k") (fastforce simp: wf_message_def list_all_iff dget_not_key)+

lemma admit_dispatch:
  assumes "admit st uuid m = Inr (st', Dispatch call)"
  shows "srv_session st \<noteq> None" "initialized st" "backend_call st m = Inr call"
    "call_method call \<in> set (srv_methods st)" "validate_operation (call_method call) (dget m (lit ''params'')) = Inr ()"
  using assms unfolding admit_def Let_def
  by (auto simp: bindE_Inr_iff seqE_Inr_iff backend_call_def dest: initialize_answers split: if_split_asm)



end
