(* ===== verification/ExecTransport.thy ===== *)
theory ExecTransport
  imports ExecServer
begin

text \<open>
  \<open>serve_stdio\<close> of \<open>tools/executor/exec_server.py\<close>: newline-delimited frames, the bounded output queue and
  its writer, and one turn of the receive loop.  The pipes are arguments: the bytes a reader has left,
  and the sizes the operating system reports for each write.
\<close>

section \<open>Reading frames\<close>

text \<open>\<open>reader.readline(n)\<close> on a stream that holds \<open>s\<close>: the line with its newline, cut at \<open>n\<close> bytes.\<close>

fun readline :: "nat \<Rightarrow> pybytes \<Rightarrow> pybytes \<times> pybytes" where
  "readline 0 s = ([], s)"
| "readline (Suc n) [] = ([], [])"
| "readline (Suc n) (c # s) = (if c = 10 then ([10], s) else apfst (Cons c) (readline n s))"

definition ends_with :: "nat \<Rightarrow> pybytes \<Rightarrow> bool" where
  "ends_with c s = (s \<noteq> [] \<and> last s = c)"

definition read_frame :: "nat \<Rightarrow> pybytes \<Rightarrow> (exn + pybytes option) \<times> pybytes" where
  "read_frame limit s0 =
     (let (line0, s1) = readline (limit + 1) s0 in
      if line0 = [] then (Inr None, s1)
      else
        let (line, s2) =
          (if ends_with 10 line0 then
             (let l = butlast line0 in (if ends_with 13 l then butlast l else l, s1))
           else if limit < length line0 \<and> ends_with 13 line0 then
             (if take 1 s1 = [10] then (butlast line0, drop 1 s1) else (line0, drop 1 s1))
           else (line0, s1))
        in if limit < length line then (Inl (ProtocolClosed (lit ''Input exceeds stdio size limit'')), s2)
           else (Inr (Some line), s2))"

section \<open>The output queue\<close>

record transport =
  failure :: bool
  outgoing :: "pybytes list"
  writing :: "pybytes option"
  outstanding_bytes :: int

definition new_transport :: transport where
  "new_transport = \<lparr>failure = False, outgoing = [], writing = None, outstanding_bytes = 0\<rparr>"

definition queue_capacity :: nat where
  "queue_capacity = 128"

definition emit_failed :: exn where
  "emit_failed = ProtocolClosed (lit ''Output channel failed'')"

text \<open>
  The local function \<open>emit\<close>.  Whatever goes wrong sets \<open>failure\<close> and raises \<open>ProtocolClosed\<close>, so the new
  state is given with the outcome.
\<close>

definition emit :: "nat \<Rightarrow> transport \<Rightarrow> json \<Rightarrow> transport \<times> (exn + unit)" where
  "emit max_bytes tr message =
     (let failed = (tr\<lparr>failure := True\<rparr>, Inl emit_failed) in
      if failure tr then failed
      else case encode_message message of
        Inl e \<Rightarrow> failed
      | Inr bs \<Rightarrow>
          if max_bytes < length bs then failed
          else let data = bs @ [10] in
            if int max_bytes + 1 < outstanding_bytes tr + int (length data) then failed
            else if queue_capacity \<le> length (outgoing tr) then failed
            else (tr\<lparr>outgoing := outgoing tr @ [data],
                     outstanding_bytes := outstanding_bytes tr + int (length data)\<rparr>, Inr ()))"

text \<open>
  \<open>write\<close>: the sizes are what \<open>writer.write\<close> returns, one per call; \<open>None\<close> is a value that is not an
  integer, or an exception.  The result is what has been written and whether all of it was.
\<close>

fun write_all :: "nat option list \<Rightarrow> pybytes \<Rightarrow> pybytes \<times> bool" where
  "write_all sizes [] = ([], True)"
| "write_all [] remaining = ([], False)"
| "write_all (w # ws) remaining =
     (case w of
        None \<Rightarrow> ([], False)
      | Some n \<Rightarrow>
          if 0 < n \<and> n \<le> length remaining
          then apfst (append (take n remaining)) (write_all ws (drop n remaining))
          else ([], False))"

text \<open>\<open>write_responses\<close>: take the next data from the queue; then its write ends, well or not.\<close>

definition writer_get :: "transport \<Rightarrow> transport option" where
  "writer_get tr =
     (case (writing tr, outgoing tr) of
        (None, data # rest) \<Rightarrow> Some (tr\<lparr>writing := Some data, outgoing := rest\<rparr>)
      | _ \<Rightarrow> None)"

definition writer_done :: "transport \<Rightarrow> bool \<Rightarrow> transport option" where
  "writer_done tr ok =
     (case writing tr of
        None \<Rightarrow> None
      | Some data \<Rightarrow> Some (tr\<lparr>writing := None, failure := (failure tr \<or> \<not> ok),
          outstanding_bytes := outstanding_bytes tr - int (length data)\<rparr>))"

section \<open>The receive loop\<close>

definition blank :: "pybytes \<Rightarrow> bool" where
  "blank line = list_all (\<lambda>c. c = 32 \<or> 9 \<le> c \<and> c \<le> 13) line"

fun emit_all :: "nat \<Rightarrow> transport \<Rightarrow> json list \<Rightarrow> transport \<times> (exn + unit)" where
  "emit_all n tr [] = (tr, Inr ())"
| "emit_all n tr (m # ms) =
     (case emit n tr m of (tr', Inl e) \<Rightarrow> (tr', Inl e) | (tr', Inr _) \<Rightarrow> emit_all n tr' ms)"

text \<open>One line: the state after it, and the exception that ends the loop, if any.\<close>

definition receive_line ::
  "nat \<Rightarrow> ExecServer \<Rightarrow> transport \<Rightarrow> pystr \<Rightarrow> pybytes \<Rightarrow> ExecServer \<times> transport \<times> (exn + unit)" where
  "receive_line n st tr uuid line =
     (if blank line then (st, tr, Inr ())
      else case decode_message line of
        Inl e \<Rightarrow> (case emit n tr (error_response (JInt (- 1)) e) of (tr', r) \<Rightarrow> (st, tr', r))
      | Inr message \<Rightarrow>
          (case accept st uuid message of
             Inl e \<Rightarrow> (st, tr, Inl e)
           | Inr (st', out) \<Rightarrow> (case emit_all n tr out of (tr', r) \<Rightarrow> (st', tr', r))))"

section \<open>Frames\<close>

lemma readline_line: "10 \<notin> set line \<Longrightarrow> length line < n \<Longrightarrow> readline n (line @ 10 # rest) = (line @ [10], rest)"
proof (induction line arbitrary: n)
  case Nil
  then show ?case by (cases n) auto
next
  case (Cons c line)
  then show ?case by (cases n) auto
qed

lemma readline_length: "readline n s = (l, r) \<Longrightarrow> length l \<le> n"
  by (induction n s arbitrary: l r rule: readline.induct) (auto split: if_splits prod.splits simp: apfst_def map_prod_def)

lemma read_frame_line:
  assumes "10 \<notin> set line" "13 \<notin> set line" "length line \<le> limit"
  shows "read_frame limit (line @ 10 # rest) = (Inr (Some line), rest)"
proof -
  have "readline (limit + 1) (line @ 10 # rest) = (line @ [10], rest)"
    using assms by (intro readline_line) auto
  moreover have "\<not> ends_with 13 line" using assms(2) by (auto simp: ends_with_def dest: last_in_set)
  ultimately show ?thesis using assms(3) by (auto simp: read_frame_def ends_with_def)
qed

lemma read_frame_bound: "read_frame limit s = (Inr (Some line), r) \<Longrightarrow> length line \<le> limit"
  by (auto simp: read_frame_def Let_def split: if_splits prod.splits)

lemma dump_bytes_printable:
  assumes "dump_bytes v = Inr bs" "float_free v" "b \<in> set bs"
  shows "32 \<le> b"
proof -
  obtain t where t: "dumps False v = Inr t" "utf8_encode t = Some bs"
    using assms(1) by (auto simp: dump_bytes_def bindE_Inr_iff split: option.splits)
  then obtain c where "c \<in> set t" "b \<in> set (utf8_char c)"
    using assms(3) by (auto simp: utf8_encode_def split: if_splits)
  with dumps_printable [OF t(1) assms(2)] show ?thesis
    by (fastforce simp: utf8_char_def split: if_splits)
qed

lemma read_frame_encoded:
  assumes "encode_message v = Inr bs" "float_free v" "length bs \<le> limit"
  shows "read_frame limit (bs @ 10 # rest) = (Inr (Some bs), rest)"
  using assms dump_bytes_printable [of v bs 10] dump_bytes_printable [of v bs 13]
  by (intro read_frame_line) (auto simp: encode_message_def)

section \<open>The queue stays within its budget\<close>

definition queued_bytes :: "transport \<Rightarrow> int" where
  "queued_bytes tr = int (sum_list (map length (outgoing tr))) +
     (case writing tr of None \<Rightarrow> 0 | Some d \<Rightarrow> int (length d))"

definition transport_ok :: "nat \<Rightarrow> transport \<Rightarrow> bool" where
  "transport_ok n tr \<longleftrightarrow> outstanding_bytes tr = queued_bytes tr \<and> outstanding_bytes tr \<le> int n + 1
     \<and> length (outgoing tr) \<le> queue_capacity"

lemma emit_ok: "transport_ok n tr \<Longrightarrow> emit n tr m = (tr', r) \<Longrightarrow> transport_ok n tr'"
  by (auto simp: emit_def Let_def transport_ok_def queued_bytes_def split: if_splits sum.splits)

lemma emit_all_ok: "transport_ok n tr \<Longrightarrow> emit_all n tr ms = (tr', r) \<Longrightarrow> transport_ok n tr'"
proof (induction ms arbitrary: tr)
  case (Cons m ms)
  then show ?case using emit_ok [OF Cons.prems(1)] by (auto split: prod.splits sum.splits)
qed simp

lemma writer_get_ok: "transport_ok n tr \<Longrightarrow> writer_get tr = Some tr' \<Longrightarrow> transport_ok n tr'"
  by (auto simp: writer_get_def transport_ok_def queued_bytes_def split: option.splits list.splits)

lemma writer_done_ok: "transport_ok n tr \<Longrightarrow> writer_done tr ok = Some tr' \<Longrightarrow> transport_ok n tr'"
  by (auto simp: writer_done_def transport_ok_def queued_bytes_def split: option.splits)

text \<open>The steps of a connection with its transport.\<close>

record stdio =
  server :: ExecServer
  channel :: transport

datatype stdio_label = Line pystr pybytes | Completion json | Fetch | Written bool

inductive stdio_step :: "nat \<Rightarrow> stdio \<Rightarrow> stdio_label \<Rightarrow> stdio \<Rightarrow> bool" for n where
  line: "receive_line n (server s) (channel s) uuid l = (st, tr, r) \<Longrightarrow>
     stdio_step n s (Line uuid l) (s\<lparr>server := st, channel := tr\<rparr>)"
| completion: "key \<in> fst ` set (pending (server s)) \<Longrightarrow> finish (server s) uuid backend key = (st, out) \<Longrightarrow>
     emit_all n (channel s) out = (tr, r) \<Longrightarrow> stdio_step n s (Completion key) (s\<lparr>server := st, channel := tr\<rparr>)"
| fetch: "writer_get (channel s) = Some tr \<Longrightarrow> stdio_step n s Fetch (s\<lparr>channel := tr\<rparr>)"
| written: "writer_done (channel s) ok = Some tr \<Longrightarrow> stdio_step n s (Written ok) (s\<lparr>channel := tr\<rparr>)"

definition stdio_ok :: "nat \<Rightarrow> stdio \<Rightarrow> bool" where
  "stdio_ok n s \<longleftrightarrow> server_ok (server s) \<and> transport_ok n (channel s)"

lemma receive_line_ok:
  assumes "server_ok st" "transport_ok n tr" "receive_line n st tr uuid l = (st', tr', r)"
  shows "server_ok st' \<and> transport_ok n tr'"
proof (cases "blank l")
  case False
  show ?thesis
  proof (cases "decode_message l")
    case (Inl e)
    then show ?thesis using assms False emit_ok [OF assms(2)] by (auto simp: receive_line_def split: prod.splits)
  next
    case (Inr m)
    then have m: "wf_message m" by (rule decode_message_wf)
    show ?thesis
    proof (cases "accept st uuid m")
      case (Inl e)
      then show ?thesis using assms False Inr by (simp add: receive_line_def)
    next
      case (Inr so)
      obtain s out where "so = (s, out)" by (cases so)
      with Inr m have "srv_step st (LAccept m out) s" by (auto intro: srv_step.intros)
      then show ?thesis
        using assms False Inr \<open>so = (s, out)\<close> \<open>decode_message l = Inr m\<close> srv_step_ok [OF assms(1)]
          emit_all_ok [OF assms(2)]
        by (auto simp: receive_line_def split: prod.splits)
    qed
  qed
qed (use assms in \<open>simp add: receive_line_def\<close>)

lemma stdio_step_ok:
  assumes "stdio_ok n s" "stdio_step n s l t"
  shows "stdio_ok n t"
  using assms(2)
proof cases
  case (line uuid l st tr r)
  then show ?thesis
    using assms(1) receive_line_ok [of "server s" n "channel s" uuid l st tr r] by (simp add: stdio_ok_def)
next
  case (completion key uuid backend st out tr r)
  then have "srv_step (server s) (LFinish key out) st" by (auto intro: srv_step.intros)
  then show ?thesis
    using assms(1) completion(1,2) srv_step_ok [of "server s" _ st] emit_all_ok [OF _ completion(5)]
    by (simp add: stdio_ok_def)
next
  case (fetch tr)
  then show ?thesis using assms(1) writer_get_ok [of n "channel s" tr] by (simp add: stdio_ok_def)
next
  case (written ok tr)
  then show ?thesis using assms(1) writer_done_ok [of n "channel s" ok tr] by (simp add: stdio_ok_def)
qed

interpretation stdio: invariant_system "stdio_step n" "stdio_ok n" for n
  by unfold_locales (rule stdio_step_ok)

lemma write_all_complete: "write_all sizes data = (w, ok) \<Longrightarrow> prefix w data \<and> (ok \<longrightarrow> w = data)"
proof (induction sizes data arbitrary: w rule: write_all.induct)
  case (3 size sizes c r)
  then show ?case
    by (auto simp: apfst_def map_prod_def prefix_def split: option.splits if_splits prod.splits)
       (metis append_assoc append_take_drop_id)+
qed auto

section \<open>Properties\<close>





end
