(* ===== verification/EnvUnicode.thy ===== *)
theory EnvUnicode
  imports Prelude
begin

text \<open>
  The pinned lowercase table of \<open>native_environment_unicode.py\<close>: the ranges (first, last, stride,
  offset), the single entries, whose images may have several characters, and the lookup.
\<close>

definition RANGES :: "(nat \<times> nat \<times> nat \<times> int) list" where
  "RANGES =
    [
     (0x41, 0x5A, 1, 32), (0xC0, 0xD6, 1, 32), (0xD8, 0xDE, 1, 32), (0x100, 0x12E, 2, 1),
     (0x132, 0x136, 2, 1), (0x139, 0x147, 2, 1), (0x14A, 0x176, 2, 1), (0x179, 0x17D, 2, 1),
     (0x1A0, 0x1A4, 2, 1), (0x1CB, 0x1DB, 2, 1), (0x1DE, 0x1EE, 2, 1), (0x1F8, 0x21E, 2, 1),
     (0x222, 0x232, 2, 1), (0x246, 0x24E, 2, 1), (0x388, 0x38A, 1, 37), (0x391, 0x3A1, 1, 32),
     (0x3A3, 0x3AB, 1, 32), (0x3D8, 0x3EE, 2, 1), (0x3FD, 0x3FF, 1, - 130), (0x400, 0x40F, 1, 80),
     (0x410, 0x42F, 1, 32), (0x460, 0x480, 2, 1), (0x48A, 0x4BE, 2, 1), (0x4C1, 0x4CD, 2, 1),
     (0x4D0, 0x52E, 2, 1), (0x531, 0x556, 1, 48), (0x10A0, 0x10C5, 1, 7264),
     (0x13A0, 0x13EF, 1, 38864), (0x13F0, 0x13F5, 1, 8), (0x1C90, 0x1CBA, 1, - 3008),
     (0x1CBD, 0x1CBF, 1, - 3008), (0x1E00, 0x1E94, 2, 1), (0x1EA0, 0x1EFE, 2, 1),
     (0x1F08, 0x1F0F, 1, - 8), (0x1F18, 0x1F1D, 1, - 8), (0x1F28, 0x1F2F, 1, - 8),
     (0x1F38, 0x1F3F, 1, - 8), (0x1F48, 0x1F4D, 1, - 8), (0x1F59, 0x1F5F, 2, - 8),
     (0x1F68, 0x1F6F, 1, - 8), (0x1F88, 0x1F8F, 1, - 8), (0x1F98, 0x1F9F, 1, - 8),
     (0x1FA8, 0x1FAF, 1, - 8), (0x1FC8, 0x1FCB, 1, - 86), (0x2160, 0x216F, 1, 16),
     (0x24B6, 0x24CF, 1, 26), (0x2C00, 0x2C2F, 1, 48), (0x2C67, 0x2C6B, 2, 1),
     (0x2C80, 0x2CE2, 2, 1), (0xA640, 0xA66C, 2, 1), (0xA680, 0xA69A, 2, 1),
     (0xA722, 0xA72E, 2, 1), (0xA732, 0xA76E, 2, 1), (0xA77E, 0xA786, 2, 1),
     (0xA796, 0xA7A8, 2, 1), (0xA7B4, 0xA7C2, 2, 1), (0xA7CC, 0xA7DA, 2, 1),
     (0xFF21, 0xFF3A, 1, 32), (0x10400, 0x10427, 1, 40), (0x104B0, 0x104D3, 1, 40),
     (0x10570, 0x1057A, 1, 39), (0x1057C, 0x1058A, 1, 39), (0x1058C, 0x10592, 1, 39),
     (0x10C80, 0x10CB2, 1, 64), (0x10D50, 0x10D65, 1, 32), (0x118A0, 0x118BF, 1, 32),
     (0x16E40, 0x16E5F, 1, 32), (0x16EA0, 0x16EB8, 1, 27), (0x1E900, 0x1E921, 1, 34)
    ]"

definition SINGLES :: "(nat \<times> pystr) list" where
  "SINGLES =
    [
     (0x130, [0x69, 0x307]), (0x178, [0xFF]), (0x181, [0x253]), (0x182, [0x183]), (0x184, [0x185]),
     (0x186, [0x254]), (0x187, [0x188]), (0x189, [0x256]), (0x18A, [0x257]), (0x18B, [0x18C]),
     (0x18E, [0x1DD]), (0x18F, [0x259]), (0x190, [0x25B]), (0x191, [0x192]), (0x193, [0x260]),
     (0x194, [0x263]), (0x196, [0x269]), (0x197, [0x268]), (0x198, [0x199]), (0x19C, [0x26F]),
     (0x19D, [0x272]), (0x19F, [0x275]), (0x1A6, [0x280]), (0x1A7, [0x1A8]), (0x1A9, [0x283]),
     (0x1AC, [0x1AD]), (0x1AE, [0x288]), (0x1AF, [0x1B0]), (0x1B1, [0x28A]), (0x1B2, [0x28B]),
     (0x1B3, [0x1B4]), (0x1B5, [0x1B6]), (0x1B7, [0x292]), (0x1B8, [0x1B9]), (0x1BC, [0x1BD]),
     (0x1C4, [0x1C6]), (0x1C5, [0x1C6]), (0x1C7, [0x1C9]), (0x1C8, [0x1C9]), (0x1CA, [0x1CC]),
     (0x1F1, [0x1F3]), (0x1F2, [0x1F3]), (0x1F4, [0x1F5]), (0x1F6, [0x195]), (0x1F7, [0x1BF]),
     (0x220, [0x19E]), (0x23A, [0x2C65]), (0x23B, [0x23C]), (0x23D, [0x19A]), (0x23E, [0x2C66]),
     (0x241, [0x242]), (0x243, [0x180]), (0x244, [0x289]), (0x245, [0x28C]), (0x370, [0x371]),
     (0x372, [0x373]), (0x376, [0x377]), (0x37F, [0x3F3]), (0x386, [0x3AC]), (0x38C, [0x3CC]),
     (0x38E, [0x3CD]), (0x38F, [0x3CE]), (0x3CF, [0x3D7]), (0x3F4, [0x3B8]), (0x3F7, [0x3F8]),
     (0x3F9, [0x3F2]), (0x3FA, [0x3FB]), (0x4C0, [0x4CF]), (0x10C7, [0x2D27]), (0x10CD, [0x2D2D]),
     (0x1C89, [0x1C8A]), (0x1E9E, [0xDF]), (0x1FB8, [0x1FB0]), (0x1FB9, [0x1FB1]),
     (0x1FBA, [0x1F70]), (0x1FBB, [0x1F71]), (0x1FBC, [0x1FB3]), (0x1FCC, [0x1FC3]),
     (0x1FD8, [0x1FD0]), (0x1FD9, [0x1FD1]), (0x1FDA, [0x1F76]), (0x1FDB, [0x1F77]),
     (0x1FE8, [0x1FE0]), (0x1FE9, [0x1FE1]), (0x1FEA, [0x1F7A]), (0x1FEB, [0x1F7B]),
     (0x1FEC, [0x1FE5]), (0x1FF8, [0x1F78]), (0x1FF9, [0x1F79]), (0x1FFA, [0x1F7C]),
     (0x1FFB, [0x1F7D]), (0x1FFC, [0x1FF3]), (0x2126, [0x3C9]), (0x212A, [0x6B]), (0x212B, [0xE5]),
     (0x2132, [0x214E]), (0x2183, [0x2184]), (0x2C60, [0x2C61]), (0x2C62, [0x26B]),
     (0x2C63, [0x1D7D]), (0x2C64, [0x27D]), (0x2C6D, [0x251]), (0x2C6E, [0x271]),
     (0x2C6F, [0x250]), (0x2C70, [0x252]), (0x2C72, [0x2C73]), (0x2C75, [0x2C76]),
     (0x2C7E, [0x23F]), (0x2C7F, [0x240]), (0x2CEB, [0x2CEC]), (0x2CED, [0x2CEE]),
     (0x2CF2, [0x2CF3]), (0xA779, [0xA77A]), (0xA77B, [0xA77C]), (0xA77D, [0x1D79]),
     (0xA78B, [0xA78C]), (0xA78D, [0x265]), (0xA790, [0xA791]), (0xA792, [0xA793]),
     (0xA7AA, [0x266]), (0xA7AB, [0x25C]), (0xA7AC, [0x261]), (0xA7AD, [0x26C]), (0xA7AE, [0x26A]),
     (0xA7B0, [0x29E]), (0xA7B1, [0x287]), (0xA7B2, [0x29D]), (0xA7B3, [0xAB53]),
     (0xA7C4, [0xA794]), (0xA7C5, [0x282]), (0xA7C6, [0x1D8E]), (0xA7C7, [0xA7C8]),
     (0xA7C9, [0xA7CA]), (0xA7CB, [0x264]), (0xA7DC, [0x19B]), (0xA7F5, [0xA7F6]),
     (0x10594, [0x105BB]), (0x10595, [0x105BC])
    ]"

text \<open>\<open>value in range(first, last + 1, stride)\<close>, and its image.\<close>

fun in_range :: "nat \<Rightarrow> nat \<times> nat \<times> nat \<times> int \<Rightarrow> bool" where
  "in_range c (first, final, stride, delta) \<longleftrightarrow> first \<le> c \<and> c \<le> final \<and> (c - first) mod stride = 0"

fun shift :: "nat \<Rightarrow> nat \<times> nat \<times> nat \<times> int \<Rightarrow> nat" where
  "shift c (first, final, stride, delta) = nat (int c + delta)"

text \<open>\<open>LOWERCASE\<close>: a later entry of the dictionary displays replaces an earlier one.\<close>

definition LOWERCASE :: "nat \<Rightarrow> pystr option" where
  "LOWERCASE c =
     (case map_of SINGLES c of
        Some s \<Rightarrow> Some s
      | None \<Rightarrow> map_option (\<lambda>r. [shift c r]) (find (in_range c) (rev RANGES)))"

definition lowercase_scalar :: "nat \<Rightarrow> pystr" where
  "lowercase_scalar c = (case LOWERCASE c of None \<Rightarrow> [c] | Some s \<Rightarrow> s)"

text \<open>On the ASCII characters the table is the usual lowercase.\<close>

lemma singles_above: "list_all (\<lambda>kv. 128 \<le> fst kv) SINGLES"
  by (simp add: SINGLES_def)

lemma ranges_above: "list_all (\<lambda>(first, _). 128 \<le> first) (tl RANGES)"
  by (simp add: RANGES_def)

lemma lowercase_scalar_ascii:
  assumes "c < 128"
  shows "lowercase_scalar c = [if 65 \<le> c \<and> c \<le> 90 then c + 32 else c]"
proof -
  have "map_of SINGLES c = None"
    using singles_above assms by (force simp: map_of_eq_None_iff list_all_iff)
  moreover have "find (in_range c) (rev (tl RANGES)) = None"
    using ranges_above assms by (force simp: find_None_iff list_all_iff)
  moreover have "find (in_range c) (rev RANGES) = find (in_range c) (rev (tl RANGES) @ [(65, 90, 1, 32)])"
    by (simp add: RANGES_def)
  moreover have "find P xs = None \<Longrightarrow> find P (xs @ ys) = find P ys" for P and xs ys :: "(nat \<times> nat \<times> nat \<times> int) list"
    by (induction xs) (auto split: if_splits)
  ultimately show ?thesis
    by (auto simp: lowercase_scalar_def LOWERCASE_def)
qed

end
