(* ===== verification/Environment.thy ===== *)
theory Environment
  imports EnvUnicode PyJson PyUrl
begin

text \<open>
  The environment policy of \<open>native_environment.py\<close>: validation of string mappings, the wildcard
  matcher as the loop it is, and the resolution of the environment of a new process.  The lemmas show
  that the loop ends and decides the declarative reading of the pattern, and what the resolved
  environment can and cannot hold.
\<close>

section \<open>Constants\<close>

definition NON_INHERITABLE :: "pystr list" where
  "NON_INHERITABLE = map lit [''CODEX_EXEC_SERVER_NOISE_AUTH_TOKEN'', ''NODE_REPL_AUTH_TOKEN'',
     ''OPENAI_FEDERATION_RULE_ID'', ''OPENAI_IDENTITY_TOKEN_FILE'', ''OPENAI_WORKLOAD_IDENTITY_CONTEXT'']"

definition EOF_CONTROL :: pystr where
  "EOF_CONTROL = lit ''CODEX_EXEC_SERVER_EXIT_ON_STDIN_CLOSE''"

definition UNIX_CORE :: "pystr list" where
  "UNIX_CORE = map lit [''PATH'', ''SHELL'', ''TMPDIR'', ''TEMP'', ''TMP'', ''HOME'', ''LANG'', ''LC_ALL'',
     ''LC_CTYPE'', ''LOGNAME'', ''USER'']"

definition POLICY_FIELDS :: "pystr list" where
  "POLICY_FIELDS = map lit [''inherit'', ''ignoreDefaultExcludes'', ''exclude'', ''set'', ''includeOnly'']"

text \<open>\<open>key.translate(_ASCII_UPPER)\<close>.\<close>

definition ascii_upper :: "pystr \<Rightarrow> pystr" where
  "ascii_upper s = map (\<lambda>c. if 97 \<le> c \<and> c \<le> 122 then c - 32 else c) s"

section \<open>Variables\<close>

type_synonym env = "(pystr \<times> pystr) list"

definition check_variable :: "pystr \<Rightarrow> json \<Rightarrow> exn + unit" where
  "check_variable name v =
     (if name = [] \<or> 61 \<in> set name \<or> 0 \<in> set name \<or> \<not> is_str v \<or> 0 \<in> set (str_of v)
      then Inl (rpc (-32602) ''Invalid process environment variable'')
      else if utf8_encode (name @ str_of v) = None
      then Inl (rpc (-32602) ''Process environment is not valid Unicode'')
      else Inr ())"

definition variables :: "json \<Rightarrow> exn + env" where
  "variables vs =
     (if \<not> is_obj vs then Inl (rpc (-32602) ''Process environment must be a string mapping'')
      else foldE (\<lambda>r (name, v). seqE (check_variable name v) (Inr (dict_put r name (str_of v)))) [] (obj_of vs))"

definition snapshot_environment :: "json \<Rightarrow> exn + env option" where
  "snapshot_environment vs = (if vs = JNull then Inr None else bindE (variables vs) (\<lambda>r. Inr (Some r)))"

section \<open>Wildcards\<close>

text \<open>The trailing loop: \<open>while pattern_index < len(pattern) and pattern[pattern_index] == "*"\<close>.\<close>

function skip_stars :: "pystr \<Rightarrow> nat \<Rightarrow> nat" where
  "skip_stars p i = (if i < length p \<and> p ! i = 42 then skip_stars p (i + 1) else i)"
  by auto

termination skip_stars
  by (relation "measure (\<lambda>(p, i). length p - i)") auto

declare skip_stars.simps [simp del]

text \<open>
  The main loop.  \<open>star\<close> is the index of the last star met (\<open>None\<close> for \<open>-1\<close>) and \<open>retry\<close> where the
  name is taken up again after it.  The loop jumps back in the name, so that it ends is a theorem.
\<close>

partial_function (option) match_loop ::
    "pystr \<Rightarrow> pystr \<Rightarrow> nat \<Rightarrow> nat \<Rightarrow> nat option \<Rightarrow> nat \<Rightarrow> bool option" where
  "match_loop p n i j star retry =
     (if j < length n then
        if i < length p \<and> p ! i = 42 then match_loop p n (i + 1) j (Some i) j
        else if i < length p \<and> (p ! i = 63 \<or> lowercase_scalar (p ! i) = lowercase_scalar (n ! j))
        then match_loop p n (i + 1) (j + 1) star retry
        else case star of
            Some k \<Rightarrow> match_loop p n (k + 1) (retry + 1) star (retry + 1)
          | None \<Rightarrow> Some False
      else Some (skip_stars p i = length p))"

definition matches_pattern :: "pystr \<Rightarrow> pystr \<Rightarrow> bool" where
  "matches_pattern p n = (match_loop p n 0 0 None 0 = Some True)"

definition patterns :: "json \<Rightarrow> exn + pystr list" where
  "patterns vs =
     (if \<not> is_arr vs \<or> list_ex (\<lambda>v. \<not> is_str v) (arr_of vs)
      then Inl (rpc (-32602) ''Environment policy patterns must be a string list'')
      else let ss = map str_of (arr_of vs) in
        if list_ex (\<lambda>s. utf8_encode s = None) ss
        then Inl (rpc (-32602) ''Environment policy pattern is not valid Unicode'')
        else Inr ss)"

section \<open>Resolution\<close>

text \<open>\<open>d.update(e)\<close> and the filter on the names that the dictionary comprehensions are.\<close>

definition env_update :: "env \<Rightarrow> env \<Rightarrow> env" where
  "env_update d e = foldl (\<lambda>r (k, v). dict_put r k v) d e"

definition keep :: "(pystr \<Rightarrow> bool) \<Rightarrow> env \<Rightarrow> env" where
  "keep f e = filter (\<lambda>(k, _). f k) e"

definition DEFAULT_EXCLUDES :: "pystr list" where
  "DEFAULT_EXCLUDES = map lit [''*KEY*'', ''*SECRET*'', ''*TOKEN*'']"

definition matches_any :: "pystr list \<Rightarrow> pystr \<Rightarrow> bool" where
  "matches_any ps k = list_ex (\<lambda>p. matches_pattern p k) ps"

definition inherited :: "pystr \<Rightarrow> env option \<Rightarrow> exn + env" where
  "inherited inherit parent =
     (if inherit = lit ''none'' then Inr []
      else case parent of
          None \<Rightarrow> Inl (rpc (-32602) ''Environment inheritance requires a supervisor-owned parent snapshot'')
        | Some e \<Rightarrow> Inr (if inherit = lit ''core'' then keep (\<lambda>k. ascii_upper k \<in> set UNIX_CORE) e else e))"

definition policy_environment :: "dict \<Rightarrow> env \<Rightarrow> env option \<Rightarrow> exn + env" where
  "policy_environment policy explicit parent =
     (let inherit = dget policy (lit ''inherit''); ignore = dget policy (lit ''ignoreDefaultExcludes'') in
      if set (dkeys policy) \<noteq> set POLICY_FIELDS
      then Inl (rpc (-32602) ''Environment policy requires the complete supported wire fields'')
      else if \<not> is_str inherit \<or> str_of inherit \<notin> set (map lit [''none'', ''core'', ''all''])
      then Inl (rpc (-32602) ''Invalid environment inheritance policy'')
      else if \<not> is_bool ignore then Inl (rpc (-32602) ''ignoreDefaultExcludes must be a boolean'')
      else bindE (patterns (dget policy (lit ''exclude''))) (\<lambda>exclude.
        bindE (patterns (dget policy (lit ''includeOnly''))) (\<lambda>include.
        bindE (variables (dget policy (lit ''set''))) (\<lambda>overrides.
        bindE (inherited (str_of inherit) parent) (\<lambda>r.
          let r = (if bool_of ignore then r else keep (\<lambda>k. \<not> matches_any DEFAULT_EXCLUDES k) r);
              r = keep (\<lambda>k. \<not> matches_any exclude k) r;
              r = env_update r overrides;
              r = (if include = [] then r else keep (matches_any include) r)
          in Inr (env_update r explicit))))))"

definition resolve_environment :: "dict \<Rightarrow> env option \<Rightarrow> exn + env" where
  "resolve_environment params parent =
     (if \<not> has_key params (lit ''env'') then Inl (KeyError (lit ''env''))
      else bindE (variables (dget params (lit ''env''))) (\<lambda>explicit.
        bindE (case dget params (lit ''envPolicy'') of
                 JNull \<Rightarrow> Inr explicit
               | JObj policy \<Rightarrow> policy_environment policy explicit parent
               | _ \<Rightarrow> Inl (rpc (-32602) ''Environment policy requires the complete supported wire fields''))
          (\<lambda>r. Inr (keep (\<lambda>k. k \<noteq> EOF_CONTROL \<and> ascii_upper k \<notin> set NON_INHERITABLE) r))))"

definition encode_variable :: "pystr \<times> pystr \<Rightarrow> exn + pybytes" where
  "encode_variable kv =
     (case utf8_encode (fst kv @ [61] @ snd kv) of None \<Rightarrow> Inl UnicodeError | Some bs \<Rightarrow> Inr (bs @ [0]))"

definition process_environment :: "dict \<Rightarrow> env option \<Rightarrow> exn + pybytes" where
  "process_environment params parent =
     bindE (resolve_environment params parent) (\<lambda>r.
     bindE (mapE encode_variable r) (\<lambda>bss.
       if 128 < length r \<or> 65536 < length (concat bss)
       then Inl (rpc (-32602) ''Resolved environment exceeds the admitted native bounds'')
       else Inr (concat bss)))"

section \<open>The matcher\<close>

text \<open>What a pattern means: a star stands for any text, a question mark for any character, any other
  character for one with the same lowercase.\<close>

fun glob :: "pystr \<Rightarrow> pystr \<Rightarrow> bool" where
  "glob [] n \<longleftrightarrow> n = []"
| "glob (c # p) n \<longleftrightarrow>
     (if c = 42 then list_ex (\<lambda>k. glob p (drop k n)) [0..<Suc (length n)]
      else case n of [] \<Rightarrow> False
        | d # m \<Rightarrow> (c = 63 \<or> lowercase_scalar c = lowercase_scalar d) \<and> glob p m)"

lemma glob_star: "glob (42 # p) n \<longleftrightarrow> (\<exists>k \<le> length n. glob p (drop k n))"
  by (auto simp: list_ex_iff less_Suc_eq_le Bex_def simp del: upt_Suc)

lemma glob_char:
  "c \<noteq> 42 \<Longrightarrow> glob (c # p) (d # m) \<longleftrightarrow> (c = 63 \<or> lowercase_scalar c = lowercase_scalar d) \<and> glob p m"
  by simp

lemma glob_star_free:
  "42 \<notin> set a \<Longrightarrow> glob (a @ b) n \<Longrightarrow> length a \<le> length n \<and> glob b (drop (length a) n)"
  by (induction a arbitrary: n) (auto split: list.splits)

lemma glob_star_at:
  assumes "j \<le> length n"
  shows "glob (42 # p) (drop j n) \<longleftrightarrow> (\<exists>r. j \<le> r \<and> r \<le> length n \<and> glob p (drop r n))"
proof -
  have "glob p (drop k (drop j n)) \<longleftrightarrow> glob p (drop (j + k) n)" for k
    by (simp add: add.commute)
  moreover have "(\<exists>k \<le> length n - j. Q (j + k)) \<longleftrightarrow> (\<exists>r. j \<le> r \<and> r \<le> length n \<and> Q r)" for Q
    using assms by (metis add_le_cancel_left le_add1 le_add_diff_inverse)
  ultimately show ?thesis
    by (simp only: glob_star length_drop)
qed

lemma skip_stars_glob: "i \<le> length p \<Longrightarrow> skip_stars p i = length p \<longleftrightarrow> glob (drop i p) []"
proof (induction p i rule: skip_stars.induct)
  case (1 p i)
  show ?case
  proof (cases "i < length p")
    case True
    then have "drop i p = p ! i # drop (i + 1) p"
      by (simp add: Cons_nth_drop_Suc)
    with 1 True show ?thesis
      by (subst skip_stars.simps) auto
  next
    case False
    with 1 show ?thesis by (subst skip_stars.simps) simp
  qed
qed

text \<open>
  The loop's state: after a star at \<open>k\<close>, the pattern between the star and \<open>i\<close> has no star and has
  matched the name from \<open>retry\<close> to \<open>j\<close>.
\<close>

definition match_state :: "pystr \<Rightarrow> pystr \<Rightarrow> nat \<Rightarrow> nat \<Rightarrow> nat option \<Rightarrow> nat \<Rightarrow> bool" where
  "match_state p n i j star retry \<longleftrightarrow> i \<le> length p \<and> j \<le> length n \<and>
     (case star of None \<Rightarrow> True
      | Some k \<Rightarrow> k < i \<and> p ! k = 42 \<and> j + k + 1 = retry + i \<and> 42 \<notin> set (take (i - Suc k) (drop (Suc k) p)))"

text \<open>What remains to be decided: the rest matches here, or the last star takes more of the name.\<close>

definition match_goal :: "pystr \<Rightarrow> pystr \<Rightarrow> nat \<Rightarrow> nat \<Rightarrow> nat option \<Rightarrow> nat \<Rightarrow> bool" where
  "match_goal p n i j star retry \<longleftrightarrow> glob (drop i p) (drop j n) \<or>
     (case star of None \<Rightarrow> False | Some k \<Rightarrow> \<exists>r. retry < r \<and> r \<le> length n \<and> glob (drop (Suc k) p) (drop r n))"


text \<open>The pattern after the last star, when the matched part is named.\<close>

lemma match_state_segment:
  assumes "match_state p n i j (Some k) retry" and "r \<le> length n" and "glob (drop (Suc k) p) (drop r n)"
  shows "r + (i - Suc k) \<le> length n" and "glob (drop i p) (drop (r + (i - Suc k)) n)"
proof -
  let ?a = "take (i - Suc k) (drop (Suc k) p)"
  have k: "k < i" "i \<le> length p" "42 \<notin> set ?a"
    using assms(1) by (auto simp: match_state_def)
  then have len: "length ?a = i - Suc k"
    by simp
  have "?a @ drop i p = drop (Suc k) p"
    using append_take_drop_id [of "i - Suc k" "drop (Suc k) p"] k(1) by simp
  then have "glob (?a @ drop i p) (drop r n)"
    using assms(3) by simp
  from glob_star_free [OF k(3) this] len assms(2)
  show "r + (i - Suc k) \<le> length n" "glob (drop i p) (drop (r + (i - Suc k)) n)"
    by (auto simp: add.commute)
qed

lemma match_goal_end:
  assumes "match_state p n i (length n) star retry"
  shows "match_goal p n i (length n) star retry \<longleftrightarrow> glob (drop i p) []"
proof (cases star)
  case (Some k)
  have "\<not> (retry < r \<and> r \<le> length n \<and> glob (drop (Suc k) p) (drop r n))" for r
    using match_state_segment(1) [of p n i "length n" k retry r] assms Some
    by (auto simp: match_state_def)
  with Some show ?thesis by (auto simp: match_goal_def)
qed (simp add: match_goal_def)

lemma match_goal_star:
  assumes "match_state p n i j star retry" and "i < length p" and "p ! i = 42"
  shows "match_state p n (i + 1) j (Some i) j"
    and "match_goal p n i j star retry \<longleftrightarrow> match_goal p n (i + 1) j (Some i) j"
proof -
  have j: "j \<le> length n" and d: "drop i p = 42 # drop (Suc i) p"
    using assms by (auto simp: match_state_def simp flip: Cons_nth_drop_Suc)
  show "match_state p n (i + 1) j (Some i) j"
    using assms by (auto simp: match_state_def)
  have later: "glob (drop i p) (drop j n)"
    if st: "star = Some k" and r: "retry < r" "r \<le> length n" "glob (drop (Suc k) p) (drop r n)" for k r
  proof -
    have "r + (i - Suc k) \<le> length n" "glob (drop i p) (drop (r + (i - Suc k)) n)" "j \<le> r + (i - Suc k)"
      using match_state_segment [of p n i j k retry r] assms(1) st r by (auto simp: match_state_def)
    with j show ?thesis
      unfolding d by (metis (no_types, lifting) glob_star_at le_trans)
  qed
  have "glob (drop i p) (drop j n) \<longleftrightarrow> (\<exists>r. j \<le> r \<and> r \<le> length n \<and> glob (drop (Suc i) p) (drop r n))"
    unfolding d by (rule glob_star_at [OF j])
  also have "\<dots> \<longleftrightarrow> match_goal p n (i + 1) j (Some i) j"
    using j by (auto simp: match_goal_def le_less)
  finally show "match_goal p n i j star retry \<longleftrightarrow> match_goal p n (i + 1) j (Some i) j"
    using later by (auto simp: match_goal_def split: option.splits)
qed

lemma match_goal_char:
  assumes "match_state p n i j star retry" and "j < length n" and "i < length p" and "p ! i \<noteq> 42"
    and "p ! i = 63 \<or> lowercase_scalar (p ! i) = lowercase_scalar (n ! j)"
  shows "match_state p n (i + 1) (j + 1) star retry"
    and "match_goal p n i j star retry \<longleftrightarrow> match_goal p n (i + 1) (j + 1) star retry"
proof -
  have "take (Suc i - Suc k) (drop (Suc k) p) = take (i - Suc k) (drop (Suc k) p) @ [p ! i]" if "k < i" for k
    using that assms(3) by (simp add: take_Suc_conv_app_nth flip: Suc_diff_Suc)
  with assms show "match_state p n (i + 1) (j + 1) star retry"
    by (auto simp: match_state_def split: option.splits)
  have "glob (drop i p) (drop j n) \<longleftrightarrow> glob (drop (i + 1) p) (drop (j + 1) n)"
    using assms by (simp add: glob_char flip: Cons_nth_drop_Suc)
  then show "match_goal p n i j star retry \<longleftrightarrow> match_goal p n (i + 1) (j + 1) star retry"
    by (simp add: match_goal_def)
qed

lemma ex_above: "(\<exists>r. m < r \<and> Q r) \<longleftrightarrow> Q (Suc m) \<or> (\<exists>r. Suc m < r \<and> Q r)" for m :: nat
  by (metis Suc_lessD lessI less_SucE not_less_eq)

lemma match_goal_retry:
  assumes "match_state p n i j star retry" and "j < length n"
    and "\<not> (i < length p \<and> p ! i = 42)"
    and "\<not> (i < length p \<and> (p ! i = 63 \<or> lowercase_scalar (p ! i) = lowercase_scalar (n ! j)))"
  shows "star = None \<Longrightarrow> \<not> match_goal p n i j star retry"
    and "star = Some k \<Longrightarrow> match_state p n (k + 1) (retry + 1) star (retry + 1)"
    and "star = Some k \<Longrightarrow> match_goal p n i j star retry \<longleftrightarrow> match_goal p n (k + 1) (retry + 1) star (retry + 1)"
proof -
  have no: "\<not> glob (drop i p) (drop j n)"
    using assms by (cases "i < length p") (auto simp add: glob_char simp flip: Cons_nth_drop_Suc)
  then show "star = None \<Longrightarrow> \<not> match_goal p n i j star retry"
    by (simp add: match_goal_def)
  show "match_state p n (k + 1) (retry + 1) star (retry + 1)" if "star = Some k"
    using assms that by (auto simp: match_state_def)
  show "match_goal p n i j star retry \<longleftrightarrow> match_goal p n (k + 1) (retry + 1) star (retry + 1)" if "star = Some k"
  proof -
    have "retry + 1 \<le> length n"
      using assms that by (auto simp: match_state_def)
    then show ?thesis
      using no that unfolding match_goal_def by (simp add: ex_above [of retry])
  qed
qed

definition match_measure :: "pystr \<Rightarrow> pystr \<Rightarrow> nat \<times> nat \<times> nat option \<times> nat \<Rightarrow> nat \<times> nat \<times> nat" where
  "match_measure p n = (\<lambda>(i, j, star, retry).
     (length p - (case star of None \<Rightarrow> 0 | Some k \<Rightarrow> Suc k), length n - retry, length n - j))"

lemma match_loop_goal:
  "match_state p n i j star retry \<Longrightarrow> match_loop p n i j star retry = Some (match_goal p n i j star retry)"
proof (induction "match_measure p n (i, j, star, retry)" arbitrary: i j star retry
    rule: wf_induct_rule [OF wf_lex_prod [OF wf_less_than wf_lex_prod [OF wf_less_than wf_less_than]]])
  case (1 i j star retry)
  note st = \<open>match_state p n i j star retry\<close>
  have "i \<le> length p" "j \<le> length n"
    using st by (auto simp: match_state_def)
  consider (fin) "j = length n"
    | (star) "j < length n" "i < length p" "p ! i = 42"
    | (char) "j < length n" "i < length p" "p ! i \<noteq> 42"
        "p ! i = 63 \<or> lowercase_scalar (p ! i) = lowercase_scalar (n ! j)"
    | (again) "j < length n" "\<not> (i < length p \<and> p ! i = 42)"
        "\<not> (i < length p \<and> (p ! i = 63 \<or> lowercase_scalar (p ! i) = lowercase_scalar (n ! j)))"
    using \<open>j \<le> length n\<close> le_neq_implies_less by blast
  then show ?case
  proof cases
    case fin
    then show ?thesis
      using match_goal_end st \<open>i \<le> length p\<close> by (subst match_loop.simps) (simp add: skip_stars_glob)
  next
    case star
    have "match_loop p n (i + 1) j (Some i) j = Some (match_goal p n (i + 1) j (Some i) j)"
      using star st by (intro 1(1) match_goal_star) (auto simp: match_measure_def match_state_def split: option.splits)
    with star match_goal_star(2) [OF st] show ?thesis
      by (subst match_loop.simps) simp
  next
    case char
    have "match_loop p n (i + 1) (j + 1) star retry = Some (match_goal p n (i + 1) (j + 1) star retry)"
      using char st by (intro 1(1) match_goal_char) (auto simp: match_measure_def)
    with char match_goal_char(2) [OF st] show ?thesis
      by (subst match_loop.simps) simp
  next
    case again
    show ?thesis
    proof (cases star)
      case None
      with again match_goal_retry(1) [OF st] show ?thesis
        by (subst match_loop.simps) auto
    next
      case (Some k)
      have "retry < length n"
        using st Some again(1) by (auto simp: match_state_def)
      then have "match_loop p n (k + 1) (retry + 1) star (retry + 1) = Some (match_goal p n (k + 1) (retry + 1) star (retry + 1))"
        using again st Some by (intro 1(1) match_goal_retry) (auto simp: match_measure_def)
      with again Some match_goal_retry(3) [OF st] show ?thesis
        by (subst match_loop.simps) auto
    qed
  qed
qed

lemma match_loop_total: "match_loop p n 0 0 None 0 = Some (glob p n)"
  using match_loop_goal [of p n 0 0 None 0] by (simp add: match_state_def match_goal_def)

lemma matches_pattern_glob: "matches_pattern p n \<longleftrightarrow> glob p n"
  by (simp add: matches_pattern_def match_loop_total)


text \<open>A star on both sides of a word without wildcards: the word occurs, up to lowercase.\<close>

lemma glob_literal:
  "list_all2 (\<lambda>c d. c \<noteq> 42 \<and> lowercase_scalar c = lowercase_scalar d) w x \<Longrightarrow> glob p m \<Longrightarrow> glob (w @ p) (x @ m)"
  by (induction rule: list_all2_induct) auto

lemma glob_infix:
  assumes "list_all2 (\<lambda>c d. c \<noteq> 42 \<and> lowercase_scalar c = lowercase_scalar d) w x"
  shows "glob (42 # w @ [42]) (a @ x @ b)"
proof -
  have "glob [42] b"
    unfolding glob_star by (intro exI [of _ "length b"]) simp
  with assms have "glob (w @ [42]) (x @ b)"
    by (rule glob_literal)
  then have "glob (w @ [42]) (drop (length a) (a @ x @ b))"
    by simp
  then show ?thesis
    unfolding glob_star by (intro exI [of _ "length a"]) simp
qed

section \<open>The resolved environment\<close>

definition wf_variable :: "pystr \<times> pystr \<Rightarrow> bool" where
  "wf_variable kv \<longleftrightarrow> fst kv \<noteq> [] \<and> 61 \<notin> set (fst kv) \<and> 0 \<notin> set (fst kv) \<and> 0 \<notin> set (snd kv) \<and>
     list_all is_scalar (fst kv) \<and> list_all is_scalar (snd kv)"

definition wf_env :: "env \<Rightarrow> bool" where
  "wf_env e \<longleftrightarrow> distinct (map fst e) \<and> list_all wf_variable e"

lemma dict_put_wf: "wf_env d \<Longrightarrow> wf_variable (k, v) \<Longrightarrow> wf_env (dict_put d k v)"
  by (auto simp: wf_env_def dict_put_distinct list_all_iff dest!: dict_put_mem)

lemma keep_wf: "wf_env e \<Longrightarrow> wf_env (keep f e)"
  by (auto simp: wf_env_def keep_def list_all_iff distinct_map inj_on_def)

lemma keep_lookup: "wf_env e \<Longrightarrow> map_of (keep f e) k = (if f k then map_of e k else None)"
  by (induction e) (auto simp: keep_def wf_env_def map_of_eq_None_iff image_iff)

lemma wf_env_simps [simp]:
  "wf_env []" "wf_env ((k, v) # e) \<longleftrightarrow> k \<notin> fst ` set e \<and> wf_variable (k, v) \<and> wf_env e"
  by (auto simp: wf_env_def)

lemma env_update_simps [simp]:
  "env_update d [] = d" "env_update d ((k, v) # e) = env_update (dict_put d k v) e"
  by (simp_all add: env_update_def)

lemma env_update_wf: "wf_env d \<Longrightarrow> wf_env e \<Longrightarrow> wf_env (env_update d e)"
  by (induction e arbitrary: d) (auto simp: dict_put_wf)

lemma env_update_lookup:
  "wf_env e \<Longrightarrow> map_of (env_update d e) k = (case map_of e k of None \<Rightarrow> map_of d k | Some v \<Rightarrow> Some v)"
proof (induction e arbitrary: d)
  case (Cons kv e)
  obtain a b where [simp]: "kv = (a, b)" by (cases kv)
  have "map_of e a = None"
    using Cons.prems by (simp add: map_of_eq_None_iff)
  with Cons show ?case
    by (auto simp: dict_put_lookup split: option.split)
qed simp

lemma check_variable_wf: "check_variable name v = Inr () \<Longrightarrow> wf_variable (name, str_of v)"
  by (auto simp: check_variable_def wf_variable_def utf8_encode_def split: if_splits)

lemma variables_wf: "variables vs = Inr e \<Longrightarrow> wf_env e"
  unfolding variables_def
  by (elim if_raiseE foldE_invariant) (auto simp: exn_simps intro!: dict_put_wf check_variable_wf)

lemma snapshot_environment_wf: "snapshot_environment vs = Inr (Some e) \<Longrightarrow> wf_env e"
  by (auto simp: snapshot_environment_def exn_simps variables_wf split: if_splits)

lemma inherited_wf: "inherited i parent = Inr e \<Longrightarrow> (\<And>p. parent = Some p \<Longrightarrow> wf_env p) \<Longrightarrow> wf_env e"
  by (auto simp: inherited_def keep_wf split: if_splits option.splits)


text \<open>
  The environment a policy yields, name by name: an explicit variable wins, then what \<open>includeOnly\<close>
  lets through of the overrides and of the inherited variables that no exclusion removes.
\<close>

definition policy_lookup :: "dict \<Rightarrow> env \<Rightarrow> pystr list \<Rightarrow> pystr list \<Rightarrow> env \<Rightarrow> env \<Rightarrow> pystr \<Rightarrow> pystr option" where
  "policy_lookup policy explicit excl incl overrides base k =
     (case map_of explicit k of
        Some v \<Rightarrow> Some v
      | None \<Rightarrow>
          if incl \<noteq> [] \<and> \<not> (\<exists>p \<in> set incl. glob p k) then None
          else case map_of overrides k of
              Some v \<Rightarrow> Some v
            | None \<Rightarrow>
                if (\<exists>p \<in> set excl. glob p k) \<or>
                   \<not> bool_of (dget policy (lit ''ignoreDefaultExcludes'')) \<and> (\<exists>p \<in> set DEFAULT_EXCLUDES. glob p k)
                then None else map_of base k)"

lemma matches_any_iff: "matches_any ps k \<longleftrightarrow> (\<exists>p \<in> set ps. glob p k)"
  by (simp add: matches_any_def matches_pattern_glob list_ex_iff)

lemma policy_environment_lookup:
  assumes "policy_environment policy explicit parent = Inr r" and "wf_env explicit"
    and "\<And>p. parent = Some p \<Longrightarrow> wf_env p"
  obtains excl incl overrides base where
    "patterns (dget policy (lit ''exclude'')) = Inr excl" "patterns (dget policy (lit ''includeOnly'')) = Inr incl"
    "variables (dget policy (lit ''set'')) = Inr overrides"
    "inherited (str_of (dget policy (lit ''inherit''))) parent = Inr base"
    "wf_env r" "\<And>k. map_of r k = policy_lookup policy explicit excl incl overrides base k"
proof -
  obtain excl incl overrides base where parts:
    "patterns (dget policy (lit ''exclude'')) = Inr excl" "patterns (dget policy (lit ''includeOnly'')) = Inr incl"
    "variables (dget policy (lit ''set'')) = Inr overrides"
    "inherited (str_of (dget policy (lit ''inherit''))) parent = Inr base"
    using assms(1) unfolding policy_environment_def Let_def by (elim exn_elims)
  let ?r1 = "if bool_of (dget policy (lit ''ignoreDefaultExcludes'')) then base
    else keep (\<lambda>k. \<not> matches_any DEFAULT_EXCLUDES k) base"
  let ?r2 = "env_update (keep (\<lambda>k. \<not> matches_any excl k) ?r1) overrides"
  let ?r3 = "if incl = [] then ?r2 else keep (matches_any incl) ?r2"
  have r: "r = env_update ?r3 explicit"
    using assms(1) parts unfolding policy_environment_def Let_def by (auto split: if_splits)
  have base: "wf_env base" and over: "wf_env overrides"
    using parts assms(3) by (auto intro: inherited_wf variables_wf)
  have w1: "wf_env ?r1" and w2: "wf_env ?r2" and w3: "wf_env ?r3"
    using base over by (simp_all add: keep_wf env_update_wf)
  have wf: "wf_env r"
    unfolding r by (rule env_update_wf [OF w3 assms(2)])
  have l1: "map_of ?r1 k = (if \<not> bool_of (dget policy (lit ''ignoreDefaultExcludes'')) \<and>
      matches_any DEFAULT_EXCLUDES k then None else map_of base k)" for k
    using base by (simp add: keep_lookup)
  have l2: "map_of ?r2 k = (case map_of overrides k of Some v \<Rightarrow> Some v
    | None \<Rightarrow> if matches_any excl k then None else map_of ?r1 k)" for k
    unfolding env_update_lookup [OF over] keep_lookup [OF w1] by (simp split: option.split)
  have l3: "map_of ?r3 k = (if incl \<noteq> [] \<and> \<not> matches_any incl k then None else map_of ?r2 k)" for k
    using w2 by (simp add: keep_lookup)
  have "map_of r k = policy_lookup policy explicit excl incl overrides base k" for k
    unfolding r env_update_lookup [OF assms(2)] l3 l2 l1 policy_lookup_def matches_any_iff [symmetric]
    by (simp split: option.split)
  with wf parts show ?thesis
    by (intro that [of excl incl overrides base])
qed

lemma resolve_environment_wf:
  assumes "resolve_environment params parent = Inr r" and "\<And>p. parent = Some p \<Longrightarrow> wf_env p"
  shows "wf_env r" and "k \<in> fst ` set r \<Longrightarrow> k \<noteq> EOF_CONTROL \<and> ascii_upper k \<notin> set NON_INHERITABLE"
proof -
  obtain explicit q where e: "variables (dget params (lit ''env'')) = Inr explicit"
    and q: "(case dget params (lit ''envPolicy'') of
                 JNull \<Rightarrow> Inr explicit
               | JObj policy \<Rightarrow> policy_environment policy explicit parent
               | _ \<Rightarrow> Inl (rpc (-32602) ''Environment policy requires the complete supported wire fields'')) = Inr q"
    and r: "r = keep (\<lambda>k. k \<noteq> EOF_CONTROL \<and> ascii_upper k \<notin> set NON_INHERITABLE) q"
    using assms(1) unfolding resolve_environment_def by (elim exn_elims) auto
  have "wf_env q"
    using q variables_wf [OF e] assms(2) by (auto split: json.splits elim: policy_environment_lookup)
  then show "wf_env r"
    unfolding r by (rule keep_wf)
  show "k \<in> fst ` set r \<Longrightarrow> k \<noteq> EOF_CONTROL \<and> ascii_upper k \<notin> set NON_INHERITABLE"
    unfolding r by (auto simp: keep_def)
qed

text \<open>The reading of an environment block: the entries end in NUL, the first \<open>=\<close> ends the name.\<close>

definition read_entry :: "pybytes \<Rightarrow> (pystr \<times> pystr) option" where
  "read_entry e = (case utf8_decode e of None \<Rightarrow> None
     | Some s \<Rightarrow> (case partition_on 61 s of (k, Some v) \<Rightarrow> Some (k, v) | _ \<Rightarrow> None))"

definition read_block :: "pybytes \<Rightarrow> (pystr \<times> pystr) option list" where
  "read_block bs = map read_entry (butlast (split_on 0 bs))"

lemma encode_variable_reads:
  assumes "wf_variable kv"
  obtains bs where "encode_variable kv = Inr (bs @ [0])" "0 \<notin> set bs" "read_entry bs = Some kv"
proof -
  let ?s = "fst kv @ [61] @ snd kv"
  have "list_all is_scalar ?s"
    using assms by (simp add: wf_variable_def is_scalar_def)
  then have e: "utf8_encode ?s = Some (concat (map utf8_char ?s))"
    by (simp add: utf8_encode_def)
  moreover have "0 \<notin> set (concat (map utf8_char ?s))"
    using assms by (auto simp: wf_variable_def) (metis gr0I utf8_char_nonzero)+
  moreover have "read_entry (concat (map utf8_char ?s)) = Some kv"
    using utf8_decode_encode [OF e] assms by (simp add: read_entry_def partition_on_append wf_variable_def)
  ultimately show thesis
    by (intro that [of "concat (map utf8_char ?s)"]) (simp_all add: encode_variable_def)
qed

lemma encode_block:
  "list_all wf_variable r \<Longrightarrow> \<exists>bss. mapE encode_variable r = Inr bss \<and> read_block (concat bss) = map Some r"
proof (induction r)
  case Nil
  then show ?case by (simp add: read_block_def)
next
  case (Cons kv r)
  then obtain bss where bss: "mapE encode_variable r = Inr bss" "read_block (concat bss) = map Some r"
    by auto
  obtain bs where "encode_variable kv = Inr (bs @ [0])" "0 \<notin> set bs" "read_entry bs = Some kv"
    using Cons.prems by (auto elim: encode_variable_reads)
  with bss show ?case
    by (auto simp: read_block_def split_on_append)
qed

text \<open>C32: the block handed to the new process reads back as the resolved environment: every name
  appears once, is not empty and has no \<open>=\<close>, no text has a NUL, and neither the executor's own
  control variables nor the identity tokens are among the names.  The block stays within the native
  bounds.\<close>

theorem environment_block:
  assumes "snapshot_environment snapshot = Inr parent" and "process_environment params parent = Inr bs"
  shows "\<exists>env. resolve_environment params parent = Inr env \<and> read_block bs = map Some env \<and> wf_env env \<and>
    length env \<le> 128 \<and> length bs \<le> 65536 \<and>
    (\<forall>k \<in> fst ` set env. k \<noteq> EOF_CONTROL \<and> ascii_upper k \<notin> set NON_INHERITABLE)"
proof -
  have parent: "wf_env p" if "parent = Some p" for p
    using assms(1) that snapshot_environment_wf by blast
  obtain env bss where env: "resolve_environment params parent = Inr env" "mapE encode_variable env = Inr bss"
    and bounds: "length env \<le> 128" "length (concat bss) \<le> 65536" and bs: "bs = concat bss"
    using assms(2) unfolding process_environment_def by (elim exn_elims) auto
  note wf = resolve_environment_wf [OF env(1) parent]
  have "read_block bs = map Some env"
    using encode_block [of env] wf(1) env(2) bs by (auto simp: wf_env_def)
  with env(1) wf bounds bs show ?thesis
    by blast
qed

definition example_params :: dict where
  "example_params = [(lit ''env'', JObj [(lit ''A'', jlit ''b''), (lit ''Openai_Identity_Token_File'', jlit ''t'')])]"

lemma example_variables:
  "variables (JObj [(lit ''A'', jlit ''b''), (lit ''Openai_Identity_Token_File'', jlit ''t'')]) =
     Inr [(lit ''A'', lit ''b''), (lit ''Openai_Identity_Token_File'', lit ''t'')]"
  by (simp add: variables_def check_variable_def lit_def utf8_encode_def is_scalar_def)

theorem environment_block_witness:
  "\<exists>env. resolve_environment example_params None = Inr env \<and> read_block [65, 61, 98, 0] = map Some env \<and> wf_env env \<and>
    length env \<le> 128 \<and> length [65 :: nat, 61, 98, 0] \<le> 65536 \<and>
    (\<forall>k \<in> fst ` set env. k \<noteq> EOF_CONTROL \<and> ascii_upper k \<notin> set NON_INHERITABLE)"
proof (rule environment_block)
  show "snapshot_environment JNull = Inr None"
    by (simp add: snapshot_environment_def)
  have "resolve_environment example_params None = Inr [(lit ''A'', lit ''b'')]"
    by (simp add: resolve_environment_def example_params_def example_variables)
      (simp add: keep_def EOF_CONTROL_def NON_INHERITABLE_def ascii_upper_def lit_def)
  then show "process_environment example_params None = Inr [65, 61, 98, 0]"
    by (simp add: process_environment_def encode_variable_def lit_def utf8_encode_def is_scalar_def)
qed


text \<open>C30: the matching loop ends on every pattern and name, although it jumps back in the name, and its
  answer is the declarative reading of the wildcards.\<close>

theorem matcher_decides:
  "match_loop p n 0 0 None 0 = Some (glob p n) \<and> (matches_pattern p n \<longleftrightarrow> glob p n)"
  by (simp add: match_loop_total matches_pattern_glob)

lemma resolve_environment_policy:
  assumes "snapshot_environment snapshot = Inr parent" and "resolve_environment params parent = Inr env"
    and "dget params (lit ''envPolicy'') = JObj policy" and "variables (dget params (lit ''env'')) = Inr explicit"
  obtains excl incl overrides base where
    "patterns (dget policy (lit ''exclude'')) = Inr excl" "patterns (dget policy (lit ''includeOnly'')) = Inr incl"
    "variables (dget policy (lit ''set'')) = Inr overrides"
    "inherited (str_of (dget policy (lit ''inherit''))) parent = Inr base"
    "\<And>k. map_of env k = (if k = EOF_CONTROL \<or> ascii_upper k \<in> set NON_INHERITABLE then None
       else policy_lookup policy explicit excl incl overrides base k)"
proof -
  obtain q where q: "policy_environment policy explicit parent = Inr q"
    and env: "env = keep (\<lambda>k. k \<noteq> EOF_CONTROL \<and> ascii_upper k \<notin> set NON_INHERITABLE) q"
    using assms(2-4) unfolding resolve_environment_def by (elim exn_elims) auto
  have parent: "wf_env p" if "parent = Some p" for p
    using assms(1) that snapshot_environment_wf by blast
  from policy_environment_lookup [OF q variables_wf [OF assms(4)] parent]
  obtain excl incl overrides base where parts:
    "patterns (dget policy (lit ''exclude'')) = Inr excl" "patterns (dget policy (lit ''includeOnly'')) = Inr incl"
    "variables (dget policy (lit ''set'')) = Inr overrides"
    "inherited (str_of (dget policy (lit ''inherit''))) parent = Inr base"
    and wf: "wf_env q" and look: "\<And>k. map_of q k = policy_lookup policy explicit excl incl overrides base k"
    by blast
  show thesis
    by (rule that [OF parts]) (simp add: env keep_lookup [OF wf] look)
qed


lemma lowercase_upper: "c < 128 \<Longrightarrow> lowercase_scalar c = lowercase_scalar (if 97 \<le> c \<and> c \<le> 122 then c - 32 else c)"
  by (auto simp: lowercase_scalar_ascii)

lemma secret_word:
  assumes "ascii_upper x \<in> {lit ''KEY'', lit ''SECRET'', lit ''TOKEN''}"
  shows "\<exists>p \<in> set DEFAULT_EXCLUDES. glob p (a @ x @ b)"
proof -
  let ?w = "ascii_upper x"
  have "d < 128" if "d \<in> set x" for d
  proof (rule ccontr)
    assume "\<not> d < 128"
    then have "d \<in> set ?w"
      using that by (force simp: ascii_upper_def)
    with assms \<open>\<not> d < 128\<close> show False
      by (auto simp: lit_def)
  qed
  then have "list_all2 (\<lambda>c d. lowercase_scalar c = lowercase_scalar d) ?w x"
    unfolding ascii_upper_def list_all2_map1 by (intro list.rel_refl_strong) (simp flip: lowercase_upper)
  moreover have "42 \<notin> set ?w"
    using assms by (auto simp: lit_def)
  ultimately have "list_all2 (\<lambda>c d. c \<noteq> 42 \<and> lowercase_scalar c = lowercase_scalar d) ?w x"
    by (auto simp: list_all2_conv_all_nth in_set_conv_nth)
  then have "glob (42 # ?w @ [42]) (a @ x @ b)"
    by (rule glob_infix)
  moreover have "42 # ?w @ [42] \<in> set DEFAULT_EXCLUDES"
    using assms by (auto simp: DEFAULT_EXCLUDES_def lit_def)
  ultimately show ?thesis by blast
qed


definition example_policy_fields :: dict where
  "example_policy_fields = [(lit ''inherit'', jlit ''all''), (lit ''ignoreDefaultExcludes'', JBool False),
     (lit ''exclude'', JArr []), (lit ''set'', JObj [(lit ''Key'', jlit ''o'')]), (lit ''includeOnly'', JArr [])]"

definition example_start :: dict where
  "example_start = [(lit ''env'', JObj []), (lit ''envPolicy'', JObj example_policy_fields)]"

definition example_parent :: json where
  "example_parent = JObj [(lit ''HOME'', jlit ''h''), (lit ''a_key'', jlit ''s'')]"

lemma example_snapshot:
  "snapshot_environment example_parent = Inr (Some [(lit ''HOME'', lit ''h''), (lit ''a_key'', lit ''s'')])"
  by (simp add: snapshot_environment_def example_parent_def variables_def check_variable_def lit_def
      utf8_encode_def is_scalar_def)

lemma example_fields: "variables (JObj []) = Inr []" "variables (JObj [(lit ''Key'', jlit ''o'')]) = Inr [(lit ''Key'', lit ''o'')]"
  "dget example_start (lit ''envPolicy'') = JObj example_policy_fields" "dget example_start (lit ''env'') = JObj []"
  by (simp_all add: variables_def check_variable_def utf8_encode_def is_scalar_def lit_def example_start_def)

lemma example_excluded:
  "matches_any DEFAULT_EXCLUDES (lit ''a_key'')" "\<not> matches_any DEFAULT_EXCLUDES (lit ''HOME'')"
  by (simp_all add: matches_any_iff DEFAULT_EXCLUDES_def lit_def lowercase_scalar_ascii)

lemma example_resolved:
  "resolve_environment example_start (Some [(lit ''HOME'', lit ''h''), (lit ''a_key'', lit ''s'')]) =
     Inr [(lit ''HOME'', lit ''h''), (lit ''Key'', lit ''o'')]"
proof -
  have "policy_environment example_policy_fields [] (Some [(lit ''HOME'', lit ''h''), (lit ''a_key'', lit ''s'')]) =
    Inr [(lit ''HOME'', lit ''h''), (lit ''Key'', lit ''o'')]"
    unfolding policy_environment_def example_policy_fields_def
    by (auto simp: Let_def POLICY_FIELDS_def patterns_def example_fields inherited_def keep_def example_excluded
        matches_any_def [of "[]"])
  then show ?thesis
    by (simp add: resolve_environment_def example_fields)
      (simp add: example_start_def keep_def EOF_CONTROL_def NON_INHERITABLE_def ascii_upper_def lit_def)
qed



end
