(* ===== verification/NativeFiles.thy ===== *)
theory NativeFiles
  imports PolicyIntent ExecServer
begin

text \<open>
  The policy-bearing file backend of \<open>native_files.py\<close>.  The workspace on disk is a tree of inodes;
  the native helper, a separate program, is a parameter that maps an argument vector and its input to
  the exit status, output and diagnostic of one run (\<open>None\<close> when the 30 second limit ends it).  The
  wording of library exceptions (\<open>str(error)\<close>) is the parameter \<open>text\<close>.
\<close>

section \<open>Bounds and native records\<close>

definition MAX_DATA :: nat where
  "MAX_DATA = 16 * 1024 * 1024"

definition MAX_ENTRIES :: nat where
  "MAX_ENTRIES = 100000"

definition MAX_DEPTH :: nat where
  "MAX_DEPTH = 64"

text \<open>\<open>_unique_object\<close>.\<close>

fun unique_pairs :: "dict \<Rightarrow> (pystr \<times> json) list \<Rightarrow> exn + dict" where
  "unique_pairs r [] = Inr r"
| "unique_pairs r ((k, v) # ps) =
     (if has_key r k then Inl (ValueError (lit ''Duplicate native response field''))
      else unique_pairs (r @ [(k, v)]) ps)"

definition unique_object :: pairs_hook where
  "unique_object ps = bindE (unique_pairs [] ps) (\<lambda>d. Inr (JObj d))"

text \<open>\<open>json.loads(output.decode("ascii"), object_pairs_hook=_unique_object)\<close> with its length guard.\<close>

definition native_record :: "string \<Rightarrow> pybytes \<Rightarrow> exn + json" where
  "native_record msg output =
     (if 1024 < length output then Inl (ValueError (lit msg))
      else if list_ex (\<lambda>b. 128 \<le> b) output then Inl UnicodeError
      else loads unique_object plain_constant output)"

definition METADATA_FIELDS :: "pystr list" where
  "METADATA_FIELDS = map lit [''isDirectory'', ''isFile'', ''isSymlink'', ''size'', ''createdAtMs'', ''modifiedAtMs'']"

definition int_within :: "int \<Rightarrow> int \<Rightarrow> json \<Rightarrow> bool" where
  "int_within lo hi v = (is_int v \<and> lo \<le> int_of v \<and> int_of v < hi)"

definition metadata_valid :: "json \<Rightarrow> bool" where
  "metadata_valid v =
     (is_obj v \<and> (let d = obj_of v in set (dkeys d) = set METADATA_FIELDS \<and>
        list_all (\<lambda>k. is_bool (dget d (lit k))) [''isDirectory'', ''isFile'', ''isSymlink''] \<and>
        dget d (lit ''isDirectory'') \<noteq> dget d (lit ''isFile'') \<and> \<not> bool_of (dget d (lit ''isSymlink'')) \<and>
        int_within 0 (2 ^ 64) (dget d (lit ''size'')) \<and>
        list_all (\<lambda>k. int_within (- (2 ^ 63)) (2 ^ 63) (dget d (lit k))) [''createdAtMs'', ''modifiedAtMs'']))"

text \<open>\<open>except (ValueError, UnicodeError, TypeError, RecursionError)\<close>.\<close>

definition is_record_error :: "exn \<Rightarrow> bool" where
  "is_record_error e = (case e of TypeError _ \<Rightarrow> True | _ \<Rightarrow> is_value_error e)"

definition native_metadata :: "pybytes \<Rightarrow> exn + json" where
  "native_metadata output =
     catchE (bindE (native_record ''Invalid native metadata length'' output) (\<lambda>v.
               if metadata_valid v then Inr v else Inl (ValueError (lit ''Invalid native metadata record''))))
       is_record_error (\<lambda>_. rpc (-32603) ''Native filesystem metadata violates its contract'')"

definition STAGES :: "pystr list" where
  "STAGES = map lit [''invocation'', ''root-fd'', ''length'', ''root-ownership'', ''allocation'',
     ''input'', ''input-length'', ''open'', ''file-kind'', ''write'',
     ''directory-sync'', ''directory-state'', ''mkdir'', ''metadata'', ''read'', ''read-bound'', ''output'', ''close'',
     ''tree-plan'', ''tree-state'', ''remove'', ''copy'']"

definition failure_valid :: "json \<Rightarrow> bool" where
  "failure_valid v =
     (is_obj v \<and> (let d = obj_of v in set (dkeys d) = {lit ''stage'', lit ''errno''} \<and>
        is_str (dget d (lit ''stage'')) \<and> str_of (dget d (lit ''stage'')) \<in> set STAGES \<and>
        int_within 1 4096 (dget d (lit ''errno''))))"

definition ENOENT :: int where "ENOENT = 2"
definition EPERM :: int where "EPERM = 1"
definition EACCES :: int where "EACCES = 13"
definition EINVAL :: int where "EINVAL = 22"

definition native_failure :: "pybytes \<Rightarrow> exn" where
  "native_failure diagnostic =
     (case native_record ''Invalid native diagnostic length'' diagnostic of
        Inl e \<Rightarrow> if is_record_error e then rpc (-32603) ''Native filesystem error violates its contract'' else e
      | Inr v \<Rightarrow>
          if \<not> failure_valid v then rpc (-32603) ''Native filesystem error violates its contract''
          else let number = int_of (dget (obj_of v) (lit ''errno'')) in
            if dget (obj_of v) (lit ''stage'') = jlit ''open'' \<and> number = ENOENT
            then rpc (-32004) ''Requested file or its parent does not exist''
            else if number \<in> {EACCES, EPERM, EINVAL}
            then RpcError (-32600) (lit ''Native filesystem request was refused'') (Some v)
            else RpcError (-32603) (lit ''Native filesystem operation failed'') (Some v))"

section \<open>The workspace\<close>

record st_info =
  st_uid :: nat
  st_mode :: nat
  st_nlink :: nat
  st_dev :: nat
  st_ino :: nat
  st_size :: nat
  st_mtime_ns :: int
  st_ctime_ns :: int

definition ifmt :: "nat \<Rightarrow> nat" where
  "ifmt mode = mode div 4096 mod 16"

definition is_reg :: "st_info \<Rightarrow> bool" where
  "is_reg i = (ifmt (st_mode i) = 8)"

definition is_dir :: "st_info \<Rightarrow> bool" where
  "is_dir i = (ifmt (st_mode i) = 4)"

text \<open>An inode and, for a directory, its names in the order \<open>os.listdir\<close> gives them.\<close>

datatype fsnode = FsNode (node_info: st_info) (node_entries: "(pystr \<times> fsnode) list")

type_synonym nodes = "(pystr list \<times> st_info) list"

record NativeFilesBackend =
  mount :: GuestPath
  root_fd :: nat
  fs_session :: "pystr option"
  fs_closed :: bool

text \<open>
  \<open>NativeFilesBackend.__init__\<close>: \<open>aliased\<close> is the comparison of the workspace path with its
  resolution, \<open>fd\<close> and \<open>info\<close> what opening the directory gave, \<open>locked\<close> whether another session
  holds the lock.
\<close>

definition native_files_backend ::
    "nat \<Rightarrow> pystr \<Rightarrow> bool \<Rightarrow> nat \<Rightarrow> st_info \<Rightarrow> bool \<Rightarrow> exn + NativeFilesBackend" where
  "native_files_backend uid guest_workspace aliased fd info locked =
     bindE (from_absolute (JStr guest_workspace) (lit ''path'')) (\<lambda>m.
       if parts m = [] then Inl (ValueError (lit ''A dedicated guest workspace is required''))
       else if aliased then Inl (ValueError (lit ''Workspace aliases are unsupported''))
       else if st_uid info \<noteq> uid \<or> st_mode info mod 64 \<noteq> 0
       then Inl (ValueError (lit ''Workspace must be owned and private''))
       else if locked then Inl (OSError 11 (lit ''flock''))
       else Inr \<lparr>mount = m, root_fd = fd, fs_session = None, fs_closed = False\<rparr>)"

section \<open>Inspection\<close>

record inspection =
  seen_metadata :: "GuestPath list"
  seen_directories :: nodes
  seen_count :: nat
  seen_nodes :: nodes

text \<open>The stack \<open>pending\<close> of opened directories; its head is the end of the Python list.\<close>

type_synonym stack = "(fsnode \<times> pystr list \<times> nat) list"

definition supported_inode :: "nat \<Rightarrow> st_info \<Rightarrow> bool" where
  "supported_inode uid i = (st_uid i = uid \<and> (is_reg i \<or> is_dir i) \<and> \<not> (is_reg i \<and> st_nlink i \<noteq> 1))"

definition inspect_name ::
    "nat \<Rightarrow> GuestPath \<Rightarrow> pystr list \<Rightarrow> nat \<Rightarrow> inspection \<times> stack \<Rightarrow> pystr \<times> fsnode \<Rightarrow> exn + inspection \<times> stack" where
  "inspect_name uid mnt ps depth = (\<lambda>(s, stack) (name, node).
     let info = node_info node; child = ps @ [name]; guest = gappend mnt child in
     if utf8_encode name = None then Inl UnicodeError
     else if MAX_ENTRIES < seen_count s + 1 then Inl (ValueError (lit ''Workspace exceeds admission limit''))
     else if \<not> supported_inode uid info
     then Inl (ValueError (lit ''Workspace contains an unsupported alias, owner or file kind''))
     else if name = lit ''.git'' \<and> is_reg info
     then Inl (ValueError (lit ''gitdir worktrees require the native alias resolver''))
     else Inr
       (\<lparr>seen_metadata = seen_metadata s @ (if name \<in> {lit ''.git'', lit ''.agents''} \<and> is_dir info then [guest] else []),
         seen_directories = (if is_dir info then dict_put (seen_directories s) child info else seen_directories s),
         seen_count = seen_count s + 1,
         seen_nodes = dict_put (seen_nodes s) child info\<rparr>,
        if is_dir info then (node, child, depth + 1) # stack else stack))"

definition stack_size :: "stack \<Rightarrow> nat" where
  "stack_size st = sum_list (map (\<lambda>(n, _). size n) st)"

lemma inspect_name_stack:
  "inspect_name uid mnt ps depth (s, st) (name, node) = Inr (t, st') \<Longrightarrow> stack_size st' \<le> size node + stack_size st"
  by (auto simp: inspect_name_def Let_def stack_size_def split: if_splits)

lemma inspect_names_stack:
  "foldE (inspect_name uid mnt ps depth) (s, st) es = Inr (t, st') \<Longrightarrow>
     stack_size st' \<le> sum_list (map (\<lambda>e. size (snd e)) es) + stack_size st"
proof (induction es arbitrary: s st)
  case (Cons e es)
  obtain name node where e: "e = (name, node)" by (cases e)
  obtain s1 st1 where s1: "inspect_name uid mnt ps depth (s, st) e = Inr (s1, st1)"
    "foldE (inspect_name uid mnt ps depth) (s1, st1) es = Inr (t, st')"
    using Cons.prems by (auto simp: bindE_Inr_iff)
  show ?case
    using Cons.IH [OF s1(2)] inspect_name_stack [OF s1(1) [unfolded e]] by (simp add: e)
qed simp

lemma size_entries: "sum_list (map (\<lambda>e. size (snd e)) (node_entries n)) < size n"
proof -
  have "sum_list (map (\<lambda>e. size (snd e)) es) \<le> size_list (size_prod (\<lambda>_. 0) size) es" for es :: "(pystr \<times> fsnode) list"
    by (induction es) (auto simp: size_prod_def split: prod.split)
  moreover have "size n = Suc (size_list (size_prod (\<lambda>_. 0) size) (node_entries n))"
    by (cases n) simp
  ultimately show ?thesis
    by (simp add: le_imp_less_Suc)
qed

function inspect_loop :: "nat \<Rightarrow> GuestPath \<Rightarrow> stack \<Rightarrow> inspection \<Rightarrow> exn + inspection" where
  "inspect_loop uid mnt [] s = Inr s"
| "inspect_loop uid mnt ((node, ps, depth) # st) s =
     (if MAX_DEPTH < depth then Inl (ValueError (lit ''Workspace depth exceeds admission limit''))
      else case foldE (inspect_name uid mnt ps depth) (s, st) (node_entries node) of
          Inl e \<Rightarrow> Inl e
        | Inr (t, st') \<Rightarrow> inspect_loop uid mnt st' t)"
  by pat_completeness auto


termination inspect_loop
proof (relation "measure (\<lambda>(uid, mnt, st, s). stack_size st)", goal_cases)
  case (2 uid mnt node ps depth st s x t st')
  then have "foldE (inspect_name uid mnt ps depth) (s, st) (node_entries node) = Inr (t, st')"
    by simp
  then show ?case
    using inspect_names_stack [of uid mnt ps depth s st "node_entries node" t st'] size_entries [of node]
    by (simp add: stack_size_def)
qed simp

definition inspect :: "nat \<Rightarrow> GuestPath \<Rightarrow> fsnode \<Rightarrow> exn + inspection" where
  "inspect uid mnt tree =
     inspect_loop uid mnt [(tree, [], 0)]
       \<lparr>seen_metadata = [], seen_directories = [([], node_info tree)], seen_count = 0,
        seen_nodes = [([], node_info tree)]\<rparr>"

section \<open>Snapshots and listings\<close>

definition encodeE :: "pystr \<Rightarrow> exn + pybytes" where
  "encodeE s = (case utf8_encode s of None \<Rightarrow> Inl UnicodeError | Some bs \<Rightarrow> Inr bs)"

text \<open>\<open>sorted(xs, key=f)\<close>: every key is computed first, the sort is stable.\<close>

definition sorted_byE :: "('a \<Rightarrow> exn + pybytes) \<Rightarrow> 'a list \<Rightarrow> exn + 'a list" where
  "sorted_byE f xs =
     bindE (mapE (\<lambda>x. bindE (f x) (\<lambda>k. Inr (k, x))) xs) (\<lambda>kxs. Inr (map snd (sort_key fst kxs)))"

definition relative_path :: "pystr list \<Rightarrow> pystr" where
  "relative_path ps = (if ps = [] then lit ''.'' else join_on [47] ps)"

definition snapshot_fields :: "pystr list \<times> st_info \<Rightarrow> pystr list" where
  "snapshot_fields = (\<lambda>(ps, i).
     relative_path ps # map int_str [int (st_dev i), int (st_ino i), int (st_mode i), int (st_size i),
       st_mtime_ns i div 1000000000, st_mtime_ns i mod 1000000000,
       st_ctime_ns i div 1000000000, st_ctime_ns i mod 1000000000])"

definition snapshot_row :: "pystr list \<times> st_info \<Rightarrow> exn + pybytes" where
  "snapshot_row r = bindE (mapE encodeE (snapshot_fields r)) (\<lambda>bss. Inr (join_on [0] bss @ [0]))"

definition snapshot :: "nodes \<Rightarrow> exn + pybytes" where
  "snapshot ns =
     bindE (sorted_byE (\<lambda>(ps, _). encodeE (relative_path ps)) ns) (\<lambda>items.
     bindE (mapE snapshot_row items) (\<lambda>rows.
       let data = concat rows in
       if data = [] \<or> MAX_DATA < length data
       then Inl (ValueError (lit ''Native operation snapshot exceeds admission bound''))
       else Inr data))"

definition denied :: exn where
  "denied = PermissionError (lit ''The supplied filesystem policy denies this operation'')"

text \<open>\<open>policy.decide_uri(path.uri)\<close>.\<close>

definition decide_path :: "ManagedPolicy \<Rightarrow> GuestPath \<Rightarrow> exn + Decision" where
  "decide_path policy g = bindE (guest_uri g) (decide_uri policy)"

definition require_read :: "GuestPath \<Rightarrow> ManagedPolicy \<Rightarrow> pystr list \<Rightarrow> exn + unit" where
  "require_read mnt policy ps =
     bindE (decide_path policy (gappend mnt ps)) (\<lambda>d. if can_read d then Inr () else Inl denied)"

definition child_nodes :: "nodes \<Rightarrow> pystr list \<Rightarrow> exn + (pystr list) list" where
  "child_nodes ns ps =
     sorted_byE (\<lambda>child. encodeE (last child))
       (filter (\<lambda>child. length child = length ps + 1 \<and> butlast child = ps) (map fst ns))"

definition node_of :: "nodes \<Rightarrow> pystr list \<Rightarrow> st_info" where
  "node_of ns ps = the (map_of ns ps)"

definition listing_entry :: "nodes \<Rightarrow> pystr list \<Rightarrow> json" where
  "listing_entry ns child =
     JObj [(lit ''fileName'', JStr (last child)), (lit ''isDirectory'', JBool (is_dir (node_of ns child))),
           (lit ''isFile'', JBool (is_reg (node_of ns child)))]"

definition listing :: "GuestPath \<Rightarrow> pystr list \<Rightarrow> nodes \<Rightarrow> ManagedPolicy \<Rightarrow> exn + json option" where
  "listing mnt ps ns policy =
     seqE (require_read mnt policy ps)
      (case map_of ns ps of
         None \<Rightarrow> Inr None
       | Some info \<Rightarrow>
           if \<not> is_dir info then Inl (rpc (-32600) ''Requested readDirectory path is not a directory'')
           else bindE (child_nodes ns ps) (\<lambda>children.
             if 50000 < length children
             then Inl (ValueError (lit ''Directory listing exceeds the admitted protocol response bound''))
             else Inr (Some (JObj [(lit ''entries'', JArr (map (listing_entry ns) children))]))))"

section \<open>Walk\<close>

definition WALK_KEYS :: "pystr list" where
  "WALK_KEYS = map lit [''maxDepth'', ''maxDirectories'', ''maxEntries'', ''followDirectorySymlinks'',
     ''pruneHiddenDirectories'']"

record walk_options =
  max_depth :: int
  max_directories :: int
  max_entries :: int
  prune_hidden :: bool

definition walk_bound :: "dict \<Rightarrow> string \<Rightarrow> int \<Rightarrow> exn + unit" where
  "walk_bound d k least = raiseIf (\<not> is_int (dget d (lit k)) \<or> int_of (dget d (lit k)) < least)
     (ValueError (lit ''Invalid filesystem walk bound''))"

definition walk_flag :: "dict \<Rightarrow> string \<Rightarrow> exn + unit" where
  "walk_flag d k = raiseIf (has_key d (lit k) \<and> \<not> is_bool (dget d (lit k))) (ValueError (lit ''Invalid filesystem walk option''))"

definition parse_walk_options :: "json \<Rightarrow> exn + walk_options" where
  "parse_walk_options options =
     (let d = obj_of options in
      if \<not> is_obj options \<or> \<not> set (dkeys d) \<subseteq> set WALK_KEYS \<or>
         \<not> set WALK_KEYS - {lit ''pruneHiddenDirectories''} \<subseteq> set (dkeys d)
      then Inl (ValueError (lit ''Walk requires all exact reviewed options''))
      else seqE (walk_bound d ''maxDepth'' 0) (seqE (walk_bound d ''maxDirectories'' 1) (seqE (walk_bound d ''maxEntries'' 1)
        (seqE (walk_flag d ''followDirectorySymlinks'') (seqE (walk_flag d ''pruneHiddenDirectories'')
         (let opt = \<lparr>max_depth = int_of (dget d (lit ''maxDepth'')), max_directories = int_of (dget d (lit ''maxDirectories'')),
                   max_entries = int_of (dget d (lit ''maxEntries'')),
                   prune_hidden = bool_of (dget d (lit ''pruneHiddenDirectories''))\<rparr> in
          if 64 < max_depth opt \<or> 10000 < max_directories opt \<or> 50000 < max_entries opt
          then Inl (ValueError (lit ''Walk limits exceed the admitted workspace bounds''))
          else Inr opt))))))"

text \<open>
  The state of the breadth-first loop.  \<open>room\<close> is \<open>maxDirectories - directory_count\<close>, whose only use in
  the loop is the test for zero.
\<close>

record walk =
  w_entries :: "json list"
  w_truncated :: bool
  w_queue :: "(pystr list \<times> int) list"
  w_room :: nat
  w_count :: int
  w_bytes :: nat

definition walk_entry :: "pystr \<Rightarrow> bool \<Rightarrow> json" where
  "walk_entry uri directory =
     JObj [(lit ''path'', JStr uri), (lit ''kind'', JStr (if directory then lit ''directory'' else lit ''file''))]"

definition outcome :: "walk \<Rightarrow> json" where
  "outcome w = JObj [(lit ''entries'', JArr (w_entries w)), (lit ''errors'', JArr []), (lit ''truncated'', JBool (w_truncated w))]"

text \<open>One iteration of the inner loop; \<open>Inr (w, False)\<close> is the early \<open>return outcome\<close>.\<close>

definition walk_child ::
    "GuestPath \<Rightarrow> nodes \<Rightarrow> ManagedPolicy \<Rightarrow> walk_options \<Rightarrow> int \<Rightarrow> pystr list \<Rightarrow> walk \<Rightarrow> exn + walk \<times> bool" where
  "walk_child mnt ns policy opt depth child w =
     (if w_count w = max_entries opt then Inr (w\<lparr>w_truncated := True\<rparr>, False)
      else let w = w\<lparr>w_count := w_count w + 1\<rparr> in
        seqE (require_read mnt policy child)
        (bindE (guest_uri (gappend mnt child)) (\<lambda>uri.
         bindE (encodeE uri) (\<lambda>bs.
           let directory = is_dir (node_of ns child); w = w\<lparr>w_bytes := w_bytes w + length bs + 64\<rparr> in
           if 4 * 1024 * 1024 < w_bytes w then Inr (w\<lparr>w_truncated := True\<rparr>, False)
           else let w = w\<lparr>w_entries := w_entries w @ [walk_entry uri directory]\<rparr> in
             if directory \<and> depth < max_depth opt \<and> \<not> (prune_hidden opt \<and> take 1 (last child) = lit ''.'')
             then if w_room w = 0 then Inr (w\<lparr>w_truncated := True\<rparr>, True)
               else Inr (w\<lparr>w_room := w_room w - 1, w_queue := w_queue w @ [(child, depth + 1)]\<rparr>, True)
             else Inr (w, True)))))"

fun walk_children ::
    "GuestPath \<Rightarrow> nodes \<Rightarrow> ManagedPolicy \<Rightarrow> walk_options \<Rightarrow> int \<Rightarrow> pystr list list \<Rightarrow> walk \<Rightarrow> exn + walk \<times> bool" where
  "walk_children mnt ns policy opt depth [] w = Inr (w, True)"
| "walk_children mnt ns policy opt depth (child # rest) w =
     bindE (walk_child mnt ns policy opt depth child w) (\<lambda>(w', go).
       if go then walk_children mnt ns policy opt depth rest w' else Inr (w', False))"

definition walk_measure :: "walk \<Rightarrow> nat" where
  "walk_measure w = w_room w + length (w_queue w)"

lemma walk_child_measure:
  "walk_child mnt ns policy opt depth child w = Inr (w', go) \<Longrightarrow> walk_measure w' = walk_measure w"
  unfolding walk_child_def Let_def
  by (auto simp: walk_measure_def bindE_Inr_iff seqE_Inr_iff split: if_splits)

lemma walk_children_measure:
  "walk_children mnt ns policy opt depth cs w = Inr (w', go) \<Longrightarrow> walk_measure w' = walk_measure w"
  by (induction mnt ns policy opt depth cs w rule: walk_children.induct)
    (auto simp: bindE_Inr_iff split: if_splits dest: walk_child_measure)

text \<open>\<open>while queue: ...\<close>.\<close>

function walk_loop :: "GuestPath \<Rightarrow> nodes \<Rightarrow> ManagedPolicy \<Rightarrow> walk_options \<Rightarrow> walk \<Rightarrow> exn + walk" where
  "walk_loop mnt ns policy opt w =
     (case w_queue w of
        [] \<Rightarrow> Inr w
      | (directory, depth) # queue \<Rightarrow>
          seqE (require_read mnt policy directory)
           (case bindE (child_nodes ns directory) (\<lambda>cs. walk_children mnt ns policy opt depth cs (w\<lparr>w_queue := queue\<rparr>)) of
              Inl e \<Rightarrow> Inl e
            | Inr (w', go) \<Rightarrow> if go then walk_loop mnt ns policy opt w' else Inr w'))"
  by auto


lemma walk_step_measure:
  assumes "w_queue w = d # queue"
    and "bindE (child_nodes ns directory) (\<lambda>cs. walk_children mnt ns policy opt depth cs (w\<lparr>w_queue := queue\<rparr>)) = Inr (w', go)"
  shows "walk_measure w' < walk_measure w"
proof -
  have "walk_measure w' = walk_measure (w\<lparr>w_queue := queue\<rparr>)"
    using assms(2) by (auto simp: bindE_Inr_iff dest: walk_children_measure)
  then show ?thesis
    using assms(1) by (simp add: walk_measure_def)
qed

termination walk_loop
  by (relation "measure (\<lambda>(mnt, ns, policy, opt, w). walk_measure w)") (auto simp: walk_step_measure)

declare walk_loop.simps [simp del]

definition walk_files :: "GuestPath \<Rightarrow> pystr list \<Rightarrow> nodes \<Rightarrow> ManagedPolicy \<Rightarrow> json \<Rightarrow> exn + json option" where
  "walk_files mnt ps ns policy options =
     bindE (parse_walk_options options) (\<lambda>opt.
       let w = \<lparr>w_entries = [], w_truncated = False, w_queue = [(ps, 0)], w_room = nat (max_directories opt) - 1,
                w_count = 0, w_bytes = 0\<rparr> in
       case map_of ns ps of
         None \<Rightarrow> Inr None
       | Some info \<Rightarrow> if \<not> is_dir info then Inr (Some (outcome w))
           else bindE (walk_loop mnt ns policy opt w) (\<lambda>w'. Inr (Some (outcome w'))))"

section \<open>Mutation plans\<close>

definition explicit_grant :: "ManagedPolicy \<Rightarrow> GuestPath \<Rightarrow> GuestPath \<Rightarrow> bool" where
  "explicit_grant policy protected g =
     list_ex (\<lambda>e. re_access e = WRITE \<and> contains protected (re_path e) \<and> contains (re_path e) g) (resolved_entries policy)"

definition require_write :: "ManagedPolicy \<Rightarrow> GuestPath \<Rightarrow> GuestPath list \<Rightarrow> exn + unit" where
  "require_write policy g metadata =
     bindE (decide_path policy g) (\<lambda>d.
       if \<not> can_write d then Inl denied
       else raiseIf (list_ex (\<lambda>protected. contains protected g \<and> \<not> explicit_grant policy protected g) metadata)
         (PermissionError (lit ''Existing project metadata is protected'')))"

definition remove_plan :: "GuestPath \<Rightarrow> pystr list \<Rightarrow> nodes \<Rightarrow> ManagedPolicy \<Rightarrow> GuestPath list \<Rightarrow> bool \<Rightarrow> exn + unit" where
  "remove_plan mnt ps ns policy metadata recursive =
     eachE (\<lambda>child.
       if take (length ps) child = ps then
         if child \<noteq> ps \<and> \<not> recursive then Inl (rpc (-32600) ''Requested directory is not empty'')
         else require_write policy (gappend mnt child) metadata
       else Inr ()) (map fst ns)"

definition copy_target :: "pystr list \<Rightarrow> pystr list \<Rightarrow> pystr list \<Rightarrow> pystr list" where
  "copy_target source destination ps = destination @ drop (length source) ps"

definition ancestors :: "pystr list \<Rightarrow> pystr list list" where
  "ancestors target = map (\<lambda>depth. take depth target) [1..<length target]"

text \<open>The loop over the ancestors of a target; the state is the set \<open>created\<close> as a list.\<close>

definition copy_parent ::
    "GuestPath \<Rightarrow> nodes \<Rightarrow> ManagedPolicy \<Rightarrow> GuestPath list \<Rightarrow> bool \<Rightarrow> pystr list list \<Rightarrow> pystr list \<Rightarrow> exn + pystr list list" where
  "copy_parent mnt ns policy metadata source_directory created parent =
     (case map_of ns parent of
        Some i \<Rightarrow> if is_dir i then Inr created else Inl (ValueError (lit ''Copy destination ancestor is not a directory''))
      | None \<Rightarrow>
          if source_directory
          then seqE (require_write policy (gappend mnt parent) metadata) (Inr (List.insert parent created))
          else Inl (rpc (-32004) ''Copy destination parent does not exist''))"

definition copy_node ::
    "GuestPath \<Rightarrow> nodes \<Rightarrow> ManagedPolicy \<Rightarrow> GuestPath list \<Rightarrow> pystr list \<Rightarrow> pystr list \<Rightarrow> bool \<Rightarrow>
     pystr list list \<times> nat \<Rightarrow> pystr list \<times> st_info \<Rightarrow> exn + pystr list list \<times> nat" where
  "copy_node mnt ns policy metadata source destination source_directory = (\<lambda>(created, total) (ps, info).
     let target = copy_target source destination ps; total' = (if is_reg info then total + st_size info else total) in
     seqE (require_read mnt policy ps)
    (if MAX_DEPTH + (if is_reg info then 1 else 0) < length target
     then Inl (ValueError (lit ''Copy exceeds the admitted workspace depth''))
     else seqE (require_write policy (gappend mnt target) metadata)
    (if (case map_of ns target of None \<Rightarrow> False | Some i \<Rightarrow> ifmt (st_mode i) \<noteq> ifmt (st_mode info))
     then Inl (ValueError (lit ''Copy destination kind conflicts with the source''))
     else if is_reg info \<and> last target = lit ''.git''
     then Inl (ValueError (lit ''Creating gitdir files requires the native alias resolver''))
     else if is_reg info \<and> (MAX_DATA < total' \<or> st_mode info div 512 mod 8 \<noteq> 0)
     then Inl (ValueError (lit ''Copy exceeds data bound or has unsupported special mode bits''))
     else bindE (foldE (copy_parent mnt ns policy metadata source_directory) created (ancestors target)) (\<lambda>created'.
       Inr (if map_of ns target = None then List.insert target created' else created', total')))))"

definition copy_plan ::
    "GuestPath \<Rightarrow> pystr list \<Rightarrow> pystr list \<Rightarrow> nodes \<Rightarrow> ManagedPolicy \<Rightarrow> GuestPath list \<Rightarrow> bool \<Rightarrow> exn + unit" where
  "copy_plan mnt source destination ns policy metadata recursive =
     (if take (length destination) source = destination \<or> take (length source) destination = source
      then Inl (ValueError (lit ''Copy paths must not overlap in the admitted workspace''))
      else case map_of ns source of
        None \<Rightarrow> Inr ()
      | Some info \<Rightarrow>
          if is_dir info \<and> \<not> recursive then Inl (ValueError (lit ''Copying a directory requires recursive true''))
          else let selected = filter (\<lambda>(ps, _). take (length source) ps = source) ns;
                   targets = map (copy_target source destination \<circ> fst)
                     (filter (\<lambda>(ps, i). is_dir i \<and> last (copy_target source destination ps) \<in> {lit ''.git'', lit ''.agents''}) selected);
                   prospective = metadata @ map (gappend mnt) targets in
            bindE (foldE (copy_node mnt ns policy prospective source destination (is_dir info)) ([], 0) selected)
              (\<lambda>(created, total). raiseIf (MAX_ENTRIES < length ns - 1 + length created)
                 (ValueError (lit ''Copy exceeds the workspace entry limit''))))"

text \<open>\<open>while existing < len(parts) and parts[:existing + 1] in directories\<close>.\<close>

function existing_prefix :: "pystr list \<Rightarrow> nodes \<Rightarrow> nat \<Rightarrow> nat" where
  "existing_prefix ps directories n =
     (if n < length ps \<and> map_of directories (take (n + 1) ps) \<noteq> None then existing_prefix ps directories (n + 1) else n)"
  by auto

termination existing_prefix
  by (relation "measure (\<lambda>(ps, directories, n). length ps - n)") auto

declare existing_prefix.simps [simp del]

definition directory_plan ::
    "NativeFilesBackend \<Rightarrow> GuestPath \<Rightarrow> bool \<Rightarrow> ManagedPolicy \<Rightarrow> inspection \<Rightarrow> exn + pystr list" where
  "directory_plan b g recursive policy s =
     (let ps = drop (length (parts (mount b))) (parts g);
          existing = existing_prefix ps (seen_directories s) 0;
          missing = length ps - existing in
      if MAX_DEPTH < length ps then Inl (ValueError (lit ''Directory creation exceeds workspace depth limit''))
      else if \<not> recursive \<and> 1 < missing then Inl (rpc (-32004) ''Requested directory parent does not exist'')
      else if MAX_ENTRIES < seen_count s + missing
      then Inl (ValueError (lit ''Directory creation exceeds workspace admission limit''))
      else seqE (eachE (\<lambda>n. require_write policy (gappend (mount b) (take n ps)) (seen_metadata s)) [existing + 1..<length ps + 1])
       (case map_of (seen_directories s) (take existing ps) of
          None \<Rightarrow> Inl (KeyError [])
        | Some parent \<Rightarrow> Inr [if recursive then lit ''mkdirs'' else lit ''mkdir'', nat_digits (root_fd b), relative_path ps,
            nat_digits missing, nat_digits (st_dev parent), nat_digits (st_ino parent)]))"


section \<open>Requests\<close>

definition supported_methods :: "pystr list" where
  "supported_methods = map lit [''fs/readFile'', ''fs/writeFile'', ''fs/createDirectory'', ''fs/getMetadata'',
     ''fs/canonicalize'', ''fs/readDirectory'', ''fs/walk'', ''fs/remove'', ''fs/copy'']"

definition allowed_fields :: "pystr \<Rightarrow> pystr list" where
  "allowed_fields m =
     (if m = lit ''fs/copy'' then map lit [''sourcePath'', ''destinationPath'', ''recursive'', ''sandbox'']
      else if m \<in> {lit ''fs/readDirectory'', lit ''fs/walk''}
      then map lit [''path'', ''sandbox''] @ (if m = lit ''fs/walk'' then [lit ''options''] else [])
      else map lit [''path'', ''sandbox''] @ (if m = lit ''fs/canonicalize'' then [] else [lit ''followSymlinks'']) @
        (if m = lit ''fs/writeFile'' then [lit ''dataBase64'']
         else if m = lit ''fs/createDirectory'' then [lit ''recursive'']
         else if m = lit ''fs/remove'' then [lit ''recursive'', lit ''force''] else []))"

definition optional_flag :: "dict \<Rightarrow> string \<Rightarrow> string \<Rightarrow> exn + unit" where
  "optional_flag d k msg = raiseIf (dget d (lit k) \<noteq> JNull \<and> \<not> is_bool (dget d (lit k))) (ValueError (lit msg))"

definition check_request :: "pystr \<Rightarrow> json \<Rightarrow> exn + dict" where
  "check_request m params =
     (let d = obj_of params in
      if \<not> is_obj params \<or> \<not> set (dkeys d) \<subseteq> set (allowed_fields m)
      then Inl (ValueError (lit ''Unsupported filesystem request field''))
      else seqE (optional_flag d ''followSymlinks'' ''Invalid followSymlinks option'')
       (seqE (if m \<in> {lit ''fs/createDirectory'', lit ''fs/remove'', lit ''fs/copy''}
              then optional_flag d ''recursive'' ''Invalid recursive option'' else Inr ())
       (seqE (if m = lit ''fs/remove'' then optional_flag d ''force'' ''Invalid force option'' else Inr ())
       (seqE (raiseIf (m = lit ''fs/copy'' \<and> \<not> is_bool (dget d (lit ''recursive'')))
                (ValueError (lit ''Copy requires an explicit recursive boolean'')))
          (Inr d)))))"

text \<open>\<open>str(call.request_id)\<close> and \<open>params[k]\<close>.\<close>

definition id_text :: "json \<Rightarrow> pystr" where
  "id_text v = (case v of JStr s \<Rightarrow> s | JInt i \<Rightarrow> int_str i | _ \<Rightarrow> [])"

definition getitem :: "dict \<Rightarrow> pystr \<Rightarrow> exn + json" where
  "getitem d k = (if has_key d k then Inr (dget d k) else Inl (KeyError k))"

text \<open>\<open>parse_context(intent.to_document()["context"])\<close>.\<close>

definition request_policy :: "(pybytes \<Rightarrow> pystr) \<Rightarrow> BackendCall \<Rightarrow> dict \<Rightarrow> exn + ManagedPolicy" where
  "request_policy sha256 call d =
     bindE (prepare_policy_intent (dget d (lit ''sandbox'')) (call_session call) (id_text (call_request call)) (call_method call))
       (\<lambda>intent. bindE (to_document sha256 intent) (\<lambda>doc. parse_context (dget (obj_of doc) (lit ''context''))))"

definition MUTATING :: "pystr list" where
  "MUTATING = map lit [''fs/writeFile'', ''fs/createDirectory'', ''fs/remove'']"

definition ROOT_METHODS :: "pystr list" where
  "ROOT_METHODS = map lit [''fs/createDirectory'', ''fs/getMetadata'', ''fs/canonicalize'', ''fs/readDirectory'', ''fs/walk'']"

definition PLANNED :: "pystr list" where
  "PLANNED = map lit [''fs/readDirectory'', ''fs/walk'', ''fs/remove'', ''fs/copy'']"

definition request_path :: "NativeFilesBackend \<Rightarrow> pystr \<Rightarrow> dict \<Rightarrow> ManagedPolicy \<Rightarrow> exn + GuestPath" where
  "request_path b m d policy =
     bindE (getitem d (if m = lit ''fs/copy'' then lit ''sourcePath'' else lit ''path'')) (\<lambda>v.
     bindE (from_uri v (lit ''path'')) (\<lambda>g.
       if \<not> contains (mount b) g \<or> g = mount b \<and> m \<notin> set ROOT_METHODS
       then Inl (ValueError (lit ''Path is outside the admitted workspace mapping''))
       else bindE (decide_path policy g) (\<lambda>decision.
         if (if m \<in> set MUTATING then can_write decision else can_read decision) then Inr g else Inl denied)))"

definition request_destination :: "NativeFilesBackend \<Rightarrow> pystr \<Rightarrow> dict \<Rightarrow> exn + GuestPath option" where
  "request_destination b m d =
     (if m \<noteq> lit ''fs/copy'' then Inr None
      else bindE (getitem d (lit ''destinationPath'')) (\<lambda>v.
        bindE (from_uri v (lit ''path'')) (\<lambda>g.
          if \<not> contains (mount b) g \<or> g = mount b
          then Inl (ValueError (lit ''Copy destination is outside the admitted workspace mapping''))
          else Inr (Some g))))"

definition write_data :: "GuestPath \<Rightarrow> dict \<Rightarrow> exn + pybytes" where
  "write_data g d =
     (if last (parts g) = lit ''.git'' then Inl (ValueError (lit ''Creating gitdir files requires the native alias resolver''))
      else bindE (getitem d (lit ''dataBase64'')) (\<lambda>v.
        if \<not> is_str v \<or> (MAX_DATA + 2) div 3 * 4 < length (str_of v)
        then Inl (ValueError (lit ''Write exceeds the admitted data bound''))
        else case b64decode (str_of v) of
            None \<Rightarrow> Inl BinasciiError
          | Some bs \<Rightarrow> if MAX_DATA < length bs then Inl (ValueError (lit ''Write exceeds the admitted data bound'')) else Inr bs))"

record plan =
  plan_path :: GuestPath
  plan_arguments :: "pystr list"
  plan_data :: pybytes
  planned_result :: "json option"

definition inside :: "NativeFilesBackend \<Rightarrow> GuestPath \<Rightarrow> pystr list" where
  "inside b g = drop (length (parts (mount b))) (parts g)"

definition flag_text :: "bool \<Rightarrow> pystr" where
  "flag_text x = (if x then lit ''1'' else lit ''0'')"

definition tree_plan ::
    "NativeFilesBackend \<Rightarrow> pystr \<Rightarrow> dict \<Rightarrow> ManagedPolicy \<Rightarrow> inspection \<Rightarrow> GuestPath \<Rightarrow> GuestPath option \<Rightarrow> exn + plan" where
  "tree_plan b m d policy s g destination =
     bindE (snapshot (seen_nodes s)) (\<lambda>data.
       let ps = inside b g; fd = nat_digits (root_fd b); len = nat_digits (length data) in
       if m = lit ''fs/readDirectory'' then
         bindE (listing (mount b) ps (seen_nodes s) policy) (\<lambda>r.
           Inr \<lparr>plan_path = g, plan_arguments = [lit ''tree'', fd, relative_path ps, len], plan_data = data, planned_result = r\<rparr>)
       else if m = lit ''fs/walk'' then
         bindE (getitem d (lit ''options'')) (\<lambda>options.
         bindE (walk_files (mount b) ps (seen_nodes s) policy options) (\<lambda>r.
           Inr \<lparr>plan_path = g, plan_arguments = [lit ''tree'', fd, relative_path ps, len], plan_data = data, planned_result = r\<rparr>))
       else if m = lit ''fs/remove'' then
         let recursive = (dget d (lit ''recursive'') \<noteq> JBool False); force = (dget d (lit ''force'') \<noteq> JBool False) in
         seqE (remove_plan (mount b) ps (seen_nodes s) policy (seen_metadata s) recursive)
          (Inr \<lparr>plan_path = g, plan_arguments = [lit ''remove'', fd, relative_path ps, len, flag_text recursive, flag_text force],
                plan_data = data, planned_result = None\<rparr>)
       else
         let target = inside b (the destination); recursive = bool_of (dget d (lit ''recursive'')) in
         seqE (copy_plan (mount b) ps target (seen_nodes s) policy (seen_metadata s) recursive)
          (Inr \<lparr>plan_path = g, plan_arguments = [lit ''copy'', fd, relative_path ps, len, join_on [47] target, flag_text recursive],
                plan_data = data, planned_result = None\<rparr>))"

definition file_plan ::
    "NativeFilesBackend \<Rightarrow> pystr \<Rightarrow> dict \<Rightarrow> ManagedPolicy \<Rightarrow> inspection \<Rightarrow> GuestPath \<Rightarrow> pybytes \<Rightarrow> exn + plan" where
  "file_plan b m d policy s g data =
     (let fd = nat_digits (root_fd b); rel = relative_path (inside b g) in
      bindE
       (if m = lit ''fs/createDirectory''
        then directory_plan b g (dget d (lit ''recursive'') \<noteq> JBool False) policy s
        else if m \<in> {lit ''fs/getMetadata'', lit ''fs/canonicalize''} then
          Inr [if m = lit ''fs/canonicalize'' then lit ''canonicalize''
               else if dget d (lit ''followSymlinks'') = JBool False then lit ''metadata-nofollow'' else lit ''metadata'',
               fd, rel, lit ''0'']
        else Inr [if m = lit ''fs/writeFile'' then lit ''write'' else lit ''read'', fd, rel, nat_digits (length data)])
       (\<lambda>arguments. Inr \<lparr>plan_path = g, plan_arguments = arguments, plan_data = data, planned_result = None\<rparr>))"

definition plan_request ::
    "(pybytes \<Rightarrow> pystr) \<Rightarrow> nat \<Rightarrow> fsnode \<Rightarrow> NativeFilesBackend \<Rightarrow> BackendCall \<Rightarrow> json \<Rightarrow> exn + plan" where
  "plan_request sha256 uid tree b call params =
     (let m = call_method call in
      bindE (check_request m params) (\<lambda>d.
      bindE (request_policy sha256 call d) (\<lambda>policy.
      bindE (request_path b m d policy) (\<lambda>g.
      bindE (request_destination b m d) (\<lambda>destination.
      bindE (inspect uid (mount b) tree) (\<lambda>s.
      seqE (if m \<in> set MUTATING then require_write policy g (seen_metadata s) else Inr ())
     (seqE (case destination of None \<Rightarrow> Inr () | Some t \<Rightarrow> require_write policy t (seen_metadata s))
     (bindE (if m = lit ''fs/writeFile'' then write_data g d else Inr []) (\<lambda>data.
        if m \<in> set PLANNED then tree_plan b m d policy s g destination
        else file_plan b m d policy s g data)))))))))"

text \<open>\<open>_native_operation\<close>, up to the supervision of the child process.\<close>

type_synonym helper = "pystr list \<Rightarrow> pybytes \<Rightarrow> (int \<times> pybytes \<times> pybytes) option"

definition native_operation :: "helper \<Rightarrow> pystr list \<Rightarrow> pybytes \<Rightarrow> bool \<Rightarrow> exn + pybytes" where
  "native_operation helper arguments data empty_output =
     (case helper arguments data of
        None \<Rightarrow> Inl TimeoutError
      | Some (returncode, output, diagnostic) \<Rightarrow>
          if returncode \<noteq> 0 then Inl (native_failure diagnostic)
          else if diagnostic \<noteq> [] \<or> empty_output \<and> output \<noteq> [] \<or> MAX_DATA < length output
          then Inl (rpc (-32000) ''Native filesystem response violates its contract'')
          else Inr output)"

definition is_request_error :: "exn \<Rightarrow> bool" where
  "is_request_error e = (case e of KeyError _ \<Rightarrow> True | _ \<Rightarrow> is_value_error e \<or> is_os_error e)"

definition empty_result :: json where
  "empty_result = JObj []"

definition request_result :: "pystr \<Rightarrow> plan \<Rightarrow> pybytes \<Rightarrow> exn + json" where
  "request_result m p output =
     (if m \<in> {lit ''fs/readDirectory'', lit ''fs/walk''} then
        (case planned_result p of
           None \<Rightarrow> Inl (rpc (-32603) ''Native listing unexpectedly admitted a missing target'')
         | Some r \<Rightarrow> Inr r)
      else if m \<in> set PLANNED then Inr empty_result
      else if m = lit ''fs/getMetadata'' then native_metadata output
      else if m = lit ''fs/canonicalize''
      then bindE (guest_uri (plan_path p)) (\<lambda>uri. Inr (JObj [(lit ''path'', JStr uri)]))
      else if m \<in> {lit ''fs/writeFile'', lit ''fs/createDirectory''} then Inr empty_result
      else Inr (JObj [(lit ''dataBase64'', JStr (b64encode output))]))"

definition handle ::
    "(pybytes \<Rightarrow> pystr) \<Rightarrow> (exn \<Rightarrow> pystr) \<Rightarrow> nat \<Rightarrow> helper \<Rightarrow> fsnode \<Rightarrow> NativeFilesBackend \<Rightarrow> BackendCall \<Rightarrow>
     NativeFilesBackend \<times> (exn + json)" where
  "handle sha256 text uid helper tree b call =
     (let m = call_method call in
      if m \<notin> set supported_methods then (b, Inl (rpc (-32601) ''Native filesystem method is not implemented''))
      else if fs_closed b then (b, Inl (rpc (-32000) ''Filesystem session is closed''))
      else if fs_session b \<noteq> None \<and> fs_session b \<noteq> Some (call_session call)
      then (b, Inl (rpc (-32000) ''Workspace belongs to another executor session''))
      else let b = b\<lparr>fs_session := Some (call_session call)\<rparr> in
        (b, bindE (call_params call) (\<lambda>params.
            bindE (catchE (plan_request sha256 uid tree b call params) is_request_error (\<lambda>e. RpcError (-32000) (text e) None)) (\<lambda>p.
            bindE (native_operation helper (plan_arguments p) (plan_data p)
                    (m \<in> set PLANNED \<or> m \<in> set (map lit [''fs/writeFile'', ''fs/createDirectory'', ''fs/canonicalize'']))) (\<lambda>output.
              request_result m p output)))))"

definition close_files :: "NativeFilesBackend \<Rightarrow> pystr \<Rightarrow> NativeFilesBackend \<times> (exn + unit)" where
  "close_files b session_id =
     (if fs_closed b then (b, Inr ())
      else if fs_session b \<noteq> None \<and> fs_session b \<noteq> Some session_id
      then (b, Inl (rpc (-32000) ''Cannot close a different filesystem session''))
      else (b\<lparr>fs_closed := True\<rparr>, Inr ()))"

end
