(* ===== verification/NativeFilesFacts.thy ===== *)
theory NativeFilesFacts
  imports NativeFiles
begin

text \<open>
  What the file backend guarantees: an inspection is the whole workspace tree, a plan is built only
  when the request's own policy allows every inode it touches, a walk stays within its bounds, native
  failures map to the documented codes, and a workspace serves one session.
\<close>

section \<open>The workspace tree\<close>

fun lookup :: "fsnode \<Rightarrow> pystr list \<Rightarrow> fsnode option" where
  "lookup n [] = Some n"
| "lookup n (p # ps) = (case map_of (node_entries n) p of None \<Rightarrow> None | Some c \<Rightarrow> lookup c ps)"

text \<open>A directory names a child once and only directories have children.\<close>

fun wf_tree :: "fsnode \<Rightarrow> bool" where
  "wf_tree (FsNode i es) \<longleftrightarrow>
     distinct (map fst es) \<and> (es \<noteq> [] \<longrightarrow> is_dir i) \<and> list_all (\<lambda>e. wf_tree (snd e)) es"

lemma wf_tree_unfold:
  "wf_tree n \<longleftrightarrow> distinct (map fst (node_entries n)) \<and> (node_entries n \<noteq> [] \<longrightarrow> is_dir (node_info n)) \<and>
     (\<forall>(name, c) \<in> set (node_entries n). wf_tree c)"
  by (cases n) (auto simp: list_all_iff)

lemma lookup_append: "lookup n (ps @ qs) = (case lookup n ps of None \<Rightarrow> None | Some m \<Rightarrow> lookup m qs)"
  by (induction n ps rule: lookup.induct) (auto split: option.splits)

lemma wf_tree_child: "wf_tree n \<Longrightarrow> map_of (node_entries n) p = Some c \<Longrightarrow> wf_tree c"
  using wf_tree_unfold [of n] by (auto dest!: map_of_SomeD)

lemma wf_tree_lookup: "wf_tree n \<Longrightarrow> lookup n ps = Some m \<Longrightarrow> wf_tree m"
  by (induction n ps rule: lookup.induct) (auto split: option.splits dest: wf_tree_child)

section \<open>Inspection\<close>

definition orelse :: "'a option \<Rightarrow> 'a option \<Rightarrow> 'a option" where
  "orelse x y = (case x of None \<Rightarrow> y | Some v \<Rightarrow> Some v)"

lemma orelse_simps [simp]: "orelse None y = y" "orelse (Some v) y = Some v" "orelse x None = x"
  by (simp_all add: orelse_def split: option.split)

lemma orelse_absorb [simp]: "orelse x (orelse x y) = orelse x y"
  by (cases x) simp_all

text \<open>What a name adds when no check fails.\<close>

definition absorb :: "GuestPath \<Rightarrow> pystr list \<Rightarrow> inspection \<Rightarrow> pystr \<times> fsnode \<Rightarrow> inspection" where
  "absorb mnt ps s = (\<lambda>(name, node). let info = node_info node; child = ps @ [name] in
     \<lparr>seen_metadata = seen_metadata s @ (if name \<in> {lit ''.git'', lit ''.agents''} \<and> is_dir info then [gappend mnt child] else []),
      seen_directories = (if is_dir info then dict_put (seen_directories s) child info else seen_directories s),
      seen_count = seen_count s + 1,
      seen_nodes = dict_put (seen_nodes s) child info\<rparr>)"

definition opened :: "pystr list \<Rightarrow> nat \<Rightarrow> pystr \<times> fsnode \<Rightarrow> stack" where
  "opened ps depth = (\<lambda>(name, node). if is_dir (node_info node) then [(node, ps @ [name], depth + 1)] else [])"

definition admissible :: "nat \<Rightarrow> pystr \<times> fsnode \<Rightarrow> bool" where
  "admissible uid = (\<lambda>(name, node). utf8_encode name \<noteq> None \<and> supported_inode uid (node_info node) \<and>
     \<not> (name = lit ''.git'' \<and> is_reg (node_info node)))"

lemma inspect_name_Inr:
  "inspect_name uid mnt ps depth (s, st) e = Inr (t, st') \<longleftrightarrow>
     admissible uid e \<and> seen_count s < MAX_ENTRIES \<and> t = absorb mnt ps s e \<and> st' = opened ps depth e @ st"
  by (cases e) (auto simp: inspect_name_def Let_def admissible_def absorb_def opened_def)

lemma inspect_names_Inr:
  "foldE (inspect_name uid mnt ps depth) (s, st) es = Inr (t, st') \<Longrightarrow>
     list_all (admissible uid) es \<and> t = foldl (absorb mnt ps) s es \<and> st' = concat (map (opened ps depth) (rev es)) @ st \<and>
     (es \<noteq> [] \<longrightarrow> seen_count t \<le> MAX_ENTRIES)"
proof (induction es arbitrary: s st)
  case (Cons e es)
  obtain s1 st1 where s1: "inspect_name uid mnt ps depth (s, st) e = Inr (s1, st1)"
    "foldE (inspect_name uid mnt ps depth) (s1, st1) es = Inr (t, st')"
    using Cons.prems by (auto simp: bindE_Inr_iff)
  then have "seen_count s < MAX_ENTRIES" "s1 = absorb mnt ps s e" "st1 = opened ps depth e @ st" "admissible uid e"
    by (auto simp: inspect_name_Inr)
  moreover from this have "seen_count s1 \<le> MAX_ENTRIES"
    by (auto simp: absorb_def Let_def split: prod.splits)
  ultimately show ?case
    using Cons.IH [OF s1(2)] by (cases es) auto
qed simp

text \<open>The two dictionaries an inspection fills, as one: \<open>view True\<close> has the directories only.\<close>

definition view :: "bool \<Rightarrow> inspection \<Rightarrow> nodes" where
  "view dirs s = (if dirs then seen_directories s else seen_nodes s)"

definition shown :: "bool \<Rightarrow> fsnode \<Rightarrow> st_info option" where
  "shown dirs n = (if dirs \<and> \<not> is_dir (node_info n) then None else Some (node_info n))"

lemma view_absorb:
  "map_of (view dirs (absorb mnt ps s (name, node))) k =
     (if k = ps @ [name] then orelse (shown dirs node) (map_of (view dirs s) k)
      else map_of (view dirs s) k)"
  by (simp add: view_def absorb_def shown_def Let_def dict_put_lookup)

lemma view_names_child:
  "distinct (map fst es) \<Longrightarrow>
   map_of (view dirs (foldl (absorb mnt ps) s es)) (ps @ [name]) =
     orelse (Option.bind (map_of es name) (shown dirs)) (map_of (view dirs s) (ps @ [name]))"
proof (induction es arbitrary: s)
  case (Cons e es)
  obtain a c where e: "e = (a, c)" by (cases e)
  have "map_of es a = None"
    using Cons.prems by (simp add: e map_of_eq_None_iff)
  with Cons show ?case
    by (cases "name = a") (simp_all add: e view_absorb)
qed simp

lemma view_names_other:
  "(\<And>name. k \<noteq> ps @ [name]) \<Longrightarrow> map_of (view dirs (foldl (absorb mnt ps) s es)) k = map_of (view dirs s) k"
proof (induction es arbitrary: s)
  case (Cons e es)
  then show ?case by (cases e) (simp add: view_absorb)
qed simp

text \<open>What the stack still hides: the inodes strictly below one of its directories.\<close>

definition hidden :: "fsnode \<Rightarrow> stack \<Rightarrow> pystr list \<Rightarrow> fsnode option" where
  "hidden tree st k = (if \<exists>(n, ps, d) \<in> set st. strict_prefix ps k then lookup tree k else None)"

definition stack_ok :: "fsnode \<Rightarrow> stack \<Rightarrow> bool" where
  "stack_ok tree st \<longleftrightarrow> (\<forall>(n, ps, d) \<in> set st. lookup tree ps = Some n \<and> d = length ps)"

lemma opened_ok:
  assumes "lookup tree ps = Some n" and "wf_tree n" and "stack_ok tree st"
  shows "stack_ok tree (concat (map (opened ps (length ps)) (rev (node_entries n))) @ st)"
proof -
  have "lookup tree (ps @ [name]) = Some c" if "(name, c) \<in> set (node_entries n)" for name c
    using assms(1) that map_of_is_SomeI [OF _ that] wf_tree_unfold [of n] assms(2) by (simp add: lookup_append)
  with assms(3) show ?thesis
    by (fastforce simp: stack_ok_def opened_def split: if_splits)
qed


lemma opened_below: "(n, qs, d) \<in> set (opened ps depth e) \<Longrightarrow> \<exists>name. qs = ps @ [name]"
  by (auto simp: opened_def split: prod.splits if_splits)

lemma inspect_loop_step:
  assumes "inspect_loop uid mnt ((node, ps, depth) # st) s = Inr t" and "wf_tree tree"
    and "stack_ok tree ((node, ps, depth) # st)"
  defines "s' \<equiv> foldl (absorb mnt ps) s (node_entries node)"
    and "st' \<equiv> concat (map (opened ps depth) (rev (node_entries node))) @ st"
  shows "lookup tree ps = Some node" and "depth = length ps" and "wf_tree node" and "stack_ok tree st'"
    and "foldE (inspect_name uid mnt ps depth) (s, st) (node_entries node) = Inr (s', st')"
    and "\<not> MAX_DEPTH < depth" and "inspect_loop uid mnt st' s' = Inr t"
proof -
  show node: "lookup tree ps = Some node" "depth = length ps"
    using assms(3) by (simp_all add: stack_ok_def)
  then show wf: "wf_tree node"
    using wf_tree_lookup assms(2) by blast
  show "stack_ok tree st'"
    unfolding st'_def node(2) by (rule opened_ok [OF node(1) wf]) (use assms(3) in \<open>simp add: stack_ok_def\<close>)
  obtain x where x: "foldE (inspect_name uid mnt ps depth) (s, st) (node_entries node) = Inr x" "\<not> MAX_DEPTH < depth"
    "inspect_loop uid mnt (snd x) (fst x) = Inr t"
    using assms(1) by (auto split: if_splits sum.splits prod.splits)
  then have "x = (s', st')"
    using inspect_names_Inr [of uid mnt ps depth s st "node_entries node" "fst x" "snd x"]
    by (simp add: prod_eq_iff s'_def st'_def)
  with x show "foldE (inspect_name uid mnt ps depth) (s, st) (node_entries node) = Inr (s', st')"
    "\<not> MAX_DEPTH < depth" "inspect_loop uid mnt st' s' = Inr t"
    by simp_all
qed

text \<open>A child with something below it has been pushed on the stack.\<close>

lemma opened_ancestor:
  assumes "wf_tree node" and "map_of (node_entries node) name = Some c" and "lookup c (q # qs) \<noteq> None"
  shows "(c, ps @ [name], depth + 1) \<in> set (concat (map (opened ps depth) (rev (node_entries node))) @ st)"
proof -
  have "node_entries c \<noteq> []"
    using assms(3) by (auto split: option.splits)
  then have "is_dir (node_info c)"
    using wf_tree_child [OF assms(1,2)] wf_tree_unfold [of c] by blast
  with map_of_SomeD [OF assms(2)] show ?thesis
    by (force simp: opened_def)
qed

lemma strict_prefix_Cons_append: "strict_prefix ps k \<longleftrightarrow> (\<exists>name qs. k = ps @ name # qs)"
  by (auto simp: strict_prefix_def prefix_def) (metis neq_Nil_conv)

lemma inspect_loop_view:
  assumes "inspect_loop uid mnt st s = Inr t" and "wf_tree tree" and "stack_ok tree st"
  shows "map_of (view dirs t) k =
    orelse (Option.bind (hidden tree st k) (shown dirs)) (map_of (view dirs s) k)"
  using assms(1,3)
proof (induction uid mnt st s rule: inspect_loop.induct)
  case (1 uid mnt s)
  then show ?case by (simp add: hidden_def)
next
  case (2 uid mnt node ps depth st s)
  let ?st = "concat (map (opened ps depth) (rev (node_entries node))) @ st"
  let ?s = "foldl (absorb mnt ps) s (node_entries node)"
  note step = inspect_loop_step [OF 2(2) assms(2) 2(3)]
  note node = step(1,2) and wf = step(3)
  have IH: "map_of (view dirs t) k =
    orelse (Option.bind (hidden tree ?st k) (shown dirs)) (map_of (view dirs ?s) k)"
    using 2(1) [OF step(6,5), of ?s ?st] step(4,7) by simp
  show ?case
  proof (cases "\<exists>name qs. k = ps @ name # qs")
    case False
    then have no: "\<not> strict_prefix ps k"
      by (simp add: strict_prefix_Cons_append)
    then have "\<not> strict_prefix (ps @ [name]) k" for name
      by (metis prefixI prefix_order.le_less_trans)
    then have "hidden tree ?st k = hidden tree ((node, ps, depth) # st) k"
      using no by (fastforce simp: hidden_def dest: opened_below)
    moreover have "map_of (view dirs ?s) k = map_of (view dirs s) k"
      using False by (intro view_names_other) blast
    ultimately show ?thesis using IH by simp
  next
    case True
    then obtain name qs where k: "k = ps @ name # qs" by blast
    have h: "hidden tree ((node, ps, depth) # st) k = lookup tree k"
      by (simp add: hidden_def k strict_prefix_def)
    have l: "lookup tree k = Option.bind (map_of (node_entries node) name) (\<lambda>c. lookup c qs)"
      by (simp add: k lookup_append node(1) split: option.split)
    have h': "hidden tree ?st k = None \<or> hidden tree ?st k = lookup tree k"
      by (simp add: hidden_def)
    show ?thesis
    proof (cases qs)
      case Nil
      have "map_of (view dirs ?s) k = orelse (Option.bind (lookup tree k) (shown dirs)) (map_of (view dirs s) k)"
        using view_names_child [of "node_entries node" dirs mnt ps s name] wf wf_tree_unfold [of node]
        unfolding l by (simp add: k Nil)
      then show ?thesis
        using IH h h' by auto
    next
      case (Cons q qs')
      have other: "map_of (view dirs ?s) k = map_of (view dirs s) k"
        by (intro view_names_other) (simp add: k Cons)
      have "hidden tree ?st k = lookup tree k"
      proof (cases "lookup tree k")
        case None
        then show ?thesis using h' by auto
      next
        case (Some m)
        then obtain c where c: "map_of (node_entries node) name = Some c" "lookup c qs = Some m"
          using l by (auto simp: Option.bind_eq_Some_conv)
        then have "(c, ps @ [name], depth + 1) \<in> set ?st"
          using opened_ancestor [OF wf c(1), of q qs'] Cons by blast
        moreover have "strict_prefix (ps @ [name]) k"
          by (simp add: k Cons strict_prefix_def)
        ultimately show ?thesis
          unfolding hidden_def by (metis (no_types, lifting) case_prodI)
      qed
      then show ?thesis using IH h other by simp
    qed
  qed
qed


lemma inspect_view:
  assumes "inspect uid mnt tree = Inr s" and "wf_tree tree" and "is_dir (node_info tree)"
  shows "map_of (view dirs s) k = Option.bind (lookup tree k) (shown dirs)"
proof -
  have "stack_ok tree [(tree, [], 0)]"
    by (simp add: stack_ok_def)
  from inspect_loop_view [OF assms(1) [unfolded inspect_def] assms(2) this, of dirs k]
  show ?thesis
    using assms(3) by (cases k) (simp_all add: hidden_def view_def shown_def)
qed

text \<open>The metadata directories an inspection reports are those of the tree.\<close>

definition metadata_dir :: "fsnode \<Rightarrow> pystr list \<Rightarrow> bool" where
  "metadata_dir tree k \<longleftrightarrow> k \<noteq> [] \<and> last k \<in> {lit ''.git'', lit ''.agents''} \<and>
     (\<exists>n. lookup tree k = Some n \<and> is_dir (node_info n))"

lemma absorb_metadata:
  "set (seen_metadata (foldl (absorb mnt ps) s es)) = set (seen_metadata s) \<union>
     {gappend mnt (ps @ [name]) | name c. (name, c) \<in> set es \<and> name \<in> {lit ''.git'', lit ''.agents''} \<and> is_dir (node_info c)}"
proof (induction es arbitrary: s)
  case (Cons e es)
  then show ?case by (cases e) (auto simp: absorb_def Let_def)
qed simp

lemma inspect_loop_metadata:
  assumes "inspect_loop uid mnt st s = Inr t" and "wf_tree tree" and "stack_ok tree st"
    and "metadata_dir tree k" and "(\<exists>(n, ps, d) \<in> set st. strict_prefix ps k) \<or> gappend mnt k \<in> set (seen_metadata s)"
  shows "gappend mnt k \<in> set (seen_metadata t)"
  using assms(1,3,5)
proof (induction uid mnt st s rule: inspect_loop.induct)
  case (1 uid mnt s)
  then show ?case by auto
next
  case (2 uid mnt node ps depth st s)
  let ?st = "concat (map (opened ps depth) (rev (node_entries node))) @ st"
  let ?s = "foldl (absorb mnt ps) s (node_entries node)"
  note step = inspect_loop_step [OF 2(2) assms(2) 2(3)]
  note node = step(1,2) and wf = step(3)
  have IH: "(\<exists>(n, qs, d) \<in> set ?st. strict_prefix qs k) \<or> gappend mnt k \<in> set (seen_metadata ?s) \<Longrightarrow> ?case"
    using 2(1) [OF step(6,5), of ?s ?st] step(4,7) by simp
  show ?case
  proof (cases "strict_prefix ps k")
    case False
    then show ?thesis
      using 2(4) by (intro IH) (auto simp: absorb_metadata)
  next
    case True
    then obtain name qs where k: "k = ps @ name # qs"
      by (auto simp: strict_prefix_Cons_append)
    obtain n where n: "lookup tree k = Some n" "is_dir (node_info n)" and last: "last k \<in> {lit ''.git'', lit ''.agents''}"
      using assms(4) by (auto simp: metadata_dir_def)
    then obtain c where c: "map_of (node_entries node) name = Some c" "lookup c qs = Some n"
      using node(1) by (auto simp: k lookup_append split: option.splits)
    note mem = map_of_SomeD [OF c(1)]
    show ?thesis
    proof (cases qs)
      case Nil
      then show ?thesis
        using mem n(2) c(2) last by (intro IH) (auto simp: absorb_metadata k)
    next
      case (Cons q qs')
      then have "(c, ps @ [name], depth + 1) \<in> set ?st"
        using opened_ancestor [OF wf c(1), of q qs'] c(2) by blast
      moreover have "strict_prefix (ps @ [name]) k"
        by (simp add: k Cons strict_prefix_def)
      ultimately show ?thesis
        by (intro IH) blast
    qed
  qed
qed

lemma inspect_metadata:
  assumes "inspect uid mnt tree = Inr s" and "wf_tree tree" and "metadata_dir tree k"
  shows "gappend mnt k \<in> set (seen_metadata s)"
proof (rule inspect_loop_metadata [OF assms(1) [unfolded inspect_def] assms(2) _ assms(3)])
  show "stack_ok tree [(tree, [], 0)]"
    by (simp add: stack_ok_def)
  show "(\<exists>(n, ps, d) \<in> set [(tree, [], 0)]. strict_prefix ps k) \<or> gappend mnt k \<in> set (seen_metadata
     \<lparr>seen_metadata = [], seen_directories = [([], node_info tree)], seen_count = 0, seen_nodes = [([], node_info tree)]\<rparr>)"
    using assms(3) by (auto simp: metadata_dir_def strict_prefix_def)
qed


section \<open>The policy of a request\<close>

lemma context_document_parse:
  assumes "wf_policy pol" and "to_context_dict pol = Inr d" and "json_bytes d = Inr bs"
  shows "bindE (loads_bytes plain_pairs plain_constant bs) parse_context = Inr pol"
proof -
  have d: "d = JObj (context_members pol)"
    using to_context_dict_json [OF assms(1)] assms(2) by simp
  have "loads_bytes plain_pairs plain_constant bs = Inr (sort_keys d)"
    using assms(3) plain_pairs_distinct sort_keys_preserves context_members_json d
    by (intro loads_dump_bytes) (auto simp: json_bytes_def simp del: wf_json.simps float_free.simps sort_keys.simps)
  then show ?thesis
    using sorted_layout.parse_context_layout [OF assms(1)] d by simp
qed

lemma request_policy_sent:
  assumes "request_policy sha256 call d = Inr pol"
  shows "parse_context (dget d (lit ''sandbox'')) = Inr pol"
proof -
  obtain i doc where i: "prepare_policy_intent (dget d (lit ''sandbox'')) (call_session call)
      (id_text (call_request call)) (call_method call) = Inr i"
    and doc: "to_document sha256 i = Inr doc" "parse_context (dget (obj_of doc) (lit ''context'')) = Inr pol"
    using assms by (auto simp: request_policy_def bindE_Inr_iff)
  obtain p e bs where p: "parse_context (dget d (lit ''sandbox'')) = Inr p" "to_context_dict p = Inr e" "json_bytes e = Inr bs"
    "make_intent (call_session call) (id_text (call_request call)) (call_method call) bs = Inr i"
    using i by (auto simp: prepare_policy_intent_def bindE_Inr_iff)
  have wf: "wf_policy p"
    using p(1) by (rule parse_context_wf)
  have "json_bytes e = Inr (context_json i)"
    using p(2-4) context_bytes_parse [OF wf p(2,3)] by (auto simp: make_intent_def bindE_Inr_iff seqE_Inr_iff)
  from context_document_parse [OF wf p(2) this] doc p(1) show ?thesis
    by (auto simp: to_document_def bindE_Inr_iff)
qed

lemma request_policy_iff:
  "request_policy sha256 call d = Inr pol \<longleftrightarrow> parse_context (dget d (lit ''sandbox'')) = Inr pol \<and>
     intent_identifier (call_session call) (lit ''$.sessionId'') = Inr () \<and>
     intent_identifier (id_text (call_request call)) (lit ''$.requestId'') = Inr () \<and>
     call_method call \<in> set POLICY_BEARING_METHODS" (is "?l \<longleftrightarrow> ?r")
proof
  assume ?l
  then show ?r
    using request_policy_sent prepare_policy_intent_succeeds
    by (fastforce simp: request_policy_def bindE_Inr_iff)
next
  assume ?r
  then obtain i where i: "prepare_policy_intent (dget d (lit ''sandbox'')) (call_session call)
      (id_text (call_request call)) (call_method call) = Inr i"
    using prepare_policy_intent_succeeds by blast
  have pol: "parse_context (dget d (lit ''sandbox'')) = Inr pol"
    using \<open>?r\<close> by simp
  then have wf: "wf_policy pol"
    by (rule parse_context_wf)
  obtain e where e: "to_context_dict pol = Inr e" "json_bytes e = Inr (context_json i)"
    using i pol context_bytes_parse [OF wf]
    by (auto simp: prepare_policy_intent_def make_intent_def bindE_Inr_iff seqE_Inr_iff)
  from context_document_parse [OF wf e] show ?l
    by (auto simp: request_policy_def i to_document_def bindE_Inr_iff)
qed

lemma decide_path_wf: "wf_guest g \<Longrightarrow> decide_path policy g = Inr (decide_guest policy g)"
  by (simp add: decide_path_def guest_uri_text decide_uri_def from_uri_uri_text)

section \<open>Authorised plans\<close>

text \<open>
  A path may be written when the policy says so and every existing metadata directory above it has an
  entry that grants it explicitly.
\<close>

definition readable :: "ManagedPolicy \<Rightarrow> GuestPath \<Rightarrow> bool" where
  "readable policy g \<longleftrightarrow> (\<exists>d. decide_path policy g = Inr d \<and> can_read d)"

definition writable :: "GuestPath \<Rightarrow> fsnode \<Rightarrow> ManagedPolicy \<Rightarrow> GuestPath \<Rightarrow> bool" where
  "writable mnt tree policy g \<longleftrightarrow> (\<exists>d. decide_path policy g = Inr d \<and> can_write d) \<and>
     (\<forall>k. metadata_dir tree k \<longrightarrow> contains (gappend mnt k) g \<longrightarrow> explicit_grant policy (gappend mnt k) g)"

definition directory_at :: "fsnode \<Rightarrow> pystr list \<Rightarrow> bool" where
  "directory_at tree k \<longleftrightarrow> (\<exists>n. lookup tree k = Some n \<and> is_dir (node_info n))"

definition authorised ::
    "NativeFilesBackend \<Rightarrow> fsnode \<Rightarrow> ManagedPolicy \<Rightarrow> pystr \<Rightarrow> GuestPath \<Rightarrow> GuestPath option \<Rightarrow> bool" where
  "authorised b tree policy m g destination \<longleftrightarrow>
     contains (mount b) g \<and>
     (let ps = inside b g; can_change = (\<lambda>k. writable (mount b) tree policy (gappend (mount b) k)) in
      if m = lit ''fs/writeFile'' then writable (mount b) tree policy g
      else if m = lit ''fs/createDirectory''
      then \<forall>n \<le> length ps. \<not> directory_at tree (take n ps) \<longrightarrow> can_change (take n ps)
      else if m = lit ''fs/remove'' then \<forall>k n. lookup tree k = Some n \<longrightarrow> prefix ps k \<longrightarrow> can_change k
      else if m = lit ''fs/copy''
      then \<exists>t. destination = Some t \<and> contains (mount b) t \<and> writable (mount b) tree policy t \<and>
        (\<forall>k n. lookup tree k = Some n \<longrightarrow> prefix ps k \<longrightarrow> readable policy (gappend (mount b) k) \<and>
           can_change (inside b t @ drop (length ps) k))
      else readable policy g)"

lemma require_read_Inr: "require_read mnt policy ps = Inr () \<longleftrightarrow> readable policy (gappend mnt ps)"
  by (auto simp: require_read_def readable_def bindE_Inr_iff)

lemma require_write_writable:
  assumes "require_write policy g md = Inr ()" and "inspect uid mnt tree = Inr s" and "wf_tree tree"
    and "set (seen_metadata s) \<subseteq> set md"
  shows "writable mnt tree policy g"
  using assms inspect_metadata [OF assms(2,3)]
  by (auto simp: require_write_def writable_def bindE_Inr_iff list_ex_iff split: if_splits)

lemma foldE_each: "foldE f s xs = Inr t \<Longrightarrow> x \<in> set xs \<Longrightarrow> \<exists>u v. f u x = Inr v"
  by (induction xs arbitrary: s) (auto simp: bindE_Inr_iff)

lemma prefix_take: "prefix ps k \<longleftrightarrow> take (length ps) k = ps"
  by (metis append_eq_conv_conj prefix_def)

lemma inspected_node:
  assumes "inspect uid mnt tree = Inr s" and "wf_tree tree" and "is_dir (node_info tree)"
  shows "map_of (seen_nodes s) k = map_option node_info (lookup tree k)"
  using inspect_view [OF assms, of False k] by (cases "lookup tree k") (simp_all add: view_def shown_def)

lemma inspected_directory:
  assumes "inspect uid mnt tree = Inr s" and "wf_tree tree" and "is_dir (node_info tree)"
  shows "map_of (seen_directories s) k \<noteq> None \<longleftrightarrow> directory_at tree k"
  using inspect_view [OF assms, of True k]
  by (cases "lookup tree k") (simp_all add: view_def shown_def directory_at_def split: if_splits)

lemma remove_plan_authorised:
  assumes "remove_plan mnt ps (seen_nodes s) policy (seen_metadata s) recursive = Inr ()"
    and "inspect uid mnt tree = Inr s" and "wf_tree tree" and "is_dir (node_info tree)"
    and "lookup tree k = Some n" and "prefix ps k"
  shows "writable mnt tree policy (gappend mnt k)"
proof -
  have "k \<in> set (map fst (seen_nodes s))"
    using inspected_node [OF assms(2-4), of k] assms(5) by (force dest: map_of_SomeD)
  with assms(1,6) have "require_write policy (gappend mnt k) (seen_metadata s) = Inr ()"
    by (fastforce simp: remove_plan_def eachE_Inr_iff prefix_take split: if_splits)
  then show ?thesis
    using require_write_writable assms(2,3) by blast
qed

lemma copy_plan_authorised:
  assumes "copy_plan mnt ps target (seen_nodes s) policy (seen_metadata s) recursive = Inr ()"
    and "inspect uid mnt tree = Inr s" and "wf_tree tree" and "is_dir (node_info tree)"
    and "lookup tree k = Some n" and "prefix ps k"
  shows "readable policy (gappend mnt k)" and "writable mnt tree policy (gappend mnt (target @ drop (length ps) k))"
proof -
  obtain qs where k: "k = ps @ qs"
    using assms(6) by (auto simp: prefix_def)
  then have "lookup tree ps \<noteq> None"
    using assms(5) by (auto simp: lookup_append split: option.splits)
  then obtain info where info: "map_of (seen_nodes s) ps = Some info"
    using inspected_node [OF assms(2-4), of ps] by auto
  have kin: "(k, node_info n) \<in> set (filter (\<lambda>(qs, _). take (length ps) qs = ps) (seen_nodes s))"
    using inspected_node [OF assms(2-4), of k] assms(5) k by (auto dest: map_of_SomeD)
  obtain extra r where "foldE (copy_node mnt (seen_nodes s) policy (seen_metadata s @ extra) ps target (is_dir info)) ([], 0)
      (filter (\<lambda>(qs, _). take (length ps) qs = ps) (seen_nodes s)) = Inr r"
    using assms(1) info by (auto simp: copy_plan_def Let_def bindE_Inr_iff split: if_splits)
  from foldE_each [OF this kin] obtain u v where
    "copy_node mnt (seen_nodes s) policy (seen_metadata s @ extra) ps target (is_dir info) u (k, node_info n) = Inr v"
    by blast
  then have "require_read mnt policy k = Inr ()"
    "require_write policy (gappend mnt (copy_target ps target k)) (seen_metadata s @ extra) = Inr ()"
    by (auto simp: copy_node_def Let_def seqE_Inr_iff split: prod.splits if_splits)
  then show "readable policy (gappend mnt k)" "writable mnt tree policy (gappend mnt (target @ drop (length ps) k))"
    using require_write_writable [OF _ assms(2,3)] by (auto simp: require_read_Inr copy_target_def)
qed

lemma existing_prefix_directory:
  "n \<le> length ps \<Longrightarrow> (\<And>i. i \<le> n \<Longrightarrow> map_of dirs (take i ps) \<noteq> None) \<Longrightarrow>
   i \<le> existing_prefix ps dirs n \<Longrightarrow> map_of dirs (take i ps) \<noteq> None"
proof (induction ps dirs n rule: existing_prefix.induct)
  case (1 ps dirs n)
  show ?case
  proof (cases "n < length ps \<and> map_of dirs (take (n + 1) ps) \<noteq> None")
    case True
    have "map_of dirs (take j ps) \<noteq> None" if "j \<le> n + 1" for j
      using that 1(3) True by (cases "j = n + 1") auto
    moreover have "i \<le> existing_prefix ps dirs (n + 1)"
      using 1(4) True by (subst (asm) existing_prefix.simps) simp
    ultimately show ?thesis
      using 1(1) [OF True] True by auto
  next
    case False
    then show ?thesis
      using 1(3,4) by (subst (asm) existing_prefix.simps) auto
  qed
qed

lemma directory_plan_authorised:
  assumes "directory_plan b g recursive policy s = Inr args"
    and "inspect uid (mount b) tree = Inr s" and "wf_tree tree" and "is_dir (node_info tree)"
    and "n \<le> length (inside b g)" and "\<not> directory_at tree (take n (inside b g))"
  shows "writable (mount b) tree policy (gappend (mount b) (take n (inside b g)))"
proof -
  let ?ps = "inside b g"
  let ?e = "existing_prefix ?ps (seen_directories s) 0"
  have dirs: "map_of (seen_directories s) k \<noteq> None \<longleftrightarrow> directory_at tree k" for k
    using inspected_directory [OF assms(2-4)] .
  have root: "map_of (seen_directories s) (take i ?ps) \<noteq> None" if "i \<le> 0" for i
    unfolding dirs using assms(4) that by (simp add: directory_at_def)
  have "?e < n"
  proof (rule ccontr)
    assume "\<not> ?e < n"
    then have "map_of (seen_directories s) (take n ?ps) \<noteq> None"
      using existing_prefix_directory [of 0 ?ps "seen_directories s" n] root by simp
    then show False
      using assms(6) unfolding dirs by simp
  qed
  then have n: "n \<in> set [?e + 1..<length ?ps + 1]"
    using assms(5) by auto
  have "eachE (\<lambda>n. require_write policy (gappend (mount b) (take n ?ps)) (seen_metadata s)) [?e + 1..<length ?ps + 1] = Inr ()"
    using assms(1) unfolding directory_plan_def Let_def inside_def by (elim exn_elims)
  with n have "require_write policy (gappend (mount b) (take n ?ps)) (seen_metadata s) = Inr ()"
    unfolding eachE_Inr_iff by blast
  then show ?thesis
    using require_write_writable assms(2,3) by blast
qed


text \<open>The steps of a plan that was made.\<close>

lemma plan_request_steps:
  assumes "plan_request sha256 uid tree b call params = Inr p"
  obtains d policy g destination s data where
    "check_request (call_method call) params = Inr d" "request_policy sha256 call d = Inr policy"
    "request_path b (call_method call) d policy = Inr g" "request_destination b (call_method call) d = Inr destination"
    "inspect uid (mount b) tree = Inr s"
    "call_method call \<in> set MUTATING \<Longrightarrow> require_write policy g (seen_metadata s) = Inr ()"
    "\<And>t. destination = Some t \<Longrightarrow> require_write policy t (seen_metadata s) = Inr ()"
    "if call_method call \<in> set PLANNED then tree_plan b (call_method call) d policy s g destination = Inr p
     else file_plan b (call_method call) d policy s g data = Inr p"
  using assms unfolding plan_request_def Let_def
  by (elim exn_elims) (rule that, (assumption | simp split: if_splits option.splits)+)

lemma check_request_dict: "check_request m params = Inr d \<Longrightarrow> d = obj_of params"
  unfolding check_request_def Let_def by (elim exn_elims) simp

lemma request_path_steps:
  assumes "request_path b m d policy = Inr g"
  shows "from_uri (dget d (if m = lit ''fs/copy'' then lit ''sourcePath'' else lit ''path'')) (lit ''path'') = Inr g"
    and "contains (mount b) g" and "m \<notin> set MUTATING \<Longrightarrow> readable policy g"
proof -
  obtain v where v: "getitem d (if m = lit ''fs/copy'' then lit ''sourcePath'' else lit ''path'') = Inr v"
    and g: "from_uri v (lit ''path'') = Inr g" "contains (mount b) g" "m \<notin> set MUTATING \<Longrightarrow> readable policy g"
    using assms unfolding request_path_def
    by (elim exn_elims) (auto simp: readable_def split: if_splits)
  then show "from_uri (dget d (if m = lit ''fs/copy'' then lit ''sourcePath'' else lit ''path'')) (lit ''path'') = Inr g"
    "contains (mount b) g" "m \<notin> set MUTATING \<Longrightarrow> readable policy g"
    by (auto simp: getitem_def split: if_splits)
qed

lemma request_destination_steps:
  assumes "request_destination b m d = Inr destination"
  shows "m = lit ''fs/copy'' \<Longrightarrow> \<exists>t. destination = Some t \<and> contains (mount b) t \<and>
    from_uri (dget d (lit ''destinationPath'')) (lit ''path'') = Inr t"
  using assms by (auto simp: request_destination_def getitem_def bindE_Inr_iff split: if_splits)

lemma plan_authorised:
  assumes plan: "plan_request sha256 uid tree b call params = Inr p" and tree: "wf_tree tree" "is_dir (node_info tree)"
  shows "\<exists>policy g destination. parse_context (dget (obj_of params) (lit ''sandbox'')) = Inr policy \<and>
    from_uri (dget (obj_of params) (if call_method call = lit ''fs/copy'' then lit ''sourcePath'' else lit ''path'')) (lit ''path'') = Inr g \<and>
    authorised b tree policy (call_method call) g destination"
  using plan
proof (rule plan_request_steps)
  fix d policy g destination s data
  let ?m = "call_method call"
  assume d: "check_request ?m params = Inr d" and pol: "request_policy sha256 call d = Inr policy"
    and g: "request_path b ?m d policy = Inr g" and dest: "request_destination b ?m d = Inr destination"
    and s: "inspect uid (mount b) tree = Inr s"
    and w: "?m \<in> set MUTATING \<Longrightarrow> require_write policy g (seen_metadata s) = Inr ()"
    and t: "\<And>t. destination = Some t \<Longrightarrow> require_write policy t (seen_metadata s) = Inr ()"
    and p: "if ?m \<in> set PLANNED then tree_plan b ?m d policy s g destination = Inr p
       else file_plan b ?m d policy s g data = Inr p"
  note path = request_path_steps [OF g] and wr = require_write_writable [OF _ s tree(1) subset_refl]
  have "authorised b tree policy ?m g destination"
  proof -
    consider (writing) "?m = lit ''fs/writeFile''" | (mkdir) "?m = lit ''fs/createDirectory''"
      | (remove) "?m = lit ''fs/remove''" | (copy) "?m = lit ''fs/copy''"
      | (other) "?m \<notin> {lit ''fs/writeFile'', lit ''fs/createDirectory'', lit ''fs/remove'', lit ''fs/copy''}"
      by blast
    then show ?thesis
    proof cases
      case writing
      then show ?thesis using path(2) wr [OF w] by (simp add: authorised_def MUTATING_def)
    next
      case mkdir
      then obtain args where "directory_plan b g (dget d (lit ''recursive'') \<noteq> JBool False) policy s = Inr args"
        using p by (auto simp: file_plan_def PLANNED_def Let_def bindE_Inr_iff)
      from directory_plan_authorised [OF this s tree] show ?thesis
        using mkdir path(2) by (simp add: authorised_def)
    next
      case remove
      then have "remove_plan (mount b) (inside b g) (seen_nodes s) policy (seen_metadata s) (dget d (lit ''recursive'') \<noteq> JBool False) = Inr ()"
        using p by (auto simp: tree_plan_def PLANNED_def Let_def bindE_Inr_iff seqE_Inr_iff)
      from remove_plan_authorised [OF this s tree] show ?thesis
        using remove path(2) by (auto simp: authorised_def)
    next
      case copy
      then obtain t' where t': "destination = Some t'" "contains (mount b) t'"
        using request_destination_steps [OF dest] by blast
      then have "copy_plan (mount b) (inside b g) (inside b t') (seen_nodes s) policy (seen_metadata s) (bool_of (dget d (lit ''recursive''))) = Inr ()"
        using p copy by (auto simp: tree_plan_def PLANNED_def Let_def bindE_Inr_iff seqE_Inr_iff)
      from copy_plan_authorised [OF this s tree] show ?thesis
        using copy path(2) t' wr [OF t [OF t'(1)]] by (auto simp: authorised_def Let_def)
    next
      case other
      then show ?thesis using path(2,3) by (simp add: authorised_def MUTATING_def)
    qed
  qed
  then show ?thesis
    using request_policy_sent [OF pol] path(1) check_request_dict [OF d] by blast
qed



definition example_files :: NativeFilesBackend where
  "example_files = \<lparr>mount = GuestPath [lit ''w''], root_fd = 3, fs_session = None, fs_closed = False\<rparr>"

definition example_tree :: fsnode where
  "example_tree = FsNode \<lparr>st_uid = 1000, st_mode = 16832, st_nlink = 2, st_dev = 1, st_ino = 2, st_size = 0,
     st_mtime_ns = 0, st_ctime_ns = 0\<rparr> []"

definition example_write :: json where
  "example_write = JObj [(lit ''path'', jlit ''file:///w/a''), (lit ''dataBase64'', JStr []),
     (lit ''sandbox'', JObj (context_members example_policy))]"

definition example_write_call :: BackendCall where
  "example_write_call = \<lparr>call_session = lit ''s'', call_request = jlit ''r'', call_method = lit ''fs/writeFile'',
     params_json = [], trace_json = None\<rparr>"

lemma example_file_path:
  "wf_guest (GuestPath [lit ''w'', lit ''a''])" "uri_text (GuestPath [lit ''w'', lit ''a'']) = lit ''file:///w/a''"
  by (simp_all add: wf_guest_def wf_component_def dots_def is_drive_def is_control_def is_scalar_def lit_def
      uri_text_def utf8_bytes_def quote_bytes_def quote_byte_def url_unreserved_def is_alpha_def)

lemma example_policy_parses: "parse_context (JObj (context_members example_policy)) = Inr example_policy"
  by (rule plain_layout.parse_context_layout)
    (simp add: wf_policy_def example_policy_def wf_guest_def wf_component_def dots_def is_drive_def is_control_def is_scalar_def lit_def)

lemma example_plan:
  "plan_request sha256 1000 example_tree example_files example_write_call example_write =
     Inr \<lparr>plan_path = GuestPath [lit ''w'', lit ''a''], plan_arguments = [lit ''write'', lit ''3'', lit ''a'', lit ''0''],
       plan_data = [], planned_result = None\<rparr>"
proof -
  let ?m = "lit ''fs/writeFile''" and ?g = "GuestPath [lit ''w'', lit ''a'']"
  have d: "check_request ?m example_write = Inr (obj_of example_write)"
    by (auto simp: check_request_def example_write_def allowed_fields_def optional_flag_def Let_def)
  have pol: "request_policy sha256 example_write_call (obj_of example_write) = Inr example_policy"
    unfolding request_policy_iff
    by (simp add: example_write_def example_write_call_def example_policy_parses intent_identifier_def utf8_encode_def
        POLICY_BEARING_METHODS_def id_text_def) (simp add: lit_def is_scalar_def is_control_def)
  have dec: "decide_path example_policy ?g = Inr (decide_guest example_policy ?g)" "can_write (decide_guest example_policy ?g)"
    by (rule decide_path_wf [OF example_file_path(1)])
      (simp add: can_write_def decide_guest_def example_policy_def resolve_def targets_def gappend_def
        contains_def entry_protects_def METADATA_NAMES_def Let_def)
  have "from_uri (jlit ''file:///w/a'') f = Inr ?g" for f
    using from_uri_uri_text [OF example_file_path(1)] by (simp add: example_file_path(2))
  then have g: "request_path example_files ?m (obj_of example_write) example_policy = Inr ?g"
    using dec by (simp add: request_path_def getitem_def example_write_def example_files_def contains_def MUTATING_def)
  have "require_write example_policy ?g [] = Inr ()"
    using dec by (simp add: require_write_def)
  moreover have "write_data ?g (obj_of example_write) = Inr []"
    by (simp add: write_data_def example_write_def getitem_def MAX_DATA_def)
  ultimately show ?thesis
    using d pol g
    by (simp add: plan_request_def example_write_call_def request_destination_def inspect_def example_tree_def PLANNED_def
        file_plan_def example_files_def inside_def relative_path_def) (simp add: lit_def nat_digits.simps [of 3])
qed


end
