(* ===== verification/FileStreams.thy ===== *)
theory FileStreams
  imports NativeFilesFacts
begin

text \<open>
  The read handles of \<open>native_file_streams.py\<close> on top of the file backend: the descriptor helper and its
  diagnostics, the transfer of one descriptor over a socket, the table of open handles and the requests
  \<open>fs/open\<close>, \<open>fs/readBlock\<close> and \<open>fs/close\<close>.  The helper is a separate program and a parameter, and so
  are the packets that arrive and what \<open>fstat\<close> and \<open>fcntl\<close> say of a descriptor.  The state records the
  descriptors that are open, so that a leak or a double close would show.
\<close>

section \<open>Tables of descriptors\<close>

text \<open>\<open>_drop\<close>: the entry is popped and its descriptor is closed.\<close>

definition close_fds :: "nat list \<Rightarrow> nat list \<Rightarrow> nat list" where
  "close_fds fs ds = fold remove1 fs ds"

definition drop_entry :: "('h \<Rightarrow> nat) \<Rightarrow> pystr \<Rightarrow> (pystr \<times> 'h) list \<times> nat list \<Rightarrow> (pystr \<times> 'h) list \<times> nat list" where
  "drop_entry fd_of k t =
     (case map_of (fst t) k of
        None \<Rightarrow> t
      | Some h \<Rightarrow> (filter (\<lambda>(k', _). k' \<noteq> k) (fst t), close_fds [fd_of h] (snd t)))"

definition table_ok :: "('h \<Rightarrow> nat) \<Rightarrow> (pystr \<times> 'h) list \<times> nat list \<Rightarrow> bool" where
  "table_ok fd_of t \<longleftrightarrow> distinct (map fst (fst t)) \<and> length (fst t) \<le> 128 \<and> distinct (snd t) \<and>
     mset (snd t) = mset (map (\<lambda>(_, h). fd_of h) (fst t))"

lemma mset_close_fds: "mset (close_fds fs ds) = mset ds - mset fs"
  by (induction fs arbitrary: ds) (simp_all add: close_fds_def)

lemma filter_key_mset:
  assumes "distinct (map fst t)" and "map_of t k = Some h"
  shows "mset t = add_mset (k, h) (mset (filter (\<lambda>(k', _). k' \<noteq> k) t))"
  using assms
proof (induction t)
  case (Cons a t)
  obtain k1 h1 where a: "a = (k1, h1)" by (cases a)
  show ?case
  proof (cases "k1 = k")
    case True
    with Cons.prems a have "filter (\<lambda>(k', _). k' \<noteq> k) t = t"
      by (intro filter_True) force
    with True a Cons.prems show ?thesis by simp
  next
    case False
    with Cons a show ?thesis by simp
  qed
qed simp

lemma drop_entry_ok:
  assumes "table_ok fd_of t"
  shows "table_ok fd_of (drop_entry fd_of k t)"
proof (cases "map_of (fst t) k")
  case (Some h)
  let ?t = "filter (\<lambda>(k', _). k' \<noteq> k) (fst t)"
  have "mset (fst t) = add_mset (k, h) (mset ?t)"
    using assms Some by (intro filter_key_mset) (simp_all add: table_ok_def)
  from arg_cong [OF this, of "image_mset (\<lambda>(_, h). fd_of h)"]
  have "image_mset (\<lambda>(_, h). fd_of h) (mset (fst t)) = add_mset (fd_of h) (image_mset (\<lambda>(_, h). fd_of h) (mset ?t))"
    by (simp only: image_mset_add_mset prod.case)
  with assms have "mset (snd t) = add_mset (fd_of h) (mset (map (\<lambda>(_, h). fd_of h) ?t))"
    by (simp add: table_ok_def)
  moreover have "length ?t \<le> 128" "distinct (map fst ?t)"
    using assms le_trans [OF length_filter_le] by (auto simp: table_ok_def distinct_map inj_on_def)
  moreover have "distinct (close_fds [fd_of h] (snd t))"
    using assms by (simp add: table_ok_def close_fds_def)
  ultimately show ?thesis
    using Some unfolding table_ok_def drop_entry_def by (simp only: option.case fst_conv snd_conv mset_close_fds) simp
qed (use assms in \<open>simp add: drop_entry_def\<close>)

lemma insert_entry_ok:
  assumes "table_ok fd_of (t, ds)" and "map_of t k = None" and "length t < 128"
    and "mset ds' = add_mset (fd_of h) (mset ds)" and "fd_of h \<notin> set ds"
  shows "table_ok fd_of (t @ [(k, h)], ds')"
proof -
  have "distinct ds'"
    using assms(1,4,5) by (metis distinct.simps(2) mset.simps(2) mset_eq_imp_distinct_iff snd_conv table_ok_def)
  with assms show ?thesis by (simp add: table_ok_def map_of_eq_None_iff)
qed

lemma map_of_filter_neq: "map_of (filter (\<lambda>(k', _). k' \<noteq> k) xs) k' = (if k' = k then None else map_of xs k')"
  by (induction xs) auto

lemma drop_entry_gone: "map_of (fst (drop_entry fd_of k t)) k' = (if k' = k then None else map_of (fst t) k')"
  by (auto simp: drop_entry_def map_of_filter_neq split: option.split)

lemma drop_entry_mem: "e \<in> set (fst (drop_entry fd_of k t)) \<Longrightarrow> e \<in> set (fst t)"
  by (auto simp: drop_entry_def split: option.splits)

definition drop_all :: "('h \<Rightarrow> nat) \<Rightarrow> (pystr \<times> 'h) list \<times> nat list \<Rightarrow> (pystr \<times> 'h) list \<times> nat list" where
  "drop_all fd_of t = fold (drop_entry fd_of) (map fst (fst t)) t"

lemma drop_all_ok:
  assumes "table_ok fd_of t"
  shows "drop_all fd_of t = ([], [])"
proof -
  have "table_ok fd_of (fold (drop_entry fd_of) ks t) \<and>
      (\<forall>k. map_of (fst (fold (drop_entry fd_of) ks t)) k = (if k \<in> set ks then None else map_of (fst t) k))" for ks
    using assms by (induction ks arbitrary: t) (auto simp: drop_entry_ok drop_entry_gone)
  then have "table_ok fd_of (drop_all fd_of t)" "map_of (fst (drop_all fd_of t)) = Map.empty"
    by (auto simp: drop_all_def fun_eq_iff map_of_eq_None_iff image_iff)
  then show ?thesis
    by (cases "drop_all fd_of t") (simp add: table_ok_def)
qed


section \<open>The descriptor helper\<close>

definition STREAM_METHODS :: "pystr list" where
  "STREAM_METHODS = map lit [''fs/open'', ''fs/readBlock'', ''fs/close'']"

definition MAX_OPEN_HANDLES :: nat where "MAX_OPEN_HANDLES = 128"
definition MAX_HANDLE_BYTES :: nat where "MAX_HANDLE_BYTES = 32"
definition MAX_BLOCK :: nat where "MAX_BLOCK = 1024 * 1024"

record ReadHandle =
  rh_id :: pystr
  rh_fd :: nat
  rh_session :: pystr
  rh_policy :: PolicyIntent
  rh_device :: nat
  rh_inode :: nat

definition DIAGNOSTIC_STAGES :: "pystr list" where
  "DIAGNOSTIC_STAGES = map lit [''invocation'', ''root-fd'', ''root-ownership'', ''channel'', ''open'', ''file-kind'', ''identity'',
     ''reopen'', ''send'', ''read-fd'', ''allocation'', ''offset'', ''read'', ''output'', ''close'']"

definition diagnostic_pairs :: pairs_hook where
  "diagnostic_pairs ps =
     (if distinct (map fst ps) then Inr (JObj ps) else Inl (ValueError (lit ''Duplicate diagnostic field'')))"

definition diagnostic_valid :: "json \<Rightarrow> bool" where
  "diagnostic_valid v =
     (is_obj v \<and> (let d = obj_of v in set (dkeys d) = {lit ''stage'', lit ''errno''} \<and>
        is_str (dget d (lit ''stage'')) \<and> str_of (dget d (lit ''stage'')) \<in> set DIAGNOSTIC_STAGES \<and>
        int_within 1 4096 (dget d (lit ''errno''))))"

text \<open>\<open>_helper_error\<close>: every error of the decoding is one its \<open>except\<close> clause names.\<close>

definition helper_error :: "pybytes \<Rightarrow> exn" where
  "helper_error diagnostic =
     (let contract = rpc (-32603) ''Native descriptor helper violated its contract'' in
      if 512 < length diagnostic \<or> list_ex (\<lambda>b. 128 \<le> b) diagnostic then contract
      else case loads diagnostic_pairs plain_constant diagnostic of
          Inl _ \<Rightarrow> contract
        | Inr v \<Rightarrow>
            if \<not> diagnostic_valid v then contract
            else let number = int_of (dget (obj_of v) (lit ''errno'')) in
              RpcError (if dget (obj_of v) (lit ''stage'') = jlit ''open'' \<and> number = ENOENT then -32004
                  else if number \<in> {EINVAL, EPERM, EACCES} then -32600 else -32603)
                (lit ''Native file-handle operation failed'') (Some v))"

text \<open>
  \<open>receive\<close> of \<open>_bounded_communicate\<close>: every read returns at least one byte and at most the bound it
  asked for; \<open>arrive\<close> says how many bytes the pipe holds then.
\<close>

definition output_contract :: exn where
  "output_contract = rpc (-32603) ''Native file helper output exceeds its contract''"

definition READ_SIZE :: nat where "READ_SIZE = 65536"

function receive :: "nat \<Rightarrow> (nat \<Rightarrow> nat) \<Rightarrow> pybytes \<Rightarrow> pybytes \<Rightarrow> exn + pybytes" where
  "receive limit arrive acc rest =
     (if rest = [] then Inr acc
      else let n = max 1 (min (arrive (length acc)) (min READ_SIZE (limit + 1 - length acc))); acc' = acc @ take n rest in
        if limit < length acc' then Inl output_contract else receive limit arrive acc' (drop n rest))"
  by pat_completeness auto

termination receive
proof (relation "measure (\<lambda>(limit, arrive, acc, rest). length rest)")
  show "((limit, arrive, acc', drop n rest), limit, arrive, acc, rest) \<in> measure (\<lambda>(limit, arrive, acc, rest). length rest)"
    if "rest \<noteq> []" "n = max 1 m" for limit arrive acc acc' rest n m
    using that by (cases rest) auto
qed simp

declare receive.simps [simp del]

lemma receive_result:
  assumes "length acc \<le> limit"
  shows "receive limit arrive acc rest =
    (if length acc + length rest \<le> limit then Inr (acc @ rest) else Inl output_contract)"
  using assms
proof (induction limit arrive acc rest rule: receive.induct)
  case (1 limit arrive acc rest)
  define n where "n = max 1 (min (arrive (length acc)) (min READ_SIZE (limit + 1 - length acc)))"
  show ?case
  proof (cases "rest = []")
    case True
    with 1(2) show ?thesis by (simp add: receive.simps)
  next
    case False
    have step: "receive limit arrive acc rest =
        (if limit < length (acc @ take n rest) then Inl output_contract else receive limit arrive (acc @ take n rest) (drop n rest))"
      by (subst receive.simps) (simp only: Let_def False if_False n_def)
    have total: "length (acc @ take n rest) + length (drop n rest) = length acc + length rest"
      by simp
    show ?thesis
    proof (cases "limit < length (acc @ take n rest)")
      case True
      with step total show ?thesis by simp
    next
      case False
      with 1(1) [OF \<open>rest \<noteq> []\<close> n_def refl] have "receive limit arrive (acc @ take n rest) (drop n rest) =
        (if length (acc @ take n rest) + length (drop n rest) \<le> limit then Inr ((acc @ take n rest) @ drop n rest) else Inl output_contract)"
        by simp
      with step False show ?thesis unfolding total by simp
    qed
  qed
qed

text \<open>What one run of the helper does, and what the process observes of the world around it.\<close>

record packet =
  pk_payload :: pybytes
  pk_ancillary :: "(bool \<times> pybytes) list"
  pk_truncated :: bool

record fd_state =
  fd_info :: st_info
  fd_flags :: nat
  fd_cloexec :: bool

record stream_env =
  se_sha256 :: "pybytes \<Rightarrow> pystr"
  se_text :: "exn \<Rightarrow> pystr"
  se_uid :: nat
  se_files :: helper
  se_run :: "pystr list \<Rightarrow> (int \<times> pybytes \<times> pybytes) option"
  se_arrive :: "nat \<Rightarrow> nat"
  se_socket :: nat
  se_packets :: "pystr list \<Rightarrow> packet \<times> packet"
  se_fd :: "nat \<Rightarrow> fd_state"

definition output_limit :: "pystr list \<Rightarrow> nat" where
  "output_limit arguments = (if hd arguments = lit ''read'' then digits_value (arguments ! 3) else 0)"

definition invoke :: "stream_env \<Rightarrow> pystr list \<Rightarrow> exn + pybytes" where
  "invoke env arguments =
     (case se_run env arguments of
        None \<Rightarrow> Inl (rpc (-32603) ''Native file helper exceeded its execution deadline'')
      | Some (returncode, out, err) \<Rightarrow>
          bindE (receive (output_limit arguments) (se_arrive env) [] out) (\<lambda>output.
          bindE (receive 512 (se_arrive env) [] err) (\<lambda>diagnostic.
            if returncode \<noteq> 0 then Inl (helper_error diagnostic)
            else if diagnostic \<noteq> [] then Inl (rpc (-32603) ''Native descriptor helper emitted unexpected diagnostics'')
            else Inr output)))"

section \<open>Receiving one descriptor\<close>

fun le_nat :: "pybytes \<Rightarrow> nat" where
  "le_nat [] = 0"
| "le_nat (b # bs) = b + 256 * le_nat bs"

text \<open>\<open>array.array("i").frombytes\<close> on the whole items.\<close>

fun fd_numbers :: "pybytes \<Rightarrow> nat list" where
  "fd_numbers (a # b # c # d # r) = le_nat [a, b, c, d] # fd_numbers r"
| "fd_numbers _ = []"

definition rights_of :: "packet \<Rightarrow> nat list" where
  "rights_of p = concat (map (\<lambda>(rights, raw). if rights then fd_numbers raw else []) (pk_ancillary p))"

definition rights_valid :: "packet \<Rightarrow> bool" where
  "rights_valid p = (length (pk_ancillary p) = 1 \<and> list_all (\<lambda>(rights, raw). rights \<and> length raw mod 4 = 0) (pk_ancillary p))"

definition packet_size :: nat where "packet_size = 48"

text \<open>\<open>_PACKET.unpack\<close>.\<close>

definition unpack :: "pybytes \<Rightarrow> pybytes \<times> nat list" where
  "unpack bs = (take 8 bs, map (\<lambda>i. le_nat (take 8 (drop (8 * i) bs))) [1, 2, 3, 4, 5])"

definition descriptor_valid :: "nat \<Rightarrow> pybytes \<Rightarrow> st_info option \<Rightarrow> fd_state \<Rightarrow> bool" where
  "descriptor_valid uid payload expected st =
     (let (magic, fields) = unpack payload; i = fd_info st in
      magic = lit ''FGFDv1'' @ [0, 0] \<and>
      (case expected of None \<Rightarrow> False | Some e \<Rightarrow> (fields ! 0, fields ! 1) = (st_dev e, st_ino e)) \<and>
      fields = [st_dev i, st_ino i, st_mode i, st_uid i, st_nlink i] \<and>
      is_reg i \<and> fields ! 3 = uid \<and> fields ! 4 = 1 \<and>
      fd_flags st mod 4 = 0 \<and> fd_flags st div 2097152 mod 2 = 0 \<and> fd_cloexec st)"

lemma descriptor_validD:
  assumes "descriptor_valid uid payload (Some e) st"
  shows "st_dev e = st_dev (fd_info st) \<and> st_ino e = st_ino (fd_info st) \<and> is_reg (fd_info st) \<and> st_uid (fd_info st) = uid \<and>
    st_nlink (fd_info st) = 1 \<and> fd_flags st mod 4 = 0 \<and> fd_cloexec st"
proof -
  obtain magic fields where "unpack payload = (magic, fields)" by fastforce
  with assms show ?thesis by (auto simp: descriptor_valid_def Let_def)
qed

definition open_arguments :: "stream_env \<Rightarrow> nat \<Rightarrow> pystr \<Rightarrow> st_info option \<Rightarrow> pystr list" where
  "open_arguments env root_dir relative expected =
     [lit ''open'', nat_digits root_dir, relative, nat_digits (se_socket env),
      nat_digits (case expected of None \<Rightarrow> 0 | Some e \<Rightarrow> st_dev e), nat_digits (case expected of None \<Rightarrow> 0 | Some e \<Rightarrow> st_ino e)]"

text \<open>\<open>_acquire\<close>, with the open descriptors before and after.\<close>

definition acquire_fd :: "stream_env \<Rightarrow> nat \<Rightarrow> pystr \<Rightarrow> st_info option \<Rightarrow> nat list \<Rightarrow> (exn + nat) \<times> nat list" where
  "acquire_fd env root_dir relative expected ds =
     (let arguments = open_arguments env root_dir relative expected in
      case invoke env arguments of
        Inl e \<Rightarrow> (Inl e, ds)
      | Inr output \<Rightarrow>
          let (first, second) = se_packets env arguments; received = rights_of first; ds = received @ ds in
          if output \<noteq> [] \<or> pk_truncated first \<or> \<not> rights_valid first \<or> length received \<noteq> 1 \<or>
            length (pk_payload first) \<noteq> packet_size
          then (Inl (rpc (-32603) ''Native descriptor transfer must contain exactly one complete descriptor''), close_fds received ds)
          else if \<not> descriptor_valid (se_uid env) (pk_payload first) expected (se_fd env (hd received))
          then (Inl (rpc (-32603) ''Received native descriptor identity or access differs''), close_fds received ds)
          else let keep = hd received; received = received @ rights_of second; ds = rights_of second @ ds in
            if pk_payload second \<noteq> [] \<or> pk_ancillary second \<noteq> [] \<or> pk_truncated second
            then (Inl (rpc (-32603) ''Native descriptor helper sent extra packets''), close_fds received ds)
            else (Inr keep, close_fds (filter (\<lambda>f. f \<noteq> keep) received) ds))"

lemma mset_inject_diff: "mset (xs @ ys) - mset xs = mset ys"
  by simp

lemma acquire_fd_error:
  assumes "acquire_fd env r rel expected ds = (Inl e, ds')"
  shows "mset ds' = mset ds"
proof -
  let ?a = "open_arguments env r rel expected"
  obtain first second where p: "se_packets env ?a = (first, second)" by (cases "se_packets env ?a")
  let ?f = "rights_of first" and ?s = "rights_of second"
  have "ds' \<in> {ds, close_fds ?f (?f @ ds), close_fds (?f @ ?s) (?s @ ?f @ ds)}"
    using assms unfolding acquire_fd_def Let_def p prod.case by (simp split: sum.splits if_splits)
  then show ?thesis
    by (auto simp: mset_close_fds)
qed

lemma acquire_fd_success:
  assumes "acquire_fd env r rel expected ds = (Inr fd, ds')"
  shows "ds' = fd # ds" and "\<exists>i. expected = Some i \<and> descriptor_valid (se_uid env) (pk_payload (fst (se_packets env (open_arguments env r rel expected)))) expected (se_fd env fd)"
    and "rights_of (fst (se_packets env (open_arguments env r rel expected))) = [fd]"
proof -
  let ?a = "open_arguments env r rel expected"
  obtain first second where p: "se_packets env ?a = (first, second)" by (cases "se_packets env ?a")
  have *: "length (rights_of first) = 1" "hd (rights_of first) = fd" "pk_ancillary second = []"
    "descriptor_valid (se_uid env) (pk_payload first) expected (se_fd env fd)"
    "ds' = close_fds (filter (\<lambda>f. f \<noteq> fd) (rights_of first @ rights_of second)) (rights_of second @ rights_of first @ ds)"
    using assms unfolding acquire_fd_def Let_def p prod.case by (auto split: sum.splits if_splits)
  then show r: "rights_of (fst (se_packets env ?a)) = [fd]"
    by (cases "rights_of first") (auto simp: p)
  then have "rights_of second = []" "rights_of first = [fd]" using * p by (simp_all add: rights_of_def)
  with * show "ds' = fd # ds" by (simp add: close_fds_def)
  from *(4) p show "\<exists>i. expected = Some i \<and> descriptor_valid (se_uid env) (pk_payload (fst (se_packets env ?a))) expected (se_fd env fd)"
    by (auto simp: descriptor_valid_def split: option.splits prod.splits)
qed


section \<open>Requests\<close>

record NativeFileStreamsBackend =
  base :: NativeFilesBackend
  handles :: "(pystr \<times> ReadHandle) list"
  descriptors :: "nat list"

definition native_file_streams_backend ::
    "nat \<Rightarrow> pystr \<Rightarrow> bool \<Rightarrow> nat \<Rightarrow> st_info \<Rightarrow> bool \<Rightarrow> exn + NativeFileStreamsBackend" where
  "native_file_streams_backend uid guest_workspace aliased fd info locked =
     bindE (native_files_backend uid guest_workspace aliased fd info locked) (\<lambda>b.
       Inr \<lparr>base = b, handles = [], descriptors = []\<rparr>)"

definition drop_handle :: "pystr \<Rightarrow> NativeFileStreamsBackend \<Rightarrow> NativeFileStreamsBackend" where
  "drop_handle identity b =
     (let (hs, ds) = drop_entry rh_fd identity (handles b, descriptors b) in b\<lparr>handles := hs, descriptors := ds\<rparr>)"

text \<open>The body of the \<open>try\<close> block of \<open>fs/open\<close> up to the acquisition.\<close>

definition admit_open :: "stream_env \<Rightarrow> fsnode \<Rightarrow> NativeFilesBackend \<Rightarrow> BackendCall \<Rightarrow> dict \<Rightarrow> exn + PolicyIntent \<times> pystr list \<times> st_info option" where
  "admit_open env tree b call d =
     bindE (prepare_policy_intent (dget d (lit ''sandbox'')) (call_session call) (id_text (call_request call)) (call_method call)) (\<lambda>intent.
     bindE (parse_context_bytes (context_json intent)) (\<lambda>policy.
     bindE (getitem d (lit ''path'')) (\<lambda>v.
     bindE (from_uri v (lit ''path'')) (\<lambda>g.
       let refused = PermissionError (lit ''Filesystem policy denies the requested file handle'') in
       if \<not> contains (mount b) g \<or> g = mount b then Inl refused
       else bindE (decide_path policy g) (\<lambda>decision.
         if \<not> can_read decision then Inl refused
         else bindE (inspect (se_uid env) (mount b) tree) (\<lambda>s.
           Inr (intent, inside b g, map_of (seen_nodes s) (inside b g))))))))"

definition open_error :: "stream_env \<Rightarrow> exn \<Rightarrow> exn" where
  "open_error env e =
     (if is_value_error e \<or> (case e of KeyError _ \<Rightarrow> True | PermissionError _ \<Rightarrow> True | _ \<Rightarrow> False)
      then RpcError (-32000) (se_text env e) None
      else if is_os_error e then rpc (-32603) ''Native file descriptor acquisition failed'' else e)"

definition open_handle :: "stream_env \<Rightarrow> fsnode \<Rightarrow> NativeFileStreamsBackend \<Rightarrow> BackendCall \<Rightarrow> dict \<Rightarrow> NativeFileStreamsBackend \<times> (exn + json)" where
  "open_handle env tree b call d =
     (let identity = str_of (dget d (lit ''handleId'')) in
      if map_of (handles b) identity \<noteq> None then (b, Inl (rpc (-32600) ''File read handle already exists''))
      else if MAX_OPEN_HANDLES \<le> length (handles b)
      then (b, Inl (rpc (-32600) ''At most 128 file reads may be open per connection''))
      else case admit_open env tree (base b) call d of
          Inl e \<Rightarrow> (b, Inl (open_error env e))
        | Inr (intent, ps, expected) \<Rightarrow>
            (case acquire_fd env (root_fd (base b)) (join_on [47] ps) expected (descriptors b) of
               (Inl e, ds) \<Rightarrow> (b\<lparr>descriptors := ds\<rparr>, Inl (open_error env e))
             | (Inr fd, ds) \<Rightarrow>
                 let info = fd_info (se_fd env fd) in
                 (b\<lparr>descriptors := ds,
                    handles := handles b @ [(identity, \<lparr>rh_id = identity, rh_fd = fd, rh_session = call_session call, rh_policy = intent,
                      rh_device = st_dev info, rh_inode = st_ino info\<rparr>)]\<rparr>,
                  Inr (JObj [(lit ''handleId'', JStr identity)]))))"

definition read_arguments :: "nat \<Rightarrow> int \<Rightarrow> int \<Rightarrow> pystr list" where
  "read_arguments fd offset len = [lit ''read'', nat_digits fd, int_str offset, int_str len]"

definition read_block :: "stream_env \<Rightarrow> NativeFileStreamsBackend \<Rightarrow> BackendCall \<Rightarrow> dict \<Rightarrow> NativeFileStreamsBackend \<times> (exn + json)" where
  "read_block env b call d =
     (let identity = str_of (dget d (lit ''handleId'')); len = int_of (dget d (lit ''len'')); offset = int_of (dget d (lit ''offset'')) in
      if \<not> (1 \<le> len \<and> len \<le> int MAX_BLOCK)
      then (b, Inl (rpc (-32600) ''File read block length must be between 1 and 1048576''))
      else case map_of (handles b) identity of
          None \<Rightarrow> (b, Inl (rpc (-32004) ''Unknown file read handle''))
        | Some h \<Rightarrow>
            if rh_session h \<noteq> call_session call
            then (b, Inl (rpc (-32000) ''File read handle belongs to another session''))
            else (case bindE (invoke env (read_arguments (rh_fd h) offset len)) (\<lambda>data.
                    if len < int (length data) then Inl (rpc (-32603) ''Native file block exceeded the requested length'') else Inr data) of
                Inl e \<Rightarrow> (drop_handle identity b, Inl e)
              | Inr data \<Rightarrow> (b, Inr (JObj [(lit ''chunk'', JStr (b64encode data)), (lit ''eof'', JBool (int (length data) < len))]))))"

definition stream_params :: "BackendCall \<Rightarrow> exn + dict" where
  "stream_params call =
     bindE (call_params call) (\<lambda>v. seqE (validate_operation (call_method call) v)
       (bindE (encodeE (str_of (dget (obj_of v) (lit ''handleId'')))) (\<lambda>bs.
         if MAX_HANDLE_BYTES < length bs then Inl (rpc (-32600) ''File read handle ID exceeds the official 32-byte bound'')
         else Inr (obj_of v))))"

definition handle_stream :: "stream_env \<Rightarrow> fsnode \<Rightarrow> NativeFileStreamsBackend \<Rightarrow> BackendCall \<Rightarrow> NativeFileStreamsBackend \<times> (exn + json)" where
  "handle_stream env tree b call =
     (let m = call_method call in
      if m \<notin> set STREAM_METHODS then
        (case NativeFiles.handle (se_sha256 env) (se_text env) (se_uid env) (se_files env) tree (base b) call of
           (fb, answer) \<Rightarrow> (b\<lparr>base := fb\<rparr>, answer))
      else if fs_closed (base b) then (b, Inl (rpc (-32000) ''Filesystem session is closed''))
      else if fs_session (base b) \<noteq> None \<and> fs_session (base b) \<noteq> Some (call_session call)
      then (b, Inl (rpc (-32000) ''Workspace belongs to another executor session''))
      else let b = b\<lparr>base := (base b)\<lparr>fs_session := Some (call_session call)\<rparr>\<rparr> in
        (case stream_params call of
           Inl e \<Rightarrow> (b, Inl e)
         | Inr d \<Rightarrow>
             if m = lit ''fs/open'' then open_handle env tree b call d
             else if m = lit ''fs/close'' then (drop_handle (str_of (dget d (lit ''handleId''))) b, Inr empty_result)
             else read_block env b call d))"

definition close_streams :: "NativeFileStreamsBackend \<Rightarrow> pystr \<Rightarrow> NativeFileStreamsBackend \<times> (exn + unit)" where
  "close_streams b session_id =
     (if fs_closed (base b) then (b, Inr ())
      else if fs_session (base b) \<noteq> None \<and> fs_session (base b) \<noteq> Some session_id
      then (b, Inl (rpc (-32000) ''Cannot close a different filesystem session''))
      else let (hs, ds) = drop_all rh_fd (handles b, descriptors b) in
        (b\<lparr>handles := hs, descriptors := ds, base := (base b)\<lparr>fs_closed := True\<rparr>\<rparr>, Inr ()))"

section \<open>The table of handles\<close>

text \<open>
  A handle is filed under its own identifier, of at most 32 bytes, for the session that owns the backend;
  the descriptors are exactly those of the table; a closed backend has none.
\<close>

definition entry_ok :: "NativeFilesBackend \<Rightarrow> pystr \<times> ReadHandle \<Rightarrow> bool" where
  "entry_ok fb e \<longleftrightarrow> rh_id (snd e) = fst e \<and> Some (rh_session (snd e)) = fs_session fb \<and>
     (\<exists>bs. utf8_encode (fst e) = Some bs \<and> length bs \<le> MAX_HANDLE_BYTES)"

definition streams_ok :: "NativeFileStreamsBackend \<Rightarrow> bool" where
  "streams_ok b \<longleftrightarrow> table_ok rh_fd (handles b, descriptors b) \<and> (\<forall>e \<in> set (handles b). entry_ok (base b) e) \<and>
     (fs_closed (base b) \<longrightarrow> handles b = [])"

text \<open>Descriptors received over a socket are new numbers.\<close>

definition fresh_descriptors :: "stream_env \<Rightarrow> NativeFileStreamsBackend \<Rightarrow> bool" where
  "fresh_descriptors env b \<longleftrightarrow>
     (\<forall>arguments. set (rights_of (fst (se_packets env arguments))) \<inter> set (descriptors b) = {})"

datatype stream_label = StreamRequest BackendCall "exn + json" | StreamClose pystr

inductive stream_step :: "NativeFileStreamsBackend \<Rightarrow> stream_label \<Rightarrow> NativeFileStreamsBackend \<Rightarrow> bool" where
  stream_request: "fresh_descriptors env b \<Longrightarrow> handle_stream env tree b call = (b', answer) \<Longrightarrow>
     stream_step b (StreamRequest call answer) b'"
| stream_close: "close_streams b sid = (b', answer) \<Longrightarrow> stream_step b (StreamClose sid) b'"

inductive_cases stream_stepE: "stream_step b l b'"

lemma drop_handle_ok:
  assumes "streams_ok b"
  shows "streams_ok (drop_handle k b)"
proof -
  obtain hs ds where t: "drop_entry rh_fd k (handles b, descriptors b) = (hs, ds)" by fastforce
  have "e \<in> set (handles b)" if "e \<in> set hs" for e
    using drop_entry_mem [of e rh_fd k "(handles b, descriptors b)"] that t by simp
  moreover have "handles b = [] \<Longrightarrow> hs = []"
    using t by (simp add: drop_entry_def)
  ultimately show ?thesis
    using assms drop_entry_ok [of rh_fd "(handles b, descriptors b)" k] t
    by (auto simp: streams_ok_def drop_handle_def)
qed

lemma close_streams_ok: "streams_ok b \<Longrightarrow> close_streams b sid = (b', answer) \<Longrightarrow> streams_ok b'"
  using drop_all_ok [of rh_fd "(handles b, descriptors b)"]
  by (auto simp: close_streams_def streams_ok_def Let_def table_ok_def split: if_splits)

lemma streams_ok_descriptors: "streams_ok b \<Longrightarrow> mset ds = mset (descriptors b) \<Longrightarrow> streams_ok (b\<lparr>descriptors := ds\<rparr>)"
  using mset_eq_imp_distinct_iff [of ds "descriptors b"] by (auto simp: streams_ok_def table_ok_def)

lemma open_handle_cases:
  assumes "open_handle env tree b call d = (b', answer)"
  obtains "b' = b" "\<exists>e. answer = Inl e"
    | e ds r rel expected where "acquire_fd env r rel expected (descriptors b) = (Inl e, ds)" "b' = b\<lparr>descriptors := ds\<rparr>" "\<exists>e. answer = Inl e"
    | fd ds intent ps expected h where "admit_open env tree (base b) call d = Inr (intent, ps, expected)"
      "acquire_fd env (root_fd (base b)) (join_on [47] ps) expected (descriptors b) = (Inr fd, ds)"
      "map_of (handles b) (str_of (dget d (lit ''handleId''))) = None" "length (handles b) < 128"
      "rh_fd h = fd" "rh_id h = str_of (dget d (lit ''handleId''))" "rh_session h = call_session call"
      "b' = b\<lparr>descriptors := ds, handles := handles b @ [(str_of (dget d (lit ''handleId'')), h)]\<rparr>"
proof (cases "map_of (handles b) (str_of (dget d (lit ''handleId''))) = None \<and> length (handles b) < 128")
  case False
  with assms show thesis
    by (intro that(1)) (auto simp: open_handle_def Let_def MAX_OPEN_HANDLES_def split: if_splits)
next
  case True
  note room = this
  show thesis
  proof (cases "admit_open env tree (base b) call d")
    case (Inl e)
    with True assms show thesis
      by (intro that(1)) (auto simp: open_handle_def Let_def MAX_OPEN_HANDLES_def)
  next
    case (Inr x)
    then obtain intent ps expected where x: "admit_open env tree (base b) call d = Inr (intent, ps, expected)"
      by (cases x) auto
    obtain r ds where a: "acquire_fd env (root_fd (base b)) (join_on [47] ps) expected (descriptors b) = (r, ds)"
      by fastforce
    show thesis
    proof (cases r)
      case (Inl e)
      with room x a assms show thesis
        by (intro that(2)) (auto simp: open_handle_def Let_def MAX_OPEN_HANDLES_def)
    next
      case (Inr fd)
      with room x a assms show thesis
        by (intro that(3) [OF x]) (auto simp: open_handle_def Let_def MAX_OPEN_HANDLES_def)
    qed
  qed
qed

lemma open_handle_ok:
  assumes "streams_ok b" and "fresh_descriptors env b" and "\<not> fs_closed (base b)" and "fs_session (base b) = Some (call_session call)"
    and "utf8_encode (str_of (dget d (lit ''handleId''))) = Some bs" and "length bs \<le> MAX_HANDLE_BYTES"
    and "open_handle env tree b call d = (b', answer)"
  shows "streams_ok b'"
proof (rule open_handle_cases [OF assms(7)], goal_cases)
  case 1
  with assms(1) show ?thesis by simp
next
  case (2 e ds r rel expected)
  with streams_ok_descriptors [OF assms(1) acquire_fd_error] show ?thesis by blast
next
  case (3 fd ds intent ps expected h)
  let ?k = "str_of (dget d (lit ''handleId''))"
  note got = acquire_fd_success [OF 3(2)]
  have "fd \<notin> set (descriptors b)"
    using spec [OF assms(2) [unfolded fresh_descriptors_def], of "open_arguments env (root_fd (base b)) (join_on [47] ps) expected"]
      got(3) by simp
  moreover have "table_ok rh_fd (handles b, descriptors b)"
    using assms(1) by (simp add: streams_ok_def)
  ultimately have "table_ok rh_fd (handles b @ [(?k, h)], ds)"
    using insert_entry_ok [of rh_fd "handles b" "descriptors b" ?k ds h] 3(3-5) got(1) by simp
  moreover have "entry_ok (base b) (?k, h)"
    using assms(4-6) 3(6,7) by (simp add: entry_ok_def)
  ultimately show ?thesis
    using assms(1,3) unfolding 3(8) streams_ok_def by simp
qed

lemma read_block_ok:
  assumes "streams_ok b" and "read_block env b call d = (b', answer)"
  shows "streams_ok b'"
proof -
  have "b' = b \<or> (\<exists>k. b' = drop_handle k b)"
    using assms(2) unfolding read_block_def Let_def by (auto split: if_splits option.splits sum.splits)
  with assms(1) drop_handle_ok show ?thesis by blast
qed

lemma streams_ok_session:
  assumes "streams_ok b" and "fs_session (base b) = None \<or> fs_session (base b) = Some sid"
  shows "streams_ok (b\<lparr>base := (base b)\<lparr>fs_session := Some sid\<rparr>\<rparr>)"
  using assms by (auto simp: streams_ok_def entry_ok_def)

lemma files_handle_frame:
  assumes "NativeFiles.handle sha text uid helper tree fb call = (fb', answer)"
  shows "fs_closed fb' = fs_closed fb" and "fs_session fb = None \<or> fs_session fb' = fs_session fb"
  using assms by (auto simp: NativeFiles.handle_def Let_def split: if_splits)

lemma stream_params_bound:
  assumes "stream_params call = Inr d"
  obtains v bs where "call_params call = Inr v" "d = obj_of v"
    "utf8_encode (str_of (dget d (lit ''handleId''))) = Some bs" "length bs \<le> MAX_HANDLE_BYTES"
proof -
  have "\<exists>v bs. call_params call = Inr v \<and> d = obj_of v \<and> encodeE (str_of (dget d (lit ''handleId''))) = Inr bs \<and> length bs \<le> MAX_HANDLE_BYTES"
    using assms unfolding stream_params_def by (elim exn_elims) auto
  then show thesis using that by (auto simp: encodeE_def split: option.splits)
qed

lemma handle_stream_ok:
  assumes "streams_ok b" and "fresh_descriptors env b" and "handle_stream env tree b call = (b', answer)"
  shows "streams_ok b'"
proof (cases "call_method call \<in> set STREAM_METHODS")
  case False
  obtain fb r where fb: "NativeFiles.handle (se_sha256 env) (se_text env) (se_uid env) (se_files env) tree (base b) call = (fb, r)"
    by fastforce
  with False assms(3) have "b' = b\<lparr>base := fb\<rparr>" by (simp add: handle_stream_def Let_def)
  with files_handle_frame [OF fb] assms(1) show ?thesis
    by (auto simp: streams_ok_def entry_ok_def)
next
  case True
  let ?b = "b\<lparr>base := (base b)\<lparr>fs_session := Some (call_session call)\<rparr>\<rparr>"
  show ?thesis
  proof (cases "fs_closed (base b) \<or> fs_session (base b) \<noteq> None \<and> fs_session (base b) \<noteq> Some (call_session call)")
    case refused: True
    with True assms(1,3) show ?thesis by (auto simp: handle_stream_def Let_def split: if_splits)
  next
    case admitted: False
    then have ok: "streams_ok ?b" by (intro streams_ok_session [OF assms(1)]) blast
    have fresh: "fresh_descriptors env ?b"
      using assms(2) by (simp add: fresh_descriptors_def)
    show ?thesis
    proof (cases "stream_params call")
      case (Inl e)
      with True admitted assms(3) ok show ?thesis by (auto simp: handle_stream_def Let_def split: if_splits)
    next
      case (Inr d)
      with True admitted assms(3) have "b' = drop_handle (str_of (dget d (lit ''handleId''))) ?b \<or> read_block env ?b call d = (b', answer) \<or>
          open_handle env tree ?b call d = (b', answer)"
        by (auto simp: handle_stream_def Let_def split: if_splits)
      moreover obtain bs where bs: "utf8_encode (str_of (dget d (lit ''handleId''))) = Some bs" "length bs \<le> MAX_HANDLE_BYTES"
        by (rule stream_params_bound [OF Inr])
      moreover have "\<not> fs_closed (base ?b)" "fs_session (base ?b) = Some (call_session call)"
        using admitted by simp_all
      note opened = open_handle_ok [OF ok fresh this bs]
      ultimately show ?thesis
        by (elim disjE) (simp_all only: drop_handle_ok [OF ok] read_block_ok [OF ok] opened)
    qed
  qed
qed

interpretation file_streams: invariant_system stream_step streams_ok
  by unfold_locales (auto elim!: stream_stepE intro: handle_stream_ok close_streams_ok)


text \<open>C13: a handle is opened only on a file that the policy of the same request lets it read: inside the
  workspace, found there by the inspection with the device and inode of the descriptor, which is a regular file
  of the owner with one name, read-only and closed on exec.\<close>

theorem opened_handles_are_authorised:
  assumes "handle_stream env tree b call = (b', Inr answer)" and "call_method call = lit ''fs/open''"
    and "wf_tree tree" and "is_dir (node_info tree)"
  shows "\<exists>v d policy g h i node. call_params call = Inr v \<and> d = obj_of v \<and>
    parse_context (dget d (lit ''sandbox'')) = Inr policy \<and> from_uri (dget d (lit ''path'')) (lit ''path'') = Inr g \<and>
    contains (mount (base b)) g \<and> g \<noteq> mount (base b) \<and> readable policy g \<and>
    map_of (handles b) (str_of (dget d (lit ''handleId''))) = None \<and>
    map_of (handles b') (str_of (dget d (lit ''handleId''))) = Some h \<and> i = fd_info (se_fd env (rh_fd h)) \<and>
    lookup tree (inside (base b) g) = Some node \<and> st_dev (node_info node) = st_dev i \<and> st_ino (node_info node) = st_ino i \<and>
    is_reg i \<and> st_uid i = se_uid env \<and> st_nlink i = 1 \<and> fd_flags (se_fd env (rh_fd h)) mod 4 = 0 \<and> fd_cloexec (se_fd env (rh_fd h))"
proof -
  let ?b = "b\<lparr>base := (base b)\<lparr>fs_session := Some (call_session call)\<rparr>\<rparr>"
  obtain d where d: "stream_params call = Inr d" and "open_handle env tree ?b call d = (b', Inr answer)"
    using assms(1,2) unfolding handle_stream_def Let_def STREAM_METHODS_def
    by (cases "stream_params call") (auto split: if_splits)
  moreover from d obtain v where v: "call_params call = Inr v" "d = obj_of v"
    by (rule stream_params_bound)
  ultimately have op: "open_handle env tree ?b call (obj_of v) = (b', Inr answer)"
    by simp
  let ?d = "obj_of v"
  let ?k = "str_of (dget ?d (lit ''handleId''))"
  obtain intent ps expected fd ds h where a: "admit_open env tree (base ?b) call ?d = Inr (intent, ps, expected)"
    and f: "acquire_fd env (root_fd (base b)) (join_on [47] ps) expected (descriptors b) = (Inr fd, ds)"
    and none: "map_of (handles b) ?k = None" and h: "rh_fd h = fd" "handles b' = handles b @ [(?k, h)]"
    by (rule open_handle_cases [OF op]) auto
  obtain policy g s where pol: "prepare_policy_intent (dget ?d (lit ''sandbox'')) (call_session call) (id_text (call_request call)) (call_method call) = Inr intent"
      "parse_context_bytes (context_json intent) = Inr policy"
    and g: "from_uri (dget ?d (lit ''path'')) (lit ''path'') = Inr g" "contains (mount (base b)) g" "g \<noteq> mount (base b)" "readable policy g"
    and s: "inspect (se_uid env) (mount (base b)) tree = Inr s" "ps = inside (base b) g" "expected = map_of (seen_nodes s) ps"
    using a unfolding admit_open_def Let_def
    by (elim exn_elims) (auto simp: readable_def getitem_def inside_def split: if_splits)
  from acquire_fd_success(2) [OF f] obtain i payload where i: "expected = Some i"
    "descriptor_valid (se_uid env) payload expected (se_fd env fd)" by blast
  obtain node where node: "lookup tree ps = Some node" "i = node_info node"
    using inspected_node [OF s(1) assms(3,4), of ps] s(3) i(1) by (cases "lookup tree ps") auto
  have "parse_context (dget ?d (lit ''sandbox'')) = Inr policy"
    using prepare_policy_intent_parse [OF pol(1)] pol(2) by simp
  moreover have "map_of (handles b') ?k = Some h"
    using none h(2) by (simp add: map_add_def)
  ultimately show ?thesis
    using v g none h(1) node s(2) descriptor_validD [OF i(2) [unfolded i(1)]]
    by (intro exI [of _ v] exI [of _ "obj_of v"] exI [of _ policy] exI [of _ g] exI [of _ h] exI [of _ "fd_info (se_fd env fd)"] exI [of _ node])
      simp
qed


section \<open>Examples\<close>

definition example_inode :: st_info where
  "example_inode = \<lparr>st_uid = 1000, st_mode = 33152, st_nlink = 1, st_dev = 1, st_ino = 3, st_size = 0, st_mtime_ns = 0, st_ctime_ns = 0\<rparr>"

definition example_workspace :: fsnode where
  "example_workspace = FsNode (node_info example_tree) [(lit ''a'', FsNode example_inode [])]"

definition example_stream_env :: stream_env where
  "example_stream_env = \<lparr>se_sha256 = (\<lambda>_. []), se_text = (\<lambda>_. []), se_uid = 1000, se_files = (\<lambda>_ _. None),
     se_run = (\<lambda>_. Some (0, [], [])), se_arrive = (\<lambda>_. 1), se_socket = 5,
     se_packets = (\<lambda>_. (\<lparr>pk_payload = lit ''FGFDv1'' @ [0, 0] @ [1, 0, 0, 0, 0, 0, 0, 0] @ [3, 0, 0, 0, 0, 0, 0, 0] @
         [128, 129, 0, 0, 0, 0, 0, 0] @ [232, 3, 0, 0, 0, 0, 0, 0] @ [1, 0, 0, 0, 0, 0, 0, 0],
         pk_ancillary = [(True, [7, 0, 0, 0])], pk_truncated = False\<rparr>,
       \<lparr>pk_payload = [], pk_ancillary = [], pk_truncated = False\<rparr>)),
     se_fd = (\<lambda>_. \<lparr>fd_info = example_inode, fd_flags = 0, fd_cloexec = True\<rparr>)\<rparr>"

definition example_streams :: NativeFileStreamsBackend where
  "example_streams = \<lparr>base = example_files, handles = [], descriptors = []\<rparr>"

definition example_open :: json where
  "example_open = JObj [(lit ''path'', jlit ''file:///w/a''), (lit ''handleId'', jlit ''h''),
     (lit ''sandbox'', JObj (context_members example_policy))]"

definition example_open_call :: BackendCall where
  "example_open_call = \<lparr>call_session = lit ''s'', call_request = jlit ''r'', call_method = lit ''fs/open'',
     params_json = (case dump_bytes example_open of Inl _ \<Rightarrow> [] | Inr bs \<Rightarrow> bs), trace_json = None\<rparr>"


lemma example_open_params: "call_params example_open_call = Inr example_open"
proof -
  have wf: "wf_policy example_policy"
    by (simp add: wf_policy_def example_policy_def wf_guest_def wf_component_def dots_def is_drive_def is_control_def is_scalar_def lit_def)
  have "encodable example_open" "wf_json example_open" "float_free example_open"
    using context_members_encodable [OF wf] context_members_json [of example_policy]
    by (simp_all add: example_open_def) (simp_all add: lit_def is_scalar_def)
  moreover from this(1) obtain bs where bs: "dump_bytes example_open = Inr bs" using dump_bytes_total by blast
  ultimately have "loads_bytes plain_pairs plain_constant bs = Inr example_open"
    by (intro loads_dump_bytes plain_pairs_distinct)
  with bs show ?thesis by (simp add: call_params_def example_open_call_def)
qed

lemma example_admit:
  "\<exists>intent. admit_open example_stream_env example_workspace (example_files\<lparr>fs_session := Some (lit ''s'')\<rparr>) example_open_call (obj_of example_open) =
     Inr (intent, [lit ''a''], Some example_inode)"
proof -
  let ?g = "GuestPath [lit ''w'', lit ''a'']"
  obtain intent where intent: "prepare_policy_intent (JObj (context_members example_policy)) (lit ''s'') (lit ''r'') (lit ''fs/open'') = Inr intent"
  proof -
    have "intent_identifier (lit ''s'') (lit ''$.sessionId'') = Inr ()" "intent_identifier (lit ''r'') (lit ''$.requestId'') = Inr ()"
      "lit ''fs/open'' \<in> set POLICY_BEARING_METHODS"
      by (simp_all add: intent_identifier_def utf8_encode_def POLICY_BEARING_METHODS_def) (simp_all add: lit_def is_scalar_def is_control_def)
    then have "\<exists>i. prepare_policy_intent (JObj (context_members example_policy)) (lit ''s'') (lit ''r'') (lit ''fs/open'') = Inr i"
      unfolding prepare_policy_intent_succeeds using example_policy_parses by blast
    then show thesis using that by blast
  qed
  then have "parse_context_bytes (context_json intent) = Inr example_policy"
    using prepare_policy_intent_parse example_policy_parses by metis
  moreover have "decide_path example_policy ?g = Inr (decide_guest example_policy ?g)" "can_read (decide_guest example_policy ?g)"
    by (rule decide_path_wf [OF example_file_path(1)])
      (simp add: can_read_def decide_guest_def example_policy_def resolve_def targets_def gappend_def
        contains_def entry_protects_def METADATA_NAMES_def Let_def)
  moreover have "from_uri (jlit ''file:///w/a'') f = Inr ?g" for f
    using from_uri_uri_text [OF example_file_path(1)] by (simp add: example_file_path(2))
  moreover have "\<exists>s. inspect 1000 (GuestPath [lit ''w'']) example_workspace = Inr s \<and> map_of (seen_nodes s) [lit ''a''] = Some example_inode"
    by (simp add: inspect_def example_workspace_def inspect_name_def Let_def utf8_encode_def MAX_ENTRIES_def supported_inode_def
        example_inode_def is_reg_def is_dir_def ifmt_def MAX_DEPTH_def) (simp add: lit_def is_scalar_def)
  ultimately show ?thesis
    using intent
    by (auto simp: admit_open_def example_open_def example_open_call_def getitem_def example_files_def contains_def inside_def id_text_def
        example_stream_env_def)
qed

lemma example_opens: "\<exists>b' answer. handle_stream example_stream_env example_workspace example_streams example_open_call = (b', Inr answer)"
proof -
  have "urlsplit (lit ''file:///'' @ lit ''w/a'') = Some \<lparr>scheme = lit ''file'', netloc = [], path = 47 # lit ''w/a'', query = [], fragment = []\<rparr>"
    by (rule urlsplit_file) (auto simp: lit_def)
  then have url: "urlsplit (lit ''file:///w/a'') = Some \<lparr>scheme = lit ''file'', netloc = [], path = 47 # lit ''w/a'', query = [], fragment = []\<rparr>"
    by (simp add: lit_def)
  have "map_of schemas (lit ''fs/open'') = Some (map lit [''path'', ''handleId''], map lit [''sandbox''])"
    by (simp add: schemas_def)
  then have "validate_operation (lit ''fs/open'') example_open = Inr ()"
    by (simp add: validate_operation_def check_fields_def example_open_def check_param_def check_type_def check_uri_def url)
      (simp add: lit_def)
  then have params: "stream_params example_open_call = Inr (obj_of example_open)"
    by (simp add: stream_params_def example_open_params) (simp add: example_open_call_def example_open_def encodeE_def utf8_encode_def lit_def is_scalar_def MAX_HANDLE_BYTES_def)
  obtain intent where admit: "admit_open example_stream_env example_workspace (example_files\<lparr>fs_session := Some (lit ''s'')\<rparr>) example_open_call
      (obj_of example_open) = Inr (intent, [lit ''a''], Some example_inode)"
    using example_admit by blast
  have "acquire_fd example_stream_env 3 (lit ''a'') (Some example_inode) [] = (Inr 7, [7])"
    by (simp add: acquire_fd_def example_stream_env_def invoke_def receive_result output_limit_def open_arguments_def rights_of_def
        rights_valid_def packet_size_def descriptor_valid_def unpack_def example_inode_def is_reg_def ifmt_def close_fds_def)
  then show ?thesis
    using admit params
    by (simp add: handle_stream_def Let_def example_open_call_def STREAM_METHODS_def example_streams_def example_files_def open_handle_def MAX_OPEN_HANDLES_def)
qed

theorem opened_handles_are_authorised_witness:
  "\<exists>b' answer policy g. handle_stream example_stream_env example_workspace example_streams example_open_call = (b', Inr answer) \<and>
    parse_context (dget (obj_of example_open) (lit ''sandbox'')) = Inr policy \<and>
    from_uri (dget (obj_of example_open) (lit ''path'')) (lit ''path'') = Inr g \<and> readable policy g"
proof -
  obtain b' answer where run: "handle_stream example_stream_env example_workspace example_streams example_open_call = (b', Inr answer)"
    using example_opens by blast
  have "call_method example_open_call = lit ''fs/open''" "wf_tree example_workspace" "is_dir (node_info example_workspace)"
    by (simp_all add: example_open_call_def example_workspace_def example_tree_def is_dir_def ifmt_def)
  from opened_handles_are_authorised [OF run this] run show ?thesis
    by (auto simp: example_open_params)
qed

end
