(* ===== verification/PosixFs.thy ===== *)
theory PosixFs
  imports FileStreams
begin

text \<open>
  The operating system as the ordinary-UID file backend uses it: inodes with names that are byte strings,
  path resolution with symbolic links, descriptors with offsets and the calls of \<open>os\<close> and
  \<open>pathlib\<close>.  A computation threads the world and keeps what it did when it raises.  The world also
  carries what the outside decides: how many cancellation checks still pass, and how much each transfer
  moves.
\<close>

section \<open>Computations\<close>

definition retS :: "'a \<Rightarrow> 's \<Rightarrow> (exn + 'a) \<times> 's" where
  "retS x s = (Inr x, s)"

definition raiseS :: "exn \<Rightarrow> 's \<Rightarrow> (exn + 'a) \<times> 's" where
  "raiseS e s = (Inl e, s)"

definition liftS :: "exn + 'a \<Rightarrow> 's \<Rightarrow> (exn + 'a) \<times> 's" where
  "liftS r s = (r, s)"

definition bindS :: "('s \<Rightarrow> (exn + 'a) \<times> 's) \<Rightarrow> ('a \<Rightarrow> 's \<Rightarrow> (exn + 'b) \<times> 's) \<Rightarrow> 's \<Rightarrow> (exn + 'b) \<times> 's" where
  "bindS m f s = (case m s of (Inl e, t) \<Rightarrow> (Inl e, t) | (Inr x, t) \<Rightarrow> f x t)"

definition catchS :: "('s \<Rightarrow> (exn + 'a) \<times> 's) \<Rightarrow> (exn \<Rightarrow> 's \<Rightarrow> (exn + 'a) \<times> 's) \<Rightarrow> 's \<Rightarrow> (exn + 'a) \<times> 's" where
  "catchS m h s = (case m s of (Inl e, t) \<Rightarrow> h e t | (Inr x, t) \<Rightarrow> (Inr x, t))"

definition finallyS :: "('s \<Rightarrow> (exn + 'a) \<times> 's) \<Rightarrow> ('s \<Rightarrow> 's) \<Rightarrow> 's \<Rightarrow> (exn + 'a) \<times> 's" where
  "finallyS m f s = (case m s of (r, t) \<Rightarrow> (r, f t))"

definition getS :: "('s \<Rightarrow> 'a) \<Rightarrow> 's \<Rightarrow> (exn + 'a) \<times> 's" where
  "getS f s = (Inr (f s), s)"

definition modifyS :: "('s \<Rightarrow> 's) \<Rightarrow> 's \<Rightarrow> (exn + unit) \<times> 's" where
  "modifyS f s = (Inr (), f s)"

fun eachS :: "('a \<Rightarrow> 's \<Rightarrow> (exn + unit) \<times> 's) \<Rightarrow> 'a list \<Rightarrow> 's \<Rightarrow> (exn + unit) \<times> 's" where
  "eachS f [] = retS ()"
| "eachS f (x # xs) = bindS (f x) (\<lambda>_. eachS f xs)"

section \<open>Inodes and paths\<close>

text \<open>
  An inode has its permission bits, its modification time, the size reported when it holds no data, and
  its content.
\<close>

type_synonym ino = nat
type_synonym fname = pybytes

datatype content = Data pybytes | Entries "(fname \<times> ino) list" | Target pybytes | Opaque

record inode =
  perm :: nat
  mtime :: int
  alloc :: nat
  content :: content

text \<open>Inode 0 is the root directory.\<close>

record vfs =
  inodes :: "(ino \<times> inode) list"
  next_ino :: ino

text \<open>A path: whether it begins with exactly two slashes, and its components.\<close>

datatype posix_path = PosixPath bool (comps: "fname list")

definition path_of :: "pybytes \<Rightarrow> posix_path" where
  "path_of bs = PosixPath (take 2 bs = [47, 47] \<and> take 3 bs \<noteq> [47, 47, 47]) (filter (\<lambda>c. c \<noteq> [] \<and> c \<noteq> [46]) (split_on 47 bs))"

definition join_path :: "posix_path \<Rightarrow> fname \<Rightarrow> posix_path" where
  "join_path p name = (case p of PosixPath d cs \<Rightarrow> PosixPath d (cs @ [name]))"

definition path_bytes :: "posix_path \<Rightarrow> pybytes" where
  "path_bytes p = (case p of PosixPath d cs \<Rightarrow> (if d then [47, 47] else [47]) @ join_on [47] cs)"

text \<open>\<open>as_uri()\<close>.\<close>

definition as_uri :: "posix_path \<Rightarrow> pystr" where
  "as_uri p = lit ''file://'' @ quote_bytes [47] (path_bytes p)"

definition ENOENT_error :: exn where "ENOENT_error = FileNotFoundError (lit ''No such file or directory'')"
definition ENOTDIR_error :: exn where "ENOTDIR_error = OSError 20 (lit ''Not a directory'')"
definition ELOOP_error :: exn where "ELOOP_error = OSError 40 (lit ''Too many levels of symbolic links'')"
definition EISDIR_error :: exn where "EISDIR_error = OSError 21 (lit ''Is a directory'')"
definition EEXIST_error :: exn where "EEXIST_error = FileExistsError (lit ''File exists'')"
definition ENOTEMPTY_error :: exn where "ENOTEMPTY_error = OSError 39 (lit ''Directory not empty'')"

definition node_at :: "vfs \<Rightarrow> ino \<Rightarrow> inode" where
  "node_at fs i = (case map_of (inodes fs) i of Some n \<Rightarrow> n | None \<Rightarrow> \<lparr>perm = 0, mtime = 0, alloc = 0, content = Opaque\<rparr>)"

definition content_at :: "vfs \<Rightarrow> ino \<Rightarrow> content" where
  "content_at fs i = content (node_at fs i)"

definition is_link_at :: "vfs \<Rightarrow> ino \<Rightarrow> bool" where
  "is_link_at fs i = (case content_at fs i of Target _ \<Rightarrow> True | _ \<Rightarrow> False)"

definition is_dir_at :: "vfs \<Rightarrow> ino \<Rightarrow> bool" where
  "is_dir_at fs i = (case content_at fs i of Entries _ \<Rightarrow> True | _ \<Rightarrow> False)"

definition is_file_at :: "vfs \<Rightarrow> ino \<Rightarrow> bool" where
  "is_file_at fs i = (case content_at fs i of Data _ \<Rightarrow> True | _ \<Rightarrow> False)"

definition entries_at :: "vfs \<Rightarrow> ino \<Rightarrow> (fname \<times> ino) list" where
  "entries_at fs i = (case content_at fs i of Entries es \<Rightarrow> es | _ \<Rightarrow> [])"

definition target_parts :: "pybytes \<Rightarrow> fname list" where
  "target_parts t = filter (\<lambda>c. c \<noteq> []) (split_on 47 t)"

text \<open>
  Where a path leads: an inode with the directories above it, or a missing name in a directory.  At most
  40 links are followed, the kernel's limit; the last link only when asked.
\<close>

datatype place = At "ino list" | Absent "ino list" fname

definition MAXSYMLINKS :: nat where "MAXSYMLINKS = 40"

function locate :: "vfs \<Rightarrow> bool \<Rightarrow> nat \<Rightarrow> ino list \<Rightarrow> fname list \<Rightarrow> exn + place" where
  "locate fs follow n st [] = Inr (At st)"
| "locate fs follow n st (c # cs) =
     (if \<not> is_dir_at fs (hd st) then Inl ENOTDIR_error
      else if c = [46] then locate fs follow n st cs
      else if c = [46, 46] then locate fs follow n (if tl st = [] then st else tl st) cs
      else case map_of (entries_at fs (hd st)) c of
          None \<Rightarrow> if cs = [] then Inr (Absent st c) else Inl ENOENT_error
        | Some i \<Rightarrow>
            (case content_at fs i of
               Target t \<Rightarrow>
                 if cs = [] \<and> \<not> follow then Inr (At (i # st))
                 else if n = 0 then Inl ELOOP_error
                 else locate fs follow (n - 1) (if take 1 t = [47] then [0] else st) (target_parts t @ cs)
             | _ \<Rightarrow> locate fs follow n (i # st) cs))"
  by pat_completeness auto

termination locate
  by (relation "measures [\<lambda>(fs, follow, n, st, cs). n, \<lambda>(fs, follow, n, st, cs). length cs]") auto

declare locate.simps(2) [simp del]

definition find_path :: "vfs \<Rightarrow> bool \<Rightarrow> posix_path \<Rightarrow> exn + place" where
  "find_path fs follow p = locate fs follow MAXSYMLINKS [0] (comps p)"

definition find_inode :: "vfs \<Rightarrow> bool \<Rightarrow> posix_path \<Rightarrow> exn + ino" where
  "find_inode fs follow p =
     bindE (find_path fs follow p) (\<lambda>pl. case pl of At st \<Rightarrow> Inr (hd st) | Absent _ _ \<Rightarrow> Inl ENOENT_error)"

text \<open>The same through directories only: no link anywhere, the last component included.\<close>

fun plain :: "vfs \<Rightarrow> ino \<Rightarrow> fname list \<Rightarrow> ino option" where
  "plain fs i [] = Some i"
| "plain fs i (c # cs) =
     (if is_dir_at fs i then case map_of (entries_at fs i) c of None \<Rightarrow> None | Some j \<Rightarrow> if is_link_at fs j then None else plain fs j cs
      else None)"

text \<open>\<open>resolve(strict)\<close>: the names of the resolved path, reversed.\<close>

function realpath :: "vfs \<Rightarrow> bool \<Rightarrow> nat \<Rightarrow> fname list \<Rightarrow> fname list \<Rightarrow> exn + fname list" where
  "realpath fs strict n acc [] = Inr acc"
| "realpath fs strict n acc (c # cs) =
     (if c = [46] then realpath fs strict n acc cs
      else if c = [46, 46] then realpath fs strict n (tl acc) cs
      else case plain fs 0 (rev acc) of
          None \<Rightarrow> if strict then Inl ENOENT_error else realpath fs strict n (c # acc) cs
        | Some d \<Rightarrow>
            if \<not> is_dir_at fs d then if strict then Inl ENOTDIR_error else realpath fs strict n (c # acc) cs
            else (case map_of (entries_at fs d) c of
                None \<Rightarrow> if strict then Inl ENOENT_error else realpath fs strict n (c # acc) cs
              | Some i \<Rightarrow>
                  (case content_at fs i of
                     Target t \<Rightarrow>
                       if n = 0 then if strict then Inl ELOOP_error else realpath fs strict n (c # acc) cs
                       else realpath fs strict (n - 1) (if take 1 t = [47] then [] else acc) (target_parts t @ cs)
                   | _ \<Rightarrow> realpath fs strict n (c # acc) cs)))"
  by pat_completeness auto

termination realpath
  by (relation "measures [\<lambda>(fs, strict, n, acc, cs). n, \<lambda>(fs, strict, n, acc, cs). length cs]") auto

declare realpath.simps(2) [simp del]

definition resolve_path :: "vfs \<Rightarrow> bool \<Rightarrow> posix_path \<Rightarrow> exn + posix_path" where
  "resolve_path fs strict p = bindE (realpath fs strict MAXSYMLINKS [] (comps p)) (\<lambda>acc. Inr (PosixPath False (rev acc)))"

section \<open>Changing the inodes\<close>

definition put_node :: "ino \<Rightarrow> inode \<Rightarrow> vfs \<Rightarrow> vfs" where
  "put_node i n fs = fs\<lparr>inodes := dict_put (inodes fs) i n\<rparr>"

definition put_content :: "ino \<Rightarrow> content \<Rightarrow> vfs \<Rightarrow> vfs" where
  "put_content i c fs = put_node i ((node_at fs i)\<lparr>content := c\<rparr>) fs"

definition add_entry :: "ino \<Rightarrow> fname \<Rightarrow> ino \<Rightarrow> vfs \<Rightarrow> vfs" where
  "add_entry d name i fs = put_content d (Entries (entries_at fs d @ [(name, i)])) fs"

definition del_entry :: "ino \<Rightarrow> fname \<Rightarrow> vfs \<Rightarrow> vfs" where
  "del_entry d name fs = put_content d (Entries (filter (\<lambda>(n, _). n \<noteq> name) (entries_at fs d))) fs"

definition create :: "ino \<Rightarrow> fname \<Rightarrow> nat \<Rightarrow> content \<Rightarrow> vfs \<Rightarrow> vfs \<times> ino" where
  "create d name p c fs =
     (let i = next_ino fs in
      (add_entry d name i ((put_node i \<lparr>perm = p, mtime = 0, alloc = 0, content = c\<rparr> fs)\<lparr>next_ino := i + 1\<rparr>), i))"

section \<open>The world\<close>

record world =
  w_fs :: vfs
  w_fds :: "(nat \<times> ino \<times> nat) list"
  w_checks :: "nat option"
  w_io :: "nat option list"

type_synonym 'a io = "world \<Rightarrow> (exn + 'a) \<times> world"

text \<open>The lowest free descriptor.\<close>

definition free_fd :: "world \<Rightarrow> nat" where
  "free_fd w = hd (filter (\<lambda>n. n \<notin> set (map fst (w_fds w))) [0 ..< Suc (length (w_fds w))])"

definition open_fd :: "ino \<Rightarrow> nat io" where
  "open_fd i w = (Inr (free_fd w), w\<lparr>w_fds := (free_fd w, i, 0) # w_fds w\<rparr>)"

definition close_fd :: "nat \<Rightarrow> world \<Rightarrow> world" where
  "close_fd fd w = w\<lparr>w_fds := filter (\<lambda>(n, _). n \<noteq> fd) (w_fds w)\<rparr>"

definition fd_ino :: "world \<Rightarrow> nat \<Rightarrow> ino" where
  "fd_ino w fd = (case map_of (w_fds w) fd of Some (i, _) \<Rightarrow> i | None \<Rightarrow> 0)"

definition fd_offset :: "world \<Rightarrow> nat \<Rightarrow> nat" where
  "fd_offset w fd = (case map_of (w_fds w) fd of Some (_, off) \<Rightarrow> off | None \<Rightarrow> 0)"

definition seek_fd :: "nat \<Rightarrow> nat \<Rightarrow> world \<Rightarrow> world" where
  "seek_fd fd off w = w\<lparr>w_fds := map (\<lambda>(n, i, o'). (n, i, if n = fd then off else o')) (w_fds w)\<rparr>"

definition data_at :: "vfs \<Rightarrow> ino \<Rightarrow> pybytes" where
  "data_at fs i = (case content_at fs i of Data bs \<Rightarrow> bs | _ \<Rightarrow> [])"

text \<open>
  How many of \<open>n\<close> bytes the next transfer moves: all, or the next size given, at least one.  \<open>None\<close> is an
  interruption, which the library itself repeats.
\<close>

definition transfer :: "nat \<Rightarrow> world \<Rightarrow> nat \<times> world" where
  "transfer n w =
     (case w_io w of
        [] \<Rightarrow> (n, w)
      | None # r \<Rightarrow> (n, w\<lparr>w_io := r\<rparr>)
      | Some k # r \<Rightarrow> (min n (max 1 k), w\<lparr>w_io := r\<rparr>))"

definition read_fd :: "nat \<Rightarrow> nat \<Rightarrow> pybytes io" where
  "read_fd fd n w =
     (let (k, w) = transfer n w; chunk = take k (drop (fd_offset w fd) (data_at (w_fs w) (fd_ino w fd))) in
      (Inr chunk, seek_fd fd (fd_offset w fd + length chunk) w))"

definition write_fd :: "nat \<Rightarrow> pybytes \<Rightarrow> nat io" where
  "write_fd fd bs w =
     (let (k, w) = transfer (length bs) w; i = fd_ino w fd; off = fd_offset w fd; old = data_at (w_fs w) i in
      (Inr k, seek_fd fd (off + k)
        (w\<lparr>w_fs := put_content i (Data (take off old @ take k bs @ drop (off + k) old)) (w_fs w)\<rparr>)))"

definition truncate_fd :: "nat \<Rightarrow> unit io" where
  "truncate_fd fd w =
     (if is_file_at (w_fs w) (fd_ino w fd) then (Inr (), w\<lparr>w_fs := put_content (fd_ino w fd) (Data []) (w_fs w)\<rparr>)
      else (Inl (OSError 22 (lit ''Invalid argument'')), w))"

definition fs_do :: "(vfs \<Rightarrow> exn + vfs) \<Rightarrow> unit io" where
  "fs_do f w = (case f (w_fs w) of Inl e \<Rightarrow> (Inl e, w) | Inr fs \<Rightarrow> (Inr (), w\<lparr>w_fs := fs\<rparr>))"

definition fs_ask :: "(vfs \<Rightarrow> exn + 'a) \<Rightarrow> 'a io" where
  "fs_ask f w = (f (w_fs w), w)"


section \<open>Calls\<close>

text \<open>\<open>os.open\<close> of a path, following links, and of a name in an open directory, not following it.\<close>

definition open_inode :: "bool \<Rightarrow> vfs \<Rightarrow> ino \<Rightarrow> exn + ino" where
  "open_inode creating fs i = (if creating \<and> is_dir_at fs i then Inl EISDIR_error else Inr i)"

definition make_file :: "ino \<Rightarrow> fname \<Rightarrow> nat io" where
  "make_file d name w = (case create d name 438 (Data []) (w_fs w) of (fs, i) \<Rightarrow> open_fd i (w\<lparr>w_fs := fs\<rparr>))"

definition os_open :: "posix_path \<Rightarrow> bool \<Rightarrow> nat io" where
  "os_open p creating w =
     (case find_path (w_fs w) True p of
        Inl e \<Rightarrow> (Inl e, w)
      | Inr (At st) \<Rightarrow> (case open_inode creating (w_fs w) (hd st) of Inl e \<Rightarrow> (Inl e, w) | Inr i \<Rightarrow> open_fd i w)
      | Inr (Absent st name) \<Rightarrow> if creating then make_file (hd st) name w else (Inl ENOENT_error, w))"

definition os_open_at :: "nat \<Rightarrow> fname \<Rightarrow> bool \<Rightarrow> nat io" where
  "os_open_at dir name creating w =
     (case map_of (entries_at (w_fs w) (fd_ino w dir)) name of
        None \<Rightarrow> if creating then make_file (fd_ino w dir) name w else (Inl ENOENT_error, w)
      | Some i \<Rightarrow>
          if is_link_at (w_fs w) i then (Inl ELOOP_error, w)
          else (case open_inode creating (w_fs w) i of Inl e \<Rightarrow> (Inl e, w) | Inr i \<Rightarrow> open_fd i w))"

text \<open>The same with \<open>O_DIRECTORY\<close>.\<close>

definition os_open_dir_at :: "nat \<Rightarrow> fname \<Rightarrow> nat io" where
  "os_open_dir_at dir name w =
     (case map_of (entries_at (w_fs w) (fd_ino w dir)) name of
        None \<Rightarrow> (Inl ENOENT_error, w)
      | Some i \<Rightarrow> if is_dir_at (w_fs w) i then open_fd i w else (Inl ENOTDIR_error, w))"

definition os_mkdir_at :: "nat \<Rightarrow> fname \<Rightarrow> unit io" where
  "os_mkdir_at dir name w =
     (case map_of (entries_at (w_fs w) (fd_ino w dir)) name of
        None \<Rightarrow> (Inr (), w\<lparr>w_fs := fst (create (fd_ino w dir) name 511 (Entries []) (w_fs w))\<rparr>)
      | Some i \<Rightarrow> (Inl EEXIST_error, w))"

definition os_mkdir :: "posix_path \<Rightarrow> vfs \<Rightarrow> exn + vfs" where
  "os_mkdir p fs =
     bindE (find_path fs False p) (\<lambda>pl. case pl of
         At _ \<Rightarrow> Inl EEXIST_error
       | Absent st name \<Rightarrow> Inr (fst (create (hd st) name 511 (Entries []) fs)))"

definition path_is_dir :: "vfs \<Rightarrow> posix_path \<Rightarrow> bool" where
  "path_is_dir fs p = (case find_inode fs True p of Inl _ \<Rightarrow> False | Inr i \<Rightarrow> is_dir_at fs i)"

definition is_missing :: "exn \<Rightarrow> bool" where
  "is_missing e = (case e of FileNotFoundError _ \<Rightarrow> True | _ \<Rightarrow> False)"

text \<open>\<open>Path.mkdir(parents, exist_ok)\<close>, on the components.\<close>

definition mkdir_once :: "bool \<Rightarrow> bool \<Rightarrow> fname list \<Rightarrow> vfs \<Rightarrow> exn + vfs" where
  "mkdir_once d exist_ok cs fs =
     (case os_mkdir (PosixPath d cs) fs of
        Inr fs' \<Rightarrow> Inr fs'
      | Inl e \<Rightarrow> if is_os_error e \<and> \<not> is_missing e \<and> exist_ok \<and> path_is_dir fs (PosixPath d cs) then Inr fs else Inl e)"

function path_mkdir :: "bool \<Rightarrow> bool \<Rightarrow> bool \<Rightarrow> fname list \<Rightarrow> vfs \<Rightarrow> exn + vfs" where
  "path_mkdir d parents exist_ok cs fs =
     (case mkdir_once d exist_ok cs fs of
        Inr fs' \<Rightarrow> Inr fs'
      | Inl e \<Rightarrow>
          if is_missing e \<and> parents \<and> cs \<noteq> []
          then bindE (path_mkdir d True True (butlast cs) fs) (mkdir_once d exist_ok cs)
          else Inl e)"
  by pat_completeness auto

termination path_mkdir
  by (relation "measure (\<lambda>(d, parents, exist_ok, cs, fs). length cs)") auto

declare path_mkdir.simps [simp del]

text \<open>\<open>os.unlink\<close> and \<open>os.rmdir\<close> of a name in a directory.\<close>

definition os_unlink :: "ino \<Rightarrow> fname \<Rightarrow> vfs \<Rightarrow> exn + vfs" where
  "os_unlink d name fs =
     (case map_of (entries_at fs d) name of
        None \<Rightarrow> Inl ENOENT_error
      | Some i \<Rightarrow> if is_dir_at fs i then Inl EISDIR_error else Inr (del_entry d name fs))"

definition os_rmdir :: "ino \<Rightarrow> fname \<Rightarrow> vfs \<Rightarrow> exn + vfs" where
  "os_rmdir d name fs =
     (case map_of (entries_at fs d) name of
        None \<Rightarrow> Inl ENOENT_error
      | Some i \<Rightarrow>
          if \<not> is_dir_at fs i then Inl ENOTDIR_error
          else if entries_at fs i \<noteq> [] then Inl ENOTEMPTY_error
          else Inr (del_entry d name fs))"

text \<open>
  A call on the entry a path names: the directory and the name, links on the way followed.  A last component
  \<open>..\<close> is no entry of a directory here.
\<close>

definition on_entry :: "posix_path \<Rightarrow> (ino \<Rightarrow> fname \<Rightarrow> vfs \<Rightarrow> exn + vfs) \<Rightarrow> vfs \<Rightarrow> exn + vfs" where
  "on_entry p f fs =
     (if comps p = [] then Inl (OSError 16 (lit ''Device or resource busy''))
      else bindE (find_path fs True (PosixPath False (butlast (comps p)))) (\<lambda>pl. case pl of
          Absent _ _ \<Rightarrow> Inl ENOENT_error
        | At st \<Rightarrow> if is_dir_at fs (hd st) then f (hd st) (last (comps p)) fs else Inl ENOTDIR_error))"

text \<open>UTF-8 with \<open>errors="replace"\<close>: one replacement for every maximal ill-formed sequence.\<close>

definition second_ok :: "nat \<Rightarrow> nat \<Rightarrow> bool" where
  "second_ok a b =
     (is_cont b \<and> (a = 0xE0 \<longrightarrow> 0xA0 \<le> b) \<and> (a = 0xED \<longrightarrow> b < 0xA0) \<and> (a = 0xF0 \<longrightarrow> 0x90 \<le> b) \<and> (a = 0xF4 \<longrightarrow> b < 0x90))"

definition ill_formed :: "pybytes \<Rightarrow> nat" where
  "ill_formed bs =
     (case bs of
        a # b # c # r \<Rightarrow>
          if 0xE0 \<le> a \<and> a < 0xF5 \<and> second_ok a b then if 0xF0 \<le> a \<and> is_cont c then 3 else 2 else 1
      | [a, b] \<Rightarrow> if 0xE0 \<le> a \<and> a < 0xF5 \<and> second_ok a b then 2 else 1
      | _ \<Rightarrow> 1)"

definition char_size :: "nat \<Rightarrow> nat" where
  "char_size a = (if a < 0x80 then 1 else if a < 0xE0 then 2 else if a < 0xF0 then 3 else 4)"

function utf8_replace :: "pybytes \<Rightarrow> pystr" where
  "utf8_replace [] = []"
| "utf8_replace (a # r) =
     (case utf8_decode (take (char_size a) (a # r)) of
        Some s \<Rightarrow> s @ utf8_replace (drop (char_size a) (a # r))
      | None \<Rightarrow> 0xFFFD # utf8_replace (drop (max 1 (ill_formed (a # r))) (a # r)))"
  by pat_completeness auto

termination utf8_replace
proof (relation "measure length")
  fix a :: nat and r :: pybytes
  show "(drop (char_size a) (a # r), a # r) \<in> measure length" by (simp add: char_size_def)
  show "(drop (max 1 (ill_formed (a # r))) (a # r), a # r) \<in> measure length" by simp
qed simp

declare utf8_replace.simps(2) [simp del]


section \<open>Descriptors\<close>

text \<open>
  Which computations leave the open descriptors alone, which open one, and which trade one for another,
  with rules that follow the combinators.
\<close>

definition fds :: "world \<Rightarrow> nat list" where
  "fds w = map fst (w_fds w)"

definition keeps :: "'a io \<Rightarrow> bool" where
  "keeps m \<longleftrightarrow> (\<forall>w r w'. m w = (r, w') \<longrightarrow> fds w' = fds w)"

fun opened :: "nat list \<Rightarrow> (exn + nat) \<times> world \<Rightarrow> bool" where
  "opened ks (Inl e, w) \<longleftrightarrow> fds w = ks"
| "opened ks (Inr fd, w) \<longleftrightarrow> fds w = fd # ks \<and> fd \<notin> set ks"

definition opens :: "nat io \<Rightarrow> bool" where
  "opens m \<longleftrightarrow> (\<forall>w. opened (fds w) (m w))"

definition moves :: "nat \<Rightarrow> nat io \<Rightarrow> bool" where
  "moves fd m \<longleftrightarrow> (\<forall>w ks. fds w = fd # ks \<longrightarrow> fd \<notin> set ks \<longrightarrow> opened ks (m w))"

named_theorems keeps_intros

lemma keepsI: "(\<And>w r w'. m w = (r, w') \<Longrightarrow> fds w' = fds w) \<Longrightarrow> keeps m"
  by (auto simp: keeps_def)

lemma keepsD: "keeps m \<Longrightarrow> m w = (r, w') \<Longrightarrow> fds w' = fds w"
  by (auto simp: keeps_def)

lemma opensD: "opens m \<Longrightarrow> m w = (Inl e, w') \<Longrightarrow> fds w' = fds w"
  "opens m \<Longrightarrow> m w = (Inr fd, w') \<Longrightarrow> fds w' = fd # fds w \<and> fd \<notin> set (fds w)"
  unfolding opens_def by (metis opened.simps)+

lemma keeps_basic [keeps_intros]:
  "keeps (retS x)" "keeps (raiseS e)" "keeps (liftS r)" "keeps (getS f)" "keeps (fs_ask g)" "keeps (fs_do h)"
  by (auto simp: keeps_def retS_def raiseS_def liftS_def getS_def fs_ask_def fs_do_def fds_def split: sum.splits)

lemma keeps_bindS [keeps_intros]: "keeps m \<Longrightarrow> (\<And>x. keeps (f x)) \<Longrightarrow> keeps (bindS m f)"
  by (fastforce simp: keeps_def bindS_def split: prod.splits sum.splits)

lemma keeps_catchS [keeps_intros]: "keeps m \<Longrightarrow> (\<And>e. keeps (h e)) \<Longrightarrow> keeps (catchS m h)"
  by (fastforce simp: keeps_def catchS_def split: prod.splits sum.splits)

lemma keeps_eachS [keeps_intros]: "(\<And>x. x \<in> set xs \<Longrightarrow> keeps (f x)) \<Longrightarrow> keeps (eachS f xs)"
  by (induction xs) (auto intro!: keeps_intros)

lemma keeps_if [keeps_intros]: "(b \<Longrightarrow> keeps m) \<Longrightarrow> (\<not> b \<Longrightarrow> keeps n) \<Longrightarrow> keeps (if b then m else n)"
  by simp

lemma keeps_prod [keeps_intros]: "(\<And>a b. p = (a, b) \<Longrightarrow> keeps (f a b)) \<Longrightarrow> keeps (case p of (a, b) \<Rightarrow> f a b)"
  by (cases p) simp

lemma keeps_option [keeps_intros]:
  "(x = None \<Longrightarrow> keeps n) \<Longrightarrow> (\<And>y. x = Some y \<Longrightarrow> keeps (f y)) \<Longrightarrow> keeps (case x of None \<Rightarrow> n | Some y \<Rightarrow> f y)"
  by (cases x) simp_all

text \<open>The same for code that spells the world out.\<close>

lemma keeps_world [keeps_intros]: "keeps (\<lambda>w. (r w, w))"
  by (auto simp: keeps_def)

lemma keeps_reads: "(\<And>x. keeps (f x)) \<Longrightarrow> keeps (\<lambda>w. f (g w) w)"
  by (simp add: keeps_def)

lemma keeps_case [keeps_intros]:
  "keeps m \<Longrightarrow> (\<And>r. keeps (f r)) \<Longrightarrow> keeps (\<lambda>w. case m w of (r, u) \<Rightarrow> f r u)"
  by (fastforce simp: keeps_def split: prod.splits)

lemma keeps_branch [keeps_intros]:
  "(\<And>e. keeps (f e)) \<Longrightarrow> (\<And>x. keeps (g x)) \<Longrightarrow> keeps (\<lambda>w. case q w of Inl e \<Rightarrow> f e w | Inr x \<Rightarrow> g x w)"
  "(\<And>a b. keeps (h a b)) \<Longrightarrow> keeps (\<lambda>w. case c w of (a, b) \<Rightarrow> h a b w)"
  "keeps m \<Longrightarrow> keeps n \<Longrightarrow> keeps (\<lambda>w. if b w then m w else n w)"
  "keeps m \<Longrightarrow> keeps n \<Longrightarrow> keeps (\<lambda>w. case b w of True \<Rightarrow> m w | False \<Rightarrow> n w)"
  "keeps m \<Longrightarrow> (\<And>x. keeps (f' x)) \<Longrightarrow> keeps (\<lambda>w. case v w of None \<Rightarrow> m w | Some x \<Rightarrow> f' x w)"
  by (auto simp: keeps_def split: sum.splits prod.splits bool.splits option.splits)

text \<open>A descriptor that is closed in the end.\<close>

lemma fds_close_fd [simp]: "fds (close_fd fd w) = filter (\<lambda>n. n \<noteq> fd) (fds w)"
proof -
  have "map fst (filter (\<lambda>(n, _). n \<noteq> fd) xs) = filter (\<lambda>n. n \<noteq> fd) (map fst xs)" for xs :: "(nat \<times> ino \<times> nat) list"
    by (induction xs) auto
  then show ?thesis by (simp add: fds_def close_fd_def)
qed

lemma filter_neq_id [simp]: "fd \<notin> set ks \<Longrightarrow> filter (\<lambda>n. n \<noteq> fd) ks = ks"
  by (auto intro: filter_True)

definition closes :: "nat \<Rightarrow> 'a io \<Rightarrow> bool" where
  "closes fd m \<longleftrightarrow> (\<forall>w ks r w'. fds w = fd # ks \<longrightarrow> fd \<notin> set ks \<longrightarrow> m w = (r, w') \<longrightarrow> fds w' = ks)"

lemma closesD: "closes fd m \<Longrightarrow> fds w = fd # ks \<Longrightarrow> fd \<notin> set ks \<Longrightarrow> m w = (r, w') \<Longrightarrow> fds w' = ks"
  unfolding closes_def by blast

lemma closes_finally:
  assumes "keeps m"
  shows "closes fd (finallyS m (close_fd fd))"
  unfolding closes_def
proof (intro allI impI)
  fix w ks r w'
  assume w: "fds w = fd # ks" "fd \<notin> set ks" and run: "finallyS m (close_fd fd) w = (r, w')"
  obtain q u where m: "m w = (q, u)" by fastforce
  with keepsD [OF assms m] w run show "fds w' = ks" by (auto simp: finallyS_def)
qed

lemma keeps_closing:
  assumes "opens m" and "\<And>fd. closes fd (f fd)"
  shows "keeps (bindS m f)"
proof (rule keepsI)
  fix w r w'
  assume run: "bindS m f w = (r, w')"
  obtain q u where m: "m w = (q, u)" by fastforce
  show "fds w' = fds w"
  proof (cases q)
    case (Inl e)
    with m run opensD(1) [OF assms(1)] show ?thesis by (auto simp: bindS_def)
  next
    case (Inr fd)
    with m run have "f fd u = (r, w')" by (simp add: bindS_def)
    moreover have "fds u = fd # fds w" "fd \<notin> set (fds w)" using opensD(2) [OF assms(1)] m Inr by auto
    ultimately show ?thesis using closesD [OF assms(2)] by blast
  qed
qed

lemma keeps_finally [keeps_intros]:
  "opens m \<Longrightarrow> (\<And>fd. keeps (f fd)) \<Longrightarrow> keeps (bindS m (\<lambda>fd. finallyS (f fd) (close_fd fd)))"
  by (rule keeps_closing) (simp_all add: closes_finally)

lemma free_fd_fresh: "free_fd w \<notin> set (fds w)"
proof -
  have "\<exists>n \<in> set [0 ..< Suc (length (w_fds w))]. n \<notin> set (fds w)"
  proof (rule ccontr)
    assume "\<not> ?thesis"
    then have "set [0 ..< Suc (length (w_fds w))] \<subseteq> set (fds w)" by blast
    then have "card (set [0 ..< Suc (length (w_fds w))]) \<le> card (set (fds w))" by (rule card_mono [rotated]) simp
    also have "\<dots> \<le> length (w_fds w)" using card_length [of "fds w"] by (simp add: fds_def)
    finally show False by simp
  qed
  then have "filter (\<lambda>n. n \<notin> set (fds w)) [0 ..< Suc (length (w_fds w))] \<noteq> []" by (auto simp: filter_empty_conv)
  from hd_in_set [OF this] show ?thesis unfolding free_fd_def fds_def [symmetric] by (simp del: upt_Suc)
qed

lemma fds_fs [simp]: "fds (w\<lparr>w_fs := fs\<rparr>) = fds w" "fds (w\<lparr>w_io := io\<rparr>) = fds w" "fds (w\<lparr>w_checks := c\<rparr>) = fds w"
  by (simp_all add: fds_def)

lemma opened_open_fd [simp]: "opened (fds w) (open_fd i w)"
  using free_fd_fresh [of w] by (simp add: open_fd_def fds_def)

lemma opened_make_file [simp]: "opened (fds w) (make_file d name w)"
  using opened_open_fd [of "w\<lparr>w_fs := fs\<rparr>" for fs] by (simp add: make_file_def split: prod.split)

lemma opens_calls:
  "opens (open_fd i)" "opens (os_open p creating)" "opens (os_open_at dir name creating)" "opens (os_open_dir_at dir name)"
  by (auto simp: opens_def os_open_def os_open_at_def os_open_dir_at_def split: sum.split place.split option.split)

lemma transfer_frame: "transfer n w = (k, w') \<Longrightarrow> w_fds w' = w_fds w \<and> w_fs w' = w_fs w \<and> w_checks w' = w_checks w"
  by (auto simp: transfer_def split: list.splits option.splits)

lemma fds_seek_fd [simp]: "fds (seek_fd fd off w) = fds w"
  by (simp add: fds_def seek_fd_def comp_def case_prod_beta)

lemma keeps_transfers [keeps_intros]: "keeps (read_fd fd n)" "keeps (write_fd fd bs)" "keeps (truncate_fd fd)" "keeps (os_mkdir_at dir name)"
  by (auto simp: keeps_def read_fd_def write_fd_def truncate_fd_def os_mkdir_at_def Let_def split: prod.splits if_splits option.splits
      dest!: transfer_frame) (simp_all add: fds_def)

end
