(* ===== verification/OrdinaryFiles.thy ===== *)
theory OrdinaryFiles
  imports PosixFs
begin

text \<open>
  The file backend of \<open>ordinary_uid_files.py\<close> for an owner without a sandbox policy: paths from file URIs,
  the validation of the context, the operations with and without following links, the bounded walk, the
  table of read handles and the request handler with cancellation.  \<open>text\<close> is the wording of library
  exceptions.
\<close>

section \<open>Paths and contexts\<close>

definition MAX_READ_FILE_BYTES :: nat where "MAX_READ_FILE_BYTES = 512 * 1024 * 1024"
definition MAX_HANDLES :: nat where "MAX_HANDLES = 128"

definition STREAM_LIFECYCLE :: "pystr list" where
  "STREAM_LIFECYCLE = map lit [''fs/readBlock'', ''fs/close'']"

abbreviation invalid :: "pystr \<Rightarrow> exn" where
  "invalid m \<equiv> RpcError (-32602) m None"

text \<open>\<open>^/[A-Za-z][:|](?:/|$)\<close>, where \<open>$\<close> also matches before a final newline.\<close>

definition windows_drive :: "pybytes \<Rightarrow> bool" where
  "windows_drive bs =
     (case bs of
        s # l # c # r \<Rightarrow> s = 47 \<and> is_alpha l \<and> c \<in> {58, 124} \<and> (r = [] \<or> r = [10] \<or> take 1 r = [47])
      | _ \<Rightarrow> False)"

definition native_path :: "(exn \<Rightarrow> pystr) \<Rightarrow> json \<Rightarrow> exn + posix_path" where
  "native_path text uri =
     (if \<not> is_str uri then Inl (invalid (lit ''Expected a native file URI''))
      else case urlsplit (str_of uri) of
          None \<Rightarrow> Inl (invalid (text (ValueError (str_of uri))))
        | Some parsed \<Rightarrow>
            if scheme parsed \<noteq> lit ''file'' \<or> query parsed \<noteq> [] \<or> fragment parsed \<noteq> [] \<or> netloc parsed \<notin> {[], lit ''localhost''}
            then Inl (invalid (lit ''Expected a local absolute file URI''))
            else (case unquote_to_bytes (path parsed) of
                Inl e \<Rightarrow> Inl (invalid (text e))
              | Inr decoded \<Rightarrow>
                  if 0 \<in> set decoded then Inl (invalid (lit ''Expected an absolute native path without NUL''))
                  else if windows_drive decoded then Inl (invalid (lit ''Windows file URI cannot name a native POSIX path''))
                  else if take 1 decoded \<noteq> [47] then Inl (invalid (lit ''Expected an absolute native path without NUL''))
                  else Inr (path_of decoded)))"

definition CONTEXT_FIELDS :: "pystr list" where
  "CONTEXT_FIELDS = map lit [''permissions'', ''cwd'', ''workspaceRoots'', ''userHomeDir'', ''temporaryDirectories'',
     ''windowsSandboxLevel'', ''windowsSandboxPrivateDesktop'', ''windowsSandboxProxySettingsMode'', ''useLegacyLandlock'']"

definition context_flag :: "dict \<Rightarrow> string \<Rightarrow> exn + unit" where
  "context_flag d name = raiseIf (has_key d (lit name) \<and> \<not> is_bool (dget d (lit name))) (invalid (lit name @ lit '' must be a boolean''))"

definition context_path :: "(exn \<Rightarrow> pystr) \<Rightarrow> dict \<Rightarrow> string \<Rightarrow> exn + unit" where
  "context_path text d name =
     (if dget d (lit name) = JNull then Inr () else bindE (native_path text (dget d (lit name))) (\<lambda>_. Inr ()))"

definition context_paths :: "(exn \<Rightarrow> pystr) \<Rightarrow> dict \<Rightarrow> string \<Rightarrow> exn + unit" where
  "context_paths text d name =
     (if \<not> has_key d (lit name) \<or> name = ''temporaryDirectories'' \<and> dget d (lit name) = JNull then Inr ()
      else if \<not> is_arr (dget d (lit name)) then Inl (invalid (lit name @ lit '' must be an array of native file URIs''))
      else eachE (\<lambda>uri. bindE (native_path text uri) (\<lambda>_. Inr ())) (arr_of (dget d (lit name))))"

definition ordinary_mode :: pystr where "ordinary_mode = lit ''ordinary-uid''"

definition validate_ordinary_filesystem_context :: "(exn \<Rightarrow> pystr) \<Rightarrow> json \<Rightarrow> exn + pystr" where
  "validate_ordinary_filesystem_context text context =
     (if context = JNull then Inr ordinary_mode
      else let d = obj_of context in
        if \<not> is_obj context \<or> \<not> set (dkeys d) \<subseteq> set CONTEXT_FIELDS \<or> \<not> {lit ''permissions'', lit ''windowsSandboxLevel''} \<subseteq> set (dkeys d)
        then Inl (invalid (lit ''Invalid complete filesystem sandbox context''))
        else if dget d (lit ''permissions'') \<noteq> JObj [(lit ''type'', jlit ''disabled'')]
        then Inl (invalid (lit ''Ordinary UID filesystem requires absent context or explicit Disabled permissions''))
        else if dget d (lit ''windowsSandboxLevel'') \<notin> {jlit ''disabled'', jlit ''restricted-token'', jlit ''elevated''}
        then Inl (invalid (lit ''Invalid Windows sandbox level''))
        else seqE (context_flag d ''windowsSandboxPrivateDesktop'') (seqE (context_flag d ''useLegacyLandlock'')
          (seqE (raiseIf (dget d (lit ''windowsSandboxProxySettingsMode'') \<notin> {JNull, jlit ''reconcile'', jlit ''preserve''})
                   (invalid (lit ''Invalid Windows sandbox proxy preference'')))
          (seqE (context_path text d ''cwd'') (seqE (context_path text d ''userHomeDir'')
          (seqE (context_paths text d ''workspaceRoots'') (seqE (context_paths text d ''temporaryDirectories'')
            (Inr ordinary_mode))))))))"

text \<open>\<open>_rpc_io\<close>; \<open>OverflowError\<close>, treated as \<open>ValueError\<close> by it, is one of those here.\<close>

definition rpc_io :: "(exn \<Rightarrow> pystr) \<Rightarrow> exn \<Rightarrow> exn" where
  "rpc_io text e =
     RpcError (case e of
         FileNotFoundError _ \<Rightarrow> -32004
       | PermissionError _ \<Rightarrow> -32600
       | OSError n _ \<Rightarrow> if n = EINVAL then -32600 else -32603
       | _ \<Rightarrow> if is_value_error e then -32600 else -32603) (text e) None"

section \<open>Operations\<close>

definition check :: "unit io" where
  "check w =
     (case w_checks w of
        None \<Rightarrow> (Inr (), w)
      | Some 0 \<Rightarrow> (Inl (OSError 4 (lit ''Filesystem operation cancelled'')), w)
      | Some (Suc n) \<Rightarrow> (Inr (), w\<lparr>w_checks := Some n\<rparr>))"

definition path_parts :: "posix_path \<Rightarrow> exn + fname list" where
  "path_parts p =
     (if list_ex (\<lambda>c. c = [46] \<or> c = [46, 46]) (comps p)
      then Inl (ValueError (lit ''No-follow filesystem requires a normalized absolute path'')) else Inr (comps p))"

text \<open>From an open directory to the one below it: the old descriptor is closed, also when the next open fails.\<close>

fun descend :: "nat \<Rightarrow> fname list \<Rightarrow> nat io" where
  "descend fd [] = retS fd"
| "descend fd (c # cs) =
     bindS (catchS (os_open_dir_at fd c) (\<lambda>e w. (Inl e, close_fd fd w))) (\<lambda>child.
     bindS (modifyS (close_fd fd)) (\<lambda>_. descend child cs))"

definition with_parent :: "posix_path \<Rightarrow> (nat \<Rightarrow> fname \<Rightarrow> 'a io) \<Rightarrow> 'a io" where
  "with_parent p body =
     bindS (liftS (path_parts p)) (\<lambda>parts.
       if parts = [] then raiseS (ValueError (lit ''Path must name an entry''))
       else bindS (open_fd 0) (\<lambda>fd.
            bindS (descend fd (butlast parts)) (\<lambda>fd.
            finallyS (body fd (last parts)) (close_fd fd))))"

definition open_file :: "posix_path \<Rightarrow> bool \<Rightarrow> bool \<Rightarrow> nat io" where
  "open_file p creating follow =
     (if follow then os_open p creating else with_parent p (\<lambda>parent leaf. os_open_at parent leaf creating))"

definition open_read :: "posix_path \<Rightarrow> bool \<Rightarrow> nat io" where
  "open_read p follow =
     bindS (open_file p False follow) (\<lambda>fd w.
       if is_file_at (w_fs w) (fd_ino w fd) then (Inr fd, w)
       else (Inl (ValueError (lit ''Path is not a regular file'')), close_fd fd w))"

definition stat_path :: "posix_path \<Rightarrow> bool \<Rightarrow> (ino \<times> bool) io" where
  "stat_path p follow =
     (if follow then
        fs_ask (\<lambda>fs. bindE (find_inode fs False p) (\<lambda>i.
          if is_link_at fs i then bindE (find_inode fs True p) (\<lambda>j. Inr (j, True)) else Inr (i, False)))
      else bindS (liftS (path_parts p)) (\<lambda>parts.
        if parts = [] then bindS (open_fd 0) (\<lambda>fd. finallyS (getS (\<lambda>w. (fd_ino w fd, False))) (close_fd fd))
        else with_parent p (\<lambda>parent leaf w.
          (case map_of (entries_at (w_fs w) (fd_ino w parent)) leaf of
             None \<Rightarrow> (Inl ENOENT_error, w)
           | Some i \<Rightarrow>
               if is_link_at (w_fs w) i then (Inl (ValueError (lit ''Path contains a symbolic link'')), w)
               else (Inr (i, False), w)))))"

definition inode_size :: "inode \<Rightarrow> nat" where
  "inode_size n = (case content n of Data bs \<Rightarrow> length bs | Target t \<Rightarrow> length t | _ \<Rightarrow> alloc n)"

text \<open>\<open>st_birthtime_ns\<close> is no attribute of \<open>stat_result\<close> on Linux.\<close>

definition metadata_path :: "posix_path \<Rightarrow> bool \<Rightarrow> json io" where
  "metadata_path p follow =
     bindS (stat_path p follow) (\<lambda>(i, link) w. (Inr (JObj
       [(lit ''isDirectory'', JBool (is_dir_at (w_fs w) i)), (lit ''isFile'', JBool (is_file_at (w_fs w) i)),
        (lit ''isSymlink'', JBool link), (lit ''size'', JInt (int (inode_size (node_at (w_fs w) i)))),
        (lit ''createdAtMs'', JInt 0), (lit ''modifiedAtMs'', JInt (mtime (node_at (w_fs w) i) div 1000000))]), w))"

text \<open>The loop of \<open>_mkdir\<close> without following links: a missing directory is made, then opened.\<close>

definition ignore_exists :: "unit io \<Rightarrow> unit io" where
  "ignore_exists m = catchS m (\<lambda>e. case e of FileExistsError _ \<Rightarrow> retS () | _ \<Rightarrow> raiseS e)"

definition enter_dir :: "bool \<Rightarrow> nat \<Rightarrow> fname \<Rightarrow> nat io" where
  "enter_dir recursive fd c =
     catchS (os_open_dir_at fd c) (\<lambda>e.
       if \<not> is_missing e \<or> \<not> recursive then raiseS e
       else bindS (ignore_exists (os_mkdir_at fd c)) (\<lambda>_. os_open_dir_at fd c))"

fun mkdir_loop :: "bool \<Rightarrow> nat \<Rightarrow> fname list \<Rightarrow> unit io" where
  "mkdir_loop recursive fd [] = modifyS (close_fd fd)"
| "mkdir_loop recursive fd (c # cs) =
     bindS (catchS check (\<lambda>e w. (Inl e, close_fd fd w))) (\<lambda>_.
       if \<not> recursive \<and> cs = [] then finallyS (os_mkdir_at fd c) (close_fd fd)
       else bindS (catchS (enter_dir recursive fd c) (\<lambda>e w. (Inl e, close_fd fd w))) (\<lambda>child.
            bindS (modifyS (close_fd fd)) (\<lambda>_. mkdir_loop recursive child cs)))"

definition mkdir_path :: "posix_path \<Rightarrow> bool \<Rightarrow> bool \<Rightarrow> unit io" where
  "mkdir_path p recursive follow =
     (if follow then
        bindS check (\<lambda>_. fs_do (case p of PosixPath d cs \<Rightarrow> path_mkdir d recursive recursive cs))
      else bindS (liftS (path_parts p)) (\<lambda>parts.
        if parts = [] \<and> \<not> recursive then raiseS (FileExistsError (lit ''Directory already exists''))
        else bindS (open_fd 0) (\<lambda>fd. mkdir_loop recursive fd parts)))"

text \<open>\<open>_names\<close>: entries whose target cannot be reached are left out.\<close>

fun names_loop :: "ino list \<Rightarrow> (fname \<times> ino) list \<Rightarrow> (pystr \<times> ino) list \<Rightarrow> (pystr \<times> ino) list io" where
  "names_loop st [] acc = retS acc"
| "names_loop st ((name, _) # es) acc =
     bindS check (\<lambda>_. bindS (getS (\<lambda>w. locate (w_fs w) True MAXSYMLINKS st [name])) (\<lambda>r.
       names_loop st es (case r of Inr (At st') \<Rightarrow> acc @ [(utf8_replace name, hd st')] | _ \<Rightarrow> acc)))"

definition names :: "posix_path \<Rightarrow> (pystr \<times> ino) list io" where
  "names p =
     bindS (fs_ask (\<lambda>fs. bindE (find_path fs True p) (\<lambda>pl. case pl of
         Absent _ _ \<Rightarrow> Inl ENOENT_error
       | At st \<Rightarrow> if is_dir_at fs (hd st) then Inr (st, entries_at fs (hd st)) else Inl ENOTDIR_error))) (\<lambda>(st, es).
     names_loop st es [])"


section \<open>The walk\<close>

definition WALK_FIELDS :: "pystr list" where
  "WALK_FIELDS = map lit [''maxDepth'', ''maxDirectories'', ''maxEntries'', ''followDirectorySymlinks'', ''pruneHiddenDirectories'']"

record ordinary_walk =
  ow_depth :: nat
  ow_directories :: nat
  ow_entries :: nat
  ow_follow :: bool
  ow_prune :: bool

definition walk_limit :: "dict \<Rightarrow> string \<Rightarrow> int \<Rightarrow> int \<Rightarrow> exn + nat" where
  "walk_limit d name least greatest =
     (if is_int (dget d (lit name)) \<and> least \<le> int_of (dget d (lit name)) \<and> int_of (dget d (lit name)) \<le> greatest
      then Inr (nat (int_of (dget d (lit name))))
      else Inl (invalid (lit ''Invalid official filesystem walk limit: '' @ lit name)))"

definition ordinary_walk_options :: "json \<Rightarrow> exn + ordinary_walk" where
  "ordinary_walk_options options =
     (let d = obj_of options in
      if \<not> is_obj options \<or> \<not> set (dkeys d) \<subseteq> set WALK_FIELDS \<or> \<not> set WALK_FIELDS - {lit ''pruneHiddenDirectories''} \<subseteq> set (dkeys d)
      then Inl (invalid (lit ''Invalid filesystem walk options''))
      else bindE (walk_limit d ''maxDepth'' 0 64) (\<lambda>depth.
           bindE (walk_limit d ''maxDirectories'' 1 10000) (\<lambda>directories.
           bindE (walk_limit d ''maxEntries'' 1 50000) (\<lambda>entries.
           seqE (context_flag d ''followDirectorySymlinks'') (seqE (context_flag d ''pruneHiddenDirectories'')
             (Inr \<lparr>ow_depth = depth, ow_directories = directories, ow_entries = entries,
                   ow_follow = bool_of (dget d (lit ''followDirectorySymlinks'')),
                   ow_prune = (dget d (lit ''pruneHiddenDirectories'') = JBool True)\<rparr>))))))"

text \<open>The outcome and the variables of the loop; \<open>ws_room\<close> is \<open>maxDirectories - directories\<close>.\<close>

record walk_state =
  ws_entries :: "json list"
  ws_errors :: "json list"
  ws_truncated :: bool
  ws_count :: nat
  ws_size :: nat
  ws_room :: nat
  ws_visited :: "posix_path list"
  ws_queue :: "(posix_path \<times> nat) list"

definition walk_outcome :: "walk_state \<Rightarrow> json" where
  "walk_outcome s = JObj [(lit ''entries'', JArr (ws_entries s)), (lit ''errors'', JArr (ws_errors s)), (lit ''truncated'', JBool (ws_truncated s))]"

text \<open>\<open>append\<close>: the flag says whether the value still fitted.\<close>

definition WALK_BYTES :: nat where "WALK_BYTES = 4 * 1024 * 1024"

definition grow :: "nat \<Rightarrow> walk_state \<Rightarrow> bool \<times> walk_state" where
  "grow n s =
     (let s = s\<lparr>ws_size := ws_size s + 64 + n\<rparr> in
      if WALK_BYTES < ws_size s then (False, s\<lparr>ws_truncated := True\<rparr>) else (True, s))"

definition append_entry :: "posix_path \<Rightarrow> bool \<Rightarrow> walk_state \<Rightarrow> bool \<times> walk_state" where
  "append_entry p dir s =
     (case grow (length (as_uri p)) s of
        (False, s) \<Rightarrow> (False, s)
      | (True, s) \<Rightarrow> (True, s\<lparr>ws_entries := ws_entries s @
          [JObj [(lit ''path'', JStr (as_uri p)), (lit ''kind'', if dir then jlit ''directory'' else jlit ''file'')]]\<rparr>))"

definition append_error :: "(exn \<Rightarrow> pystr) \<Rightarrow> posix_path \<Rightarrow> exn \<Rightarrow> walk_state \<Rightarrow> exn + bool \<times> walk_state" where
  "append_error text p e s =
     bindE (encodeE (text e)) (\<lambda>bs.
       Inr (case grow (length (as_uri p) + length bs) s of
          (False, s) \<Rightarrow> (False, s)
        | (True, s) \<Rightarrow> (True, s\<lparr>ws_errors := ws_errors s @ [JObj [(lit ''path'', JStr (as_uri p)), (lit ''message'', JStr (text e))]]\<rparr>)))"

text \<open>One name of a directory; the flag says whether the loop goes on.\<close>

definition enter_directory :: "ordinary_walk \<Rightarrow> nat \<Rightarrow> posix_path \<Rightarrow> posix_path \<Rightarrow> walk_state \<Rightarrow> walk_state" where
  "enter_directory opts depth child identity s =
     (if identity \<in> set (ws_visited s) then s
      else let s = s\<lparr>ws_visited := ws_visited s @ [identity]\<rparr> in
        if ws_room s = 0 then s\<lparr>ws_truncated := True\<rparr>
        else s\<lparr>ws_room := ws_room s - 1, ws_queue := ws_queue s @ [(child, depth + 1)]\<rparr>)"

definition walk_name :: "(exn \<Rightarrow> pystr) \<Rightarrow> ordinary_walk \<Rightarrow> posix_path \<Rightarrow> nat \<Rightarrow> pystr \<Rightarrow> walk_state \<Rightarrow> (bool \<times> walk_state) io" where
  "walk_name text opts directory depth name s =
     bindS check (\<lambda>_.
       if ws_count s = ow_entries opts then retS (False, s\<lparr>ws_truncated := True\<rparr>)
       else bindS (liftS (encodeE name)) (\<lambda>fname.
         let s = s\<lparr>ws_count := ws_count s + 1\<rparr>; child = join_path directory fname in
         (\<lambda>w. case stat_path child True w of
            (Inl e, w) \<Rightarrow> if is_os_error e then (append_error text child e s, w) else (Inl e, w)
          | (Inr (i, link), w) \<Rightarrow>
              let dir = is_dir_at (w_fs w) i in
              if link \<and> (\<not> ow_follow opts \<or> \<not> dir) \<or> \<not> (dir \<or> is_file_at (w_fs w) i) then (Inr (True, s), w)
              else (case append_entry child dir s of
                  (False, s) \<Rightarrow> (Inr (False, s), w)
                | (True, s) \<Rightarrow>
                    if dir \<and> depth < ow_depth opts \<and> \<not> (ow_prune opts \<and> take 1 name = [46]) then
                      (case (if ow_follow opts then resolve_path (w_fs w) True child else Inr child) of
                         Inl e \<Rightarrow> if is_os_error e then (append_error text child e s, w) else (Inl e, w)
                       | Inr identity \<Rightarrow> (Inr (True, enter_directory opts depth child identity s), w))
                    else (Inr (True, s), w)))))"

fun walk_names :: "(exn \<Rightarrow> pystr) \<Rightarrow> ordinary_walk \<Rightarrow> posix_path \<Rightarrow> nat \<Rightarrow> pystr list \<Rightarrow> walk_state \<Rightarrow> (bool \<times> walk_state) io" where
  "walk_names text opts directory depth [] s = retS (True, s)"
| "walk_names text opts directory depth (name # ns) s =
     bindS (walk_name text opts directory depth name s) (\<lambda>(go, s).
       if go then walk_names text opts directory depth ns s else retS (False, s))"

definition walk_directory :: "(exn \<Rightarrow> pystr) \<Rightarrow> ordinary_walk \<Rightarrow> posix_path \<times> nat \<Rightarrow> walk_state \<Rightarrow> (bool \<times> walk_state) io" where
  "walk_directory text opts = (\<lambda>(directory, depth) s.
     bindS check (\<lambda>_ w.
       case names directory w of
         (Inl e, w) \<Rightarrow> if is_os_error e then (append_error text directory e s, w) else (Inl e, w)
       | (Inr ns, w) \<Rightarrow> walk_names text opts directory depth (sort (map fst ns)) s w))"

lemma grow_frame: "grow n s = (b, t) \<Longrightarrow> ws_room t = ws_room s \<and> ws_queue t = ws_queue s"
  by (auto simp: grow_def Let_def split: if_splits)

lemma append_entry_frame: "append_entry p dir s = (b, t) \<Longrightarrow> ws_room t = ws_room s \<and> ws_queue t = ws_queue s"
  using grow_frame by (cases "grow (length (as_uri p)) s") (fastforce simp: append_entry_def split: bool.splits)

lemma append_error_frame:
  assumes "append_error text p e s = Inr (b, t)"
  shows "ws_room t = ws_room s \<and> ws_queue t = ws_queue s"
proof -
  obtain bs where bs: "encodeE (text e) = Inr bs"
    using assms by (auto simp: append_error_def bindE_Inr_iff)
  obtain c u where g: "grow (length (as_uri p) + length bs) s = (c, u)" by fastforce
  with grow_frame [OF g] bs assms show ?thesis
    by (auto simp: append_error_def split: bool.splits)
qed

lemmas append_frame = append_entry_frame append_error_frame

definition walk_work :: "walk_state \<Rightarrow> nat" where
  "walk_work s = ws_room s + length (ws_queue s)"

lemma walk_name_measure:
  assumes "walk_name text opts directory depth name s w = (Inr (b, t), w')"
  shows "walk_work t \<le> walk_work s"
  using assms
  by (auto simp: walk_name_def bindS_def retS_def liftS_def Let_def walk_work_def enter_directory_def
      split: prod.splits sum.splits if_splits bool.splits dest!: append_frame)

lemma walk_names_measure:
  "walk_names text opts directory depth ns s w = (Inr (b, t), w') \<Longrightarrow> walk_work t \<le> walk_work s"
proof (induction ns arbitrary: s w)
  case (Cons n ns)
  then show ?case
    by (fastforce simp: bindS_def retS_def split: prod.splits sum.splits if_splits dest!: walk_name_measure)
qed (simp add: retS_def)

lemma walk_directory_measure:
  "walk_directory text opts d s w = (Inr (b, t), w') \<Longrightarrow> walk_work t \<le> walk_work s"
  by (cases d) (auto simp: walk_directory_def bindS_def walk_work_def
      split: prod.splits sum.splits if_splits dest!: append_frame walk_names_measure)


text \<open>The loop over the queue: every directory it adds uses up room.\<close>

function walk_queue :: "(exn \<Rightarrow> pystr) \<Rightarrow> ordinary_walk \<Rightarrow> walk_state \<Rightarrow> walk_state io" where
  "walk_queue text opts s w =
     (case ws_queue s of
        [] \<Rightarrow> (Inr s, w)
      | d # q \<Rightarrow>
          (case walk_directory text opts d (s\<lparr>ws_queue := q\<rparr>) w of
             (Inl e, w) \<Rightarrow> (Inl e, w)
           | (Inr (go, s), w) \<Rightarrow> if go then walk_queue text opts s w else (Inr s, w)))"
  by pat_completeness auto

termination walk_queue
proof (relation "measure (\<lambda>(text, opts, s, w). walk_work s)", goal_cases)
  case (2 wording opts s w d q y t u v s')
  then have "walk_directory wording opts d (s\<lparr>ws_queue := q\<rparr>) w = (Inr (v, s'), t)" by simp
  from walk_directory_measure [OF this] 2(1) show ?case by (simp add: walk_work_def)
qed simp

declare walk_queue.simps [simp del]

text \<open>The state before the first directory.\<close>

definition walk_start :: "ordinary_walk \<Rightarrow> walk_state" where
  "walk_start opts =
     \<lparr>ws_entries = [], ws_errors = [], ws_truncated = False, ws_count = 0, ws_size = 0,
      ws_room = ow_directories opts - 1, ws_visited = [], ws_queue = []\<rparr>"

definition walk_from :: "ordinary_walk \<Rightarrow> posix_path \<Rightarrow> posix_path \<Rightarrow> walk_state" where
  "walk_from opts p identity = (walk_start opts)\<lparr>ws_visited := [identity], ws_queue := [(p, 0)]\<rparr>"

definition walk_path :: "(exn \<Rightarrow> pystr) \<Rightarrow> posix_path \<Rightarrow> json \<Rightarrow> json io" where
  "walk_path text p options =
     bindS (liftS (ordinary_walk_options options)) (\<lambda>opts.
     bindS (stat_path p True) (\<lambda>(i, link) w.
       let s = walk_start opts in
       if \<not> is_dir_at (w_fs w) i \<or> link \<and> \<not> ow_follow opts then (Inr (walk_outcome s), w)
       else (case (if ow_follow opts then resolve_path (w_fs w) True p else Inr p) of
           Inl e \<Rightarrow> (Inl e, w)
         | Inr identity \<Rightarrow>
             (case walk_queue text opts (walk_from opts p identity) w of
                (Inl e, w) \<Rightarrow> (Inl e, w)
              | (Inr s, w) \<Rightarrow> (Inr (walk_outcome s), w)))))"

section \<open>Reading, writing, copying, removing\<close>

function write_view :: "nat \<Rightarrow> pybytes \<Rightarrow> unit io" where
  "write_view fd data w =
     (if data = [] then (Inr (), w)
      else case check w of
          (Inl e, w) \<Rightarrow> (Inl e, w)
        | (Inr _, w) \<Rightarrow>
            (case write_fd fd (take MAX_BLOCK data) w of
               (Inl e, w) \<Rightarrow> (Inl e, w)
             | (Inr written, w) \<Rightarrow>
                 if written = 0 then (Inl (OSError 5 (lit ''File write made no progress'')), w)
                 else write_view fd (drop written data) w))"
  by pat_completeness auto

termination write_view
  by (relation "measure (\<lambda>(fd, data, w). length data)") auto

declare write_view.simps [simp del]

text \<open>\<open>fs/readFile\<close>: the loop ends at the end of the file or beyond the admitted size.\<close>

function read_all :: "nat \<Rightarrow> pybytes \<Rightarrow> pybytes io" where
  "read_all fd acc w =
     (case check w of
        (Inl e, w) \<Rightarrow> (Inl e, w)
      | (Inr _, w) \<Rightarrow>
          (case read_fd fd (min MAX_BLOCK (MAX_READ_FILE_BYTES + 1 - length acc)) w of
             (Inl e, w) \<Rightarrow> (Inl e, w)
           | (Inr chunk, w) \<Rightarrow>
               if chunk = [] then (Inr acc, w)
               else if MAX_READ_FILE_BYTES < length (acc @ chunk)
               then (Inl (ValueError (lit ''File exceeds the upstream 512 MiB read limit'')), w)
               else read_all fd (acc @ chunk) w))"
  by pat_completeness auto

termination read_all
proof (relation "measure (\<lambda>(fd, acc, w). Suc MAX_READ_FILE_BYTES - length acc)", goal_cases)
  case (2 fd acc w r w1 u r2 w2 chunk)
  then have "length acc + length chunk \<le> MAX_READ_FILE_BYTES" "0 < length chunk" by auto
  then show ?case by (simp only: in_measure prod.case length_append)
qed simp

declare read_all.simps [simp del]

text \<open>\<open>fs/readBlock\<close>: short and interrupted reads are repeated.\<close>

function read_at :: "nat \<Rightarrow> nat \<Rightarrow> nat \<Rightarrow> pybytes \<Rightarrow> pybytes io" where
  "read_at fd offset len acc w =
     (if len \<le> length acc then (Inr acc, w)
      else case check w of
          (Inl e, w) \<Rightarrow> (Inl e, w)
        | (Inr _, w1) \<Rightarrow>
            if 2 ^ 64 \<le> offset + length acc then (Inl (ValueError (lit ''File read offset overflowed'')), w1)
            else if 2 ^ 63 \<le> offset + length acc then (Inl (ValueError (lit ''Python int too large to convert to C long'')), w1)
            else if take 1 (w_io w1) = [None] then read_at fd offset len acc (w1\<lparr>w_io := tl (w_io w1)\<rparr>)
            else (case transfer (len - length acc) w1 of (k, w2) \<Rightarrow>
              let chunk = take k (drop (offset + length acc) (data_at (w_fs w2) (fd_ino w2 fd))) in
              if chunk = [] then (Inr acc, w2) else read_at fd offset len (acc @ chunk) w2))"
  by pat_completeness auto

lemma check_io: "check w = (r, w') \<Longrightarrow> w_io w' = w_io w \<and> w_fs w' = w_fs w \<and> w_fds w' = w_fds w"
  by (auto simp: check_def split: option.splits nat.splits)

termination read_at
proof (relation "measures [\<lambda>(fd, offset, len, acc, w). len - length acc, \<lambda>(fd, offset, len, acc, w). length (w_io w)]", goal_cases)
  case (2 fd offset len acc w r w1 u)
  then have "w_io w1 = w_io w" "w_io w1 \<noteq> []" using check_io [of w "Inr u" w1] by auto
  then show ?case by (cases "w_io w") auto
next
  case (3 fd offset len acc w r w1 u k w2 chunk)
  then have "length acc < len" "0 < length chunk" by auto
  then show ?case by (simp only: in_measures prod.case length_append) linarith
qed simp

declare read_at.simps [simp del]


text \<open>
  The loop of \<open>_copy\<close> over the data.  Every round but the last moves at least one byte of the source, so
  one round more than it has bytes is enough.
\<close>

fun copy_data :: "nat \<Rightarrow> nat \<Rightarrow> nat \<Rightarrow> unit io" where
  "copy_data 0 source target = raiseS (RuntimeError (lit ''copy''))"
| "copy_data (Suc n) source target =
     bindS check (\<lambda>_. bindS (read_fd source MAX_BLOCK) (\<lambda>data.
       if data = [] then retS ()
       else bindS (write_view target data) (\<lambda>_. copy_data n source target)))"

definition set_perm :: "nat \<Rightarrow> nat \<Rightarrow> world \<Rightarrow> world" where
  "set_perm fd p w = w\<lparr>w_fs := put_node (fd_ino w fd) ((node_at (w_fs w) (fd_ino w fd))\<lparr>perm := p\<rparr>) (w_fs w)\<rparr>"

definition copy_file :: "posix_path \<Rightarrow> posix_path \<Rightarrow> unit io" where
  "copy_file source target =
     bindS (open_read source True) (\<lambda>rfd.
       finallyS
         (bindS (open_file target True True) (\<lambda>wfd.
            finallyS
              (bindS (getS (\<lambda>w. (fd_ino w rfd, fd_ino w wfd, node_at (w_fs w) (fd_ino w rfd)))) (\<lambda>(i, j, original).
                 if i = j then raiseS (ValueError (lit ''fs/copy source and destination refer to the same file''))
                 else bindS (truncate_fd wfd) (\<lambda>_.
                      bindS (\<lambda>w. copy_data (Suc (length (data_at (w_fs w) i))) rfd wfd w) (\<lambda>_.
                      modifyS (set_perm wfd (perm original))))))
              (close_fd wfd)))
         (close_fd rfd))"

definition os_symlink :: "pybytes \<Rightarrow> posix_path \<Rightarrow> vfs \<Rightarrow> exn + vfs" where
  "os_symlink t p fs =
     bindE (find_path fs False p) (\<lambda>pl. case pl of
         At _ \<Rightarrow> Inl EEXIST_error
       | Absent st name \<Rightarrow> Inr (fst (create (hd st) name 511 (Target t) fs)))"

text \<open>\<open>_copy\<close>; the depth is Python's recursion limit.\<close>

fun copy_path :: "nat \<Rightarrow> posix_path \<Rightarrow> posix_path \<Rightarrow> bool \<Rightarrow> unit io" where
  "copy_path 0 source target recursive = raiseS (RuntimeError (lit ''maximum recursion depth exceeded''))"
| "copy_path (Suc n) source target recursive =
     bindS check (\<lambda>_. bindS (fs_ask (\<lambda>fs. find_inode fs False source)) (\<lambda>i.
     bindS (getS (\<lambda>w. content_at (w_fs w) i)) (\<lambda>c.
       case c of
         Target t \<Rightarrow> fs_do (os_symlink t target)
       | Data _ \<Rightarrow> copy_file source target
       | Opaque \<Rightarrow> raiseS (ValueError (lit ''fs/copy supports regular files, directories, and symlinks''))
       | Entries _ \<Rightarrow>
           if \<not> recursive then raiseS (ValueError (lit ''fs/copy requires recursive: true for a directory''))
           else bindS (fs_ask (\<lambda>fs. resolve_path fs True source)) (\<lambda>real_source.
                bindS (fs_ask (\<lambda>fs. resolve_path fs False target)) (\<lambda>real_target.
                if take (length (comps real_source)) (comps real_target) = comps real_source
                then raiseS (ValueError (lit ''fs/copy cannot copy a directory to itself or its descendants''))
                else bindS (fs_do (case target of PosixPath d cs \<Rightarrow> path_mkdir d True True cs)) (\<lambda>_.
                     bindS (getS (\<lambda>w. entries_at (w_fs w) i)) (\<lambda>found.
                     eachS (\<lambda>(name, j). bindS check (\<lambda>_. bindS (getS (\<lambda>w. content_at (w_fs w) j)) (\<lambda>c.
                         if c = Opaque then retS ()
                         else copy_path n (join_path source name) (join_path target name) True))) found)))))))"

definition RECURSION_LIMIT :: nat where "RECURSION_LIMIT = 1000"

text \<open>\<open>_remove\<close>; \<open>rmtree\<close> takes the whole tree below the name away.\<close>

definition os_rmtree :: "ino \<Rightarrow> fname \<Rightarrow> vfs \<Rightarrow> exn + vfs" where
  "os_rmtree d name fs = (if map_of (entries_at fs d) name = None then Inl ENOENT_error else Inr (del_entry d name fs))"

definition remove_leaf :: "nat \<Rightarrow> fname \<Rightarrow> unit io" where
  "remove_leaf parent leaf w =
     (case map_of (entries_at (w_fs w) (fd_ino w parent)) leaf of
        None \<Rightarrow> (Inl ENOENT_error, w)
      | Some i \<Rightarrow>
          if is_link_at (w_fs w) i then (Inl (ValueError (lit ''Path contains a symbolic link'')), w)
          else fs_do ((if is_dir_at (w_fs w) i then os_rmdir else os_unlink) (fd_ino w parent) leaf) w)"

definition remove_path :: "posix_path \<Rightarrow> bool \<Rightarrow> bool \<Rightarrow> bool \<Rightarrow> unit io" where
  "remove_path p recursive force follow =
     (let absent = (\<lambda>e. if is_missing e \<and> force then retS () else raiseS e) in
      bindS check (\<lambda>_.
        if \<not> follow then
          if recursive then raiseS (OSError 95 (lit ''Recursive no-follow removal is unsupported by upstream''))
          else catchS (with_parent p remove_leaf) absent
        else (\<lambda>w. case find_inode (w_fs w) False p of
            Inl e \<Rightarrow> absent e w
          | Inr i \<Rightarrow>
              fs_do (on_entry p (if is_dir_at (w_fs w) i then if recursive then os_rmtree else os_rmdir else os_unlink)) w)))"

section \<open>The backend\<close>

record OrdinaryReadHandle =
  oh_fd :: nat
  oh_session :: pystr
  oh_mode :: pystr

record OrdinaryUidFilesBackend =
  o_session :: "pystr option"
  o_closed :: bool
  o_handles :: "(pystr \<times> OrdinaryReadHandle) list"
  o_world :: world
  o_acquired :: "pystr option"

definition ordinary_uid_files_backend :: "nat \<Rightarrow> world \<Rightarrow> exn + OrdinaryUidFilesBackend" where
  "ordinary_uid_files_backend euid w =
     (if euid = 0 then Inl (ValueError (lit ''Ordinary UID filesystem must not run as root''))
      else Inr \<lparr>o_session = None, o_closed = False, o_handles = [], o_world = w, o_acquired = None\<rparr>)"

type_synonym 'a ordinary = "OrdinaryUidFilesBackend \<Rightarrow> (exn + 'a) \<times> OrdinaryUidFilesBackend"

definition bind_session :: "pystr \<Rightarrow> unit ordinary" where
  "bind_session session s =
     (if session = [] \<or> list_ex (\<lambda>c. c < 32) session then (Inl (invalid (lit ''Invalid executor session identity'')), s)
      else case o_session s of
          None \<Rightarrow> (Inr (), s\<lparr>o_session := Some session\<rparr>)
        | Some owner \<Rightarrow>
            if owner \<noteq> session then (Inl (rpc (-32000) ''Filesystem belongs to another executor session''), s) else (Inr (), s))"

definition drop_read :: "pystr \<Rightarrow> OrdinaryUidFilesBackend \<Rightarrow> OrdinaryUidFilesBackend" where
  "drop_read k s =
     (case map_of (o_handles s) k of
        None \<Rightarrow> s
      | Some h \<Rightarrow> s\<lparr>o_handles := filter (\<lambda>(k', _). k' \<noteq> k) (o_handles s), o_world := close_fd (oh_fd h) (o_world s)\<rparr>)"

definition onW :: "'a io \<Rightarrow> 'a ordinary" where
  "onW m s = (case m (o_world s) of (r, w) \<Rightarrow> (r, s\<lparr>o_world := w\<rparr>))"

definition open_ordinary :: "(exn \<Rightarrow> pystr) \<Rightarrow> dict \<Rightarrow> pystr \<Rightarrow> pystr \<Rightarrow> pystr \<Rightarrow> json ordinary" where
  "open_ordinary text d session mode k s =
     (if map_of (o_handles s) k \<noteq> None \<or> MAX_HANDLES \<le> length (o_handles s)
      then (Inl (ValueError (lit ''File read handle already exists or connection limit reached'')), s)
      else case native_path text (dget d (lit ''path'')) of
          Inl e \<Rightarrow> (Inl e, s)
        | Inr p \<Rightarrow>
            (case onW (open_read p True) s of
               (Inl e, s) \<Rightarrow> (Inl e, s)
             | (Inr fd, s) \<Rightarrow>
                 (Inr (JObj [(lit ''handleId'', JStr k)]),
                  s\<lparr>o_handles := o_handles s @ [(k, \<lparr>oh_fd = fd, oh_session = session, oh_mode = mode\<rparr>)], o_acquired := Some k\<rparr>)))"

definition read_ordinary :: "dict \<Rightarrow> pystr \<Rightarrow> pystr \<Rightarrow> json ordinary" where
  "read_ordinary d session k s =
     (let len = int_of (dget d (lit ''len'')); offset = int_of (dget d (lit ''offset'')) in
      if \<not> (1 \<le> len \<and> len \<le> int MAX_BLOCK) then (Inl (ValueError (lit ''File read block length must be between 1 and 1048576'')), s)
      else case map_of (o_handles s) k of
          None \<Rightarrow> (Inl (FileNotFoundError (lit ''Unknown file read handle'')), s)
        | Some h \<Rightarrow>
            if oh_session h \<noteq> session \<or> oh_mode h \<noteq> ordinary_mode
            then (Inl (rpc (-32000) ''File handle belongs to another session or mode''), s)
            else (case onW (read_at (oh_fd h) (nat offset) (nat len) []) (s\<lparr>o_acquired := Some k\<rparr>) of
                (Inl e, s) \<Rightarrow> (Inl e, drop_read k s)
              | (Inr data, s) \<Rightarrow>
                  (Inr (JObj [(lit ''chunk'', JStr (b64encode data)), (lit ''eof'', JBool (int (length data) < len))]), s)))"

definition read_file :: "posix_path \<Rightarrow> bool \<Rightarrow> json io" where
  "read_file p follow =
     bindS (open_read p follow) (\<lambda>fd. finallyS
       (bindS (getS (\<lambda>w. inode_size (node_at (w_fs w) (fd_ino w fd)))) (\<lambda>size.
          if MAX_READ_FILE_BYTES < size then raiseS (ValueError (lit ''File exceeds the upstream 512 MiB read limit''))
          else bindS (read_all fd []) (\<lambda>data. retS (JObj [(lit ''dataBase64'', JStr (b64encode data))]))))
       (close_fd fd))"

definition write_file :: "posix_path \<Rightarrow> bool \<Rightarrow> pybytes \<Rightarrow> json io" where
  "write_file p follow data =
     bindS (open_file p True follow) (\<lambda>fd. finallyS
       (bindS (getS (\<lambda>w. is_file_at (w_fs w) (fd_ino w fd))) (\<lambda>regular.
          if \<not> follow \<and> \<not> regular then raiseS (ValueError (lit ''Path is not a regular file''))
          else bindS (truncate_fd fd) (\<lambda>_. bindS (write_view fd data) (\<lambda>_. retS empty_result))))
       (close_fd fd))"

definition name_entry :: "vfs \<Rightarrow> pystr \<times> ino \<Rightarrow> json" where
  "name_entry fs = (\<lambda>(name, i). JObj [(lit ''fileName'', JStr name), (lit ''isDirectory'', JBool (is_dir_at fs i)), (lit ''isFile'', JBool (is_file_at fs i))])"

text \<open>\<open>_execute\<close> for the requests on paths.\<close>

definition execute_path :: "(exn \<Rightarrow> pystr) \<Rightarrow> pystr \<Rightarrow> dict \<Rightarrow> json io" where
  "execute_path text m d =
     bindS (liftS (native_path text (dget d (if m = lit ''fs/copy'' then lit ''sourcePath'' else lit ''path'')))) (\<lambda>p.
       let follow = (dget d (lit ''followSymlinks'') \<noteq> JBool False); recursive = (dget d (lit ''recursive'') \<noteq> JBool False) in
       if m = lit ''fs/readFile'' then read_file p follow
       else if m = lit ''fs/writeFile'' then
         (case b64decode (str_of (dget d (lit ''dataBase64''))) of None \<Rightarrow> raiseS BinasciiError | Some data \<Rightarrow> write_file p follow data)
       else if m = lit ''fs/getMetadata'' then metadata_path p follow
       else if m = lit ''fs/canonicalize'' then
         bindS (fs_ask (\<lambda>fs. resolve_path fs True p)) (\<lambda>q. retS (JObj [(lit ''path'', JStr (as_uri q))]))
       else if m = lit ''fs/createDirectory'' then bindS (mkdir_path p recursive follow) (\<lambda>_. retS empty_result)
       else if m = lit ''fs/readDirectory'' then
         bindS (names p) (\<lambda>ns. getS (\<lambda>w. JObj [(lit ''entries'', JArr (map (name_entry (w_fs w)) ns))]))
       else if m = lit ''fs/walk'' then walk_path text p (dget d (lit ''options''))
       else if m = lit ''fs/remove'' then
         bindS (remove_path p recursive (dget d (lit ''force'') \<noteq> JBool False) follow) (\<lambda>_. retS empty_result)
       else bindS (liftS (native_path text (dget d (lit ''destinationPath'')))) (\<lambda>q.
         bindS (copy_path RECURSION_LIMIT p q recursive) (\<lambda>_. retS empty_result)))"

definition execute_ordinary :: "(exn \<Rightarrow> pystr) \<Rightarrow> pystr \<Rightarrow> dict \<Rightarrow> pystr \<Rightarrow> pystr \<Rightarrow> json ordinary" where
  "execute_ordinary text m d session mode =
     bindS (onW check) (\<lambda>_.
       if m \<in> set STREAM_METHODS then
         (let k = str_of (dget d (lit ''handleId'')) in
          bindS (liftS (encodeE k)) (\<lambda>bs.
            if MAX_HANDLE_BYTES < length bs then raiseS (ValueError (lit ''File read handle ID exceeds 32 bytes''))
            else if m = lit ''fs/close'' then (\<lambda>s. (Inr empty_result, drop_read k s))
            else if m = lit ''fs/open'' then open_ordinary text d session mode k
            else read_ordinary d session k))
       else onW (execute_path text m d))"

text \<open>
  \<open>handle\<close>.  When the request is cancelled while the worker runs, \<open>passes\<close> says after how many checks the
  worker notices; it is joined, a handle it acquired is dropped and there is no answer.
\<close>

definition admit_ordinary :: "(exn \<Rightarrow> pystr) \<Rightarrow> BackendCall \<Rightarrow> exn + dict \<times> pystr" where
  "admit_ordinary text call =
     (if call_method call \<notin> set FILE_METHODS then Inl (rpc (-32601) ''Unknown ordinary UID filesystem method'')
      else bindE (call_params call) (\<lambda>v. seqE (validate_operation (call_method call) v)
        (if call_method call \<in> set STREAM_LIFECYCLE then Inr (obj_of v, [])
         else bindE (validate_ordinary_filesystem_context text (dget (obj_of v) (lit ''sandbox''))) (\<lambda>mode. Inr (obj_of v, mode)))))"

definition handle_ordinary ::
    "(exn \<Rightarrow> pystr) \<Rightarrow> nat option \<Rightarrow> OrdinaryUidFilesBackend \<Rightarrow> BackendCall \<Rightarrow> (exn + json) option \<times> OrdinaryUidFilesBackend" where
  "handle_ordinary text passes s call =
     (case admit_ordinary text call of
        Inl e \<Rightarrow> (Some (Inl e), s)
      | Inr (d, mode) \<Rightarrow>
          (case bind_session (call_session call) s of
             (Inl e, s) \<Rightarrow> (Some (Inl e), s)
           | (Inr _, s) \<Rightarrow>
               if o_closed s then (Some (Inl (rpc (-32000) ''Filesystem session is closed'')), s)
               else let s = s\<lparr>o_acquired := None, o_world := (o_world s)\<lparr>w_checks := passes\<rparr>\<rparr> in
                 (case execute_ordinary text (call_method call) d (call_session call) mode s of (r, s) \<Rightarrow>
                    if passes \<noteq> None then (None, case o_acquired s of None \<Rightarrow> s | Some k \<Rightarrow> drop_read k s)
                    else (Some (case r of Inr v \<Rightarrow> Inr v
                      | Inl e \<Rightarrow> Inl (if is_os_error e \<or> is_value_error e then rpc_io text e else e)), s))))"

definition closing_session :: "pystr option \<Rightarrow> unit ordinary" where
  "closing_session session s =
     (case session of
        None \<Rightarrow>
          if o_session s \<noteq> None \<or> o_handles s \<noteq> []
          then (Inl (rpc (-32000) ''Cannot close an acquired filesystem without its session identity''), s) else (Inr (), s)
      | Some sid \<Rightarrow> bind_session sid s)"

definition close_ordinary :: "pystr option \<Rightarrow> unit ordinary" where
  "close_ordinary session =
     bindS (closing_session session) (\<lambda>_ s.
       if o_closed s then (Inr (), s) else (Inr (), (fold drop_read (map fst (o_handles s)) s)\<lparr>o_closed := True\<rparr>))"

end
