(* ===== verification/OrdinaryDescriptors.thy ===== *)
theory OrdinaryDescriptors
imports OrdinaryFiles
begin

text \<open>
  Every operation of the ordinary backend returns the descriptors it opened, whatever the filesystem holds, how
  much each transfer moves and wherever it is cancelled or fails.
\<close>

section \<open>Descriptors are returned\<close>

lemma keeps_check [keeps_intros]: "keeps check"
  by (auto simp: keeps_def check_def split: option.splits nat.splits)

lemma moves_descend: "moves fd (descend fd cs)"
proof (induction cs arbitrary: fd)
  case Nil
  show ?case by (simp add: moves_def retS_def)
next
  case (Cons c cs)
  show ?case
    unfolding moves_def
  proof (intro allI impI)
    fix w ks
    assume w: "fds w = fd # ks" "fd \<notin> set ks"
    obtain r u where o: "os_open_dir_at fd c w = (r, u)" by fastforce
    with opens_calls(4) [of fd c] have op: "opened (fds w) (r, u)" by (metis opens_def)
    show "opened ks (descend fd (c # cs) w)"
    proof (cases r)
      case (Inl e)
      with o op w show ?thesis by (simp add: bindS_def catchS_def)
    next
      case (Inr child)
      with op w have u: "fds u = child # fd # ks" "child \<notin> set (fd # ks)" by simp_all
      have "fds (close_fd fd u) = child # ks"
        using u w(2) by auto
      with Cons.IH [of child] u have "opened ks (descend child cs (close_fd fd u))"
        by (simp add: moves_def)
      with o Inr show ?thesis by (simp add: bindS_def catchS_def modifyS_def)
    qed
  qed
qed

text \<open>What a body that runs on the parent's descriptor leaves behind.\<close>

lemma with_parent_cases:
  obtains e where "with_parent p body w = (Inl e, w)"
    | e u where "with_parent p body w = (Inl e, u)" "fds u = fds w"
    | fd u r v where "with_parent p body w = (r, close_fd fd v)" "body fd (last (comps p)) u = (r, v)" "fds u = fd # fds w" "fd \<notin> set (fds w)"
proof (cases "path_parts p")
  case (Inl e)
  then show thesis by (intro that(1)) (simp add: with_parent_def bindS_def liftS_def)
next
  case (Inr parts)
  then have parts: "parts = comps p" by (auto simp: path_parts_def split: if_splits)
  show thesis
  proof (cases "parts = []")
    case True
    with Inr show thesis by (intro that(1)) (simp add: with_parent_def bindS_def liftS_def raiseS_def)
  next
    case False
    obtain fd0 u0 where o: "open_fd 0 w = (Inr fd0, u0)" "fds u0 = fd0 # fds w" "fd0 \<notin> set (fds w)"
      using opened_open_fd [of w 0] by (auto simp: open_fd_def)
    obtain r1 u1 where d: "descend fd0 (butlast parts) u0 = (r1, u1)" by fastforce
    with moves_descend [of fd0 "butlast parts"] o have op: "opened (fds w) (r1, u1)" by (metis moves_def)
    show thesis
    proof (cases r1)
      case (Inl e)
      with op o d False Inr show thesis by (intro that(2) [of e u1]) (simp_all add: with_parent_def bindS_def liftS_def)
    next
      case fd: (Inr fd)
      obtain r v where b: "body fd (last (comps p)) u1 = (r, v)" by fastforce
      with op o d False Inr fd parts show thesis
        by (intro that(3) [OF _ b]) (simp_all add: with_parent_def bindS_def liftS_def finallyS_def)
    qed
  qed
qed

lemma keeps_with_parent [keeps_intros]:
  assumes "\<And>fd leaf. keeps (body fd leaf)"
  shows "keeps (with_parent p body)"
proof (rule keepsI)
  fix w r w'
  assume "with_parent p body w = (r, w')"
  then show "fds w' = fds w"
    using keepsD [OF assms] by (rule_tac p = p and body = body and w = w in with_parent_cases) auto
qed

lemma opens_with_parent:
  assumes "\<And>fd leaf. opens (body fd leaf)"
  shows "opens (with_parent p body)"
  unfolding opens_def
proof
  fix w
  show "opened (fds w) (with_parent p body w)"
  proof (rule with_parent_cases [of p body w], goal_cases)
    case (3 fd u r v)
    then have "opened (fds u) (r, v)" using assms [of fd "last (comps p)"] by (metis opens_def)
    with 3 show ?case by (cases r) auto
  qed auto
qed

lemma opens_open_file: "opens (open_file p creating follow)"
  by (simp add: open_file_def opens_calls opens_with_parent)

lemma opens_open_read: "opens (open_read p follow)"
  unfolding opens_def
proof
  fix w
  obtain r u where o: "open_file p False follow w = (r, u)" by fastforce
  with opens_open_file have "opened (fds w) (r, u)" by (metis opens_def)
  with o show "opened (fds w) (open_read p follow w)"
    by (cases r) (auto simp: open_read_def bindS_def)
qed

lemma keeps_stat_path [keeps_intros]: "keeps (stat_path p follow)"
  unfolding stat_path_def
  by (intro keeps_if keeps_bindS [OF keeps_basic(3)] keeps_finally opens_calls keeps_with_parent keeps_basic keeps_branch keeps_world)

lemma keeps_metadata_path [keeps_intros]: "keeps (metadata_path p follow)"
  unfolding metadata_path_def by (intro keeps_intros)


lemma opens_enter_dir: "opened (fds w) (enter_dir recursive fd c w)"
proof -
  obtain q u where o: "os_open_dir_at fd c w = (q, u)" by fastforce
  with opens_calls(4) [of fd c] have op: "opened (fds w) (q, u)" by (metis opens_def)
  have made: "keeps (ignore_exists (os_mkdir_at fd c))"
    unfolding ignore_exists_def by (intro keeps_intros) (auto split: exn.split intro: keeps_intros)
  show ?thesis
  proof (cases q)
    case (Inl e)
    obtain q2 u2 where m: "ignore_exists (os_mkdir_at fd c) u = (q2, u2)" by fastforce
    from keepsD [OF made m] op Inl have "fds u2 = fds w" by simp
    moreover have "opened (fds u2) (os_open_dir_at fd c u2)" using opens_calls(4) by (simp add: opens_def)
    ultimately show ?thesis using o op Inl m
      by (cases q2) (auto simp: enter_dir_def catchS_def bindS_def raiseS_def)
  next
    case (Inr child)
    with o op show ?thesis by (simp add: enter_dir_def catchS_def)
  qed
qed

lemma closes_mkdir_loop: "closes fd (mkdir_loop recursive fd cs)"
proof (induction cs arbitrary: fd)
  case Nil
  show ?case by (simp add: closes_def modifyS_def)
next
  case (Cons c cs)
  show ?case
    unfolding closes_def
  proof (intro allI impI)
    fix w ks r w'
    assume w: "fds w = fd # ks" "fd \<notin> set ks" and run: "mkdir_loop recursive fd (c # cs) w = (r, w')"
    obtain q u where k: "check w = (q, u)" by fastforce
    then have u: "fds u = fd # ks" using keepsD [OF keeps_check k] w(1) by simp
    obtain q2 u2 where e: "enter_dir recursive fd c u = (q2, u2)" by fastforce
    with opens_enter_dir [of u recursive fd c] u have u2: "opened (fd # ks) (q2, u2)" by simp
    consider (failed) x where "q = Inl x" | (made) "q = Inr ()" "\<not> recursive \<and> cs = []"
      | (refused) x where "q = Inr ()" "\<not> (\<not> recursive \<and> cs = [])" "q2 = Inl x"
      | (entered) child where "q = Inr ()" "\<not> (\<not> recursive \<and> cs = [])" "q2 = Inr child"
      by (cases q; cases q2) auto
    then show "fds w' = ks"
    proof cases
      case failed
      with k u run w show ?thesis by (auto simp: bindS_def catchS_def)
    next
      case made
      have "closes fd (finallyS (os_mkdir_at fd c) (close_fd fd))" by (intro closes_finally keeps_intros)
      from closesD [OF this u w(2)] made k run show ?thesis by (simp add: bindS_def catchS_def)
    next
      case refused
      with k u2 e run w show ?thesis by (auto simp: bindS_def catchS_def)
    next
      case entered
      with u2 w(2) have "fds (close_fd fd u2) = child # ks" "child \<notin> set ks" by auto
      from closesD [OF Cons.IH this] entered k e run show ?thesis
        by (auto simp: bindS_def catchS_def modifyS_def)
    qed
  qed
qed

lemma keeps_mkdir_path [keeps_intros]: "keeps (mkdir_path p recursive follow)"
  unfolding mkdir_path_def by (intro keeps_intros keeps_closing [OF opens_calls(1) closes_mkdir_loop])

lemma keeps_names [keeps_intros]: "keeps (names p)"
proof -
  have "keeps (names_loop st es acc)" for st es acc
    by (induction st es acc rule: names_loop.induct) (auto intro: keeps_intros)
  then show ?thesis unfolding names_def by (intro keeps_intros)
qed

lemma keeps_write_view [keeps_intros]: "keeps (write_view fd data)"
proof (rule keepsI)
  show "write_view fd data w = (r, w') \<Longrightarrow> fds w' = fds w" for w r w'
  proof (induction fd data w rule: write_view.induct)
    case (1 fd data w)
    obtain q u where k: "check w = (q, u)" by fastforce
    obtain q1 u1 where m: "write_fd fd (take MAX_BLOCK data) u = (q1, u1)" by fastforce
    have fds: "fds u = fds w" "fds u1 = fds w"
      using keepsD [OF keeps_check k] keepsD [OF keeps_transfers(2) m] by simp_all
    show ?case
    proof (cases "data \<noteq> [] \<and> q = Inr () \<and> (\<exists>n. q1 = Inr n \<and> n \<noteq> 0)")
      case True
      then obtain n where n: "q1 = Inr n" "n \<noteq> 0" by blast
      with True k m 1(2) have "write_view fd (drop n data) u1 = (r, w')" by (subst (asm) write_view.simps) simp
      with 1(1) [of q u "()" q1 u1 n] True k m n fds show ?thesis by simp
    next
      case False
      with k m fds 1(2) show ?thesis
        by (subst (asm) write_view.simps) (cases q; cases q1; auto split: if_splits)
    qed
  qed
qed


lemma keeps_read_all [keeps_intros]: "keeps (read_all fd acc)"
proof (rule keepsI)
  show "read_all fd acc w = (r, w') \<Longrightarrow> fds w' = fds w" for w r w'
  proof (induction fd acc w rule: read_all.induct)
    case (1 fd acc w)
    obtain q u where k: "check w = (q, u)" by fastforce
    obtain q1 u1 where m: "read_fd fd (min MAX_BLOCK (MAX_READ_FILE_BYTES + 1 - length acc)) u = (q1, u1)" by fastforce
    have fds: "fds u = fds w" "fds u1 = fds w"
      using keepsD [OF keeps_check k] keepsD [OF keeps_transfers(1) m] by simp_all
    show ?case
    proof (cases "q = Inr () \<and> (\<exists>c. q1 = Inr c \<and> c \<noteq> [] \<and> \<not> MAX_READ_FILE_BYTES < length (acc @ c))")
      case True
      then obtain c where c: "q1 = Inr c" "c \<noteq> []" "\<not> MAX_READ_FILE_BYTES < length (acc @ c)" by blast
      with True k m 1(2) have "read_all fd (acc @ c) u1 = (r, w')" by (subst (asm) read_all.simps) simp
      with 1(1) [of q u "()" q1 u1 c] True k m c fds show ?thesis by simp
    next
      case False
      with k m fds 1(2) show ?thesis
        by (subst (asm) read_all.simps) (cases q; cases q1; auto split: if_splits)
    qed
  qed
qed

lemma keeps_copy_data [keeps_intros]: "keeps (copy_data n source target)"
proof (induction n)
  case (Suc n)
  show ?case unfolding copy_data.simps by (intro keeps_intros Suc.IH)
qed (simp add: keeps_basic)

lemma keeps_set_perm [keeps_intros]: "keeps (modifyS (set_perm fd p))"
  by (simp add: keeps_def modifyS_def set_perm_def)

lemma keeps_copy_file [keeps_intros]: "keeps (copy_file source target)"
  unfolding copy_file_def
  by (intro keeps_finally keeps_bindS keeps_basic keeps_prod keeps_if keeps_transfers keeps_set_perm opens_open_read opens_open_file
      keeps_reads [OF keeps_copy_data])

lemma keeps_content:
  "(\<And>t. keeps (l t)) \<Longrightarrow> (\<And>b. keeps (f b)) \<Longrightarrow> keeps n \<Longrightarrow> (\<And>es. keeps (d es)) \<Longrightarrow>
   keeps (case c of Target t \<Rightarrow> l t | Data b \<Rightarrow> f b | Opaque \<Rightarrow> n | Entries es \<Rightarrow> d es)"
  by (cases c) simp_all

lemma keeps_copy_path [keeps_intros]: "keeps (copy_path n source target recursive)"
proof (induction n arbitrary: source target recursive)
  case (Suc n)
  show ?case
    unfolding copy_path.simps
    by (intro keeps_intros keeps_content Suc.IH)
qed (simp add: keeps_basic)

lemma keeps_remove_leaf [keeps_intros]: "keeps (remove_leaf fd leaf)"
  unfolding remove_leaf_def [abs_def] by (intro keeps_branch keeps_world keeps_reads [OF keeps_basic(6)])

lemma keeps_remove_path [keeps_intros]: "keeps (remove_path p recursive force follow)"
  unfolding remove_path_def Let_def
  by (intro keeps_bindS keeps_check keeps_if keeps_basic keeps_catchS keeps_with_parent keeps_remove_leaf keeps_branch
      keeps_reads [OF keeps_basic(6)])

lemma keeps_walk_name [keeps_intros]: "keeps (walk_name wording opts directory depth name s)"
  unfolding walk_name_def Let_def by (intro keeps_intros)

lemma keeps_walk_names [keeps_intros]: "keeps (walk_names wording opts directory depth ns s)"
proof (induction ns arbitrary: s)
  case (Cons n ns)
  show ?case unfolding walk_names.simps by (intro keeps_intros Cons.IH)
qed (simp add: keeps_basic)

lemma keeps_walk_directory [keeps_intros]: "keeps (walk_directory wording opts d s)"
  by (cases d) (simp add: walk_directory_def, intro keeps_intros)

lemma keeps_walk_queue [keeps_intros]: "keeps (walk_queue wording opts s)"
proof (rule keepsI)
  show "walk_queue wording opts s w = (r, w') \<Longrightarrow> fds w' = fds w" for w r w'
  proof (induction wording opts s w rule: walk_queue.induct)
    case (1 wording opts s w)
    show ?case
    proof (cases "ws_queue s")
      case Nil
      with 1(2) show ?thesis by (subst (asm) walk_queue.simps) simp
    next
      case (Cons d q)
      obtain x u where d: "walk_directory wording opts d (s\<lparr>ws_queue := q\<rparr>) w = (x, u)" by fastforce
      then have u: "fds u = fds w" by (rule keepsD [OF keeps_walk_directory])
      show ?thesis
      proof (cases "\<exists>t. x = Inr (True, t)")
        case True
        then obtain t where t: "x = Inr (True, t)" by blast
        with Cons d 1(2) have "walk_queue wording opts t u = (r, w')" by (subst (asm) walk_queue.simps) simp
        with 1(1) [of d q x u "(True, t)" True t] Cons d t u show ?thesis by simp
      next
        case False
        with Cons d u 1(2) show ?thesis
          by (subst (asm) walk_queue.simps) (auto split: sum.splits if_splits)
      qed
    qed
  qed
qed

lemma keeps_walk_path [keeps_intros]: "keeps (walk_path wording p options)"
  unfolding walk_path_def Let_def by (intro keeps_intros)

lemma keeps_read_file [keeps_intros]: "keeps (read_file p follow)"
  unfolding read_file_def
  by (intro keeps_finally keeps_bindS keeps_basic keeps_if keeps_read_all opens_open_read)

lemma keeps_write_file [keeps_intros]: "keeps (write_file p follow data)"
  unfolding write_file_def
  by (intro keeps_finally keeps_bindS keeps_basic keeps_if keeps_transfers keeps_write_view opens_open_file)

lemma keeps_execute_path: "keeps (execute_path wording m d)"
  unfolding execute_path_def Let_def by (intro keeps_intros)

lemma keeps_read_at: "keeps (read_at fd offset len acc)"
proof (rule keepsI)
  show "read_at fd offset len acc w = (r, w') \<Longrightarrow> fds w' = fds w" for w r w'
  proof (induction fd offset len acc w rule: read_at.induct)
    case (1 fd offset len acc w)
    obtain q w1 where k: "check w = (q, w1)" by fastforce
    obtain n w2 where t: "transfer (len - length acc) w1 = (n, w2)" by fastforce
    let ?c = "take n (drop (offset + length acc) (data_at (w_fs w2) (fd_ino w2 fd)))"
    have fds: "fds w1 = fds w" "fds w2 = fds w"
      using check_io [OF k] transfer_frame [OF t] by (simp_all add: fds_def)
    let ?go = "length acc < len \<and> q = Inr () \<and> offset + length acc < 2 ^ 63"
    consider (stop) "\<not> ?go" | (again) ?go "take 1 (w_io w1) = [None]" | (read) ?go "take 1 (w_io w1) \<noteq> [None]" by blast
    then show ?case
    proof cases
      case stop
      with k fds 1(3) show ?thesis
        by (subst (asm) read_at.simps) (cases q; auto split: if_splits)
    next
      case again
      then have "read_at fd offset len acc (w1\<lparr>w_io := tl (w_io w1)\<rparr>) = (r, w')"
        using k 1(3) by (subst (asm) read_at.simps) simp
      with 1(1) [of q w1 "()"] again k fds show ?thesis by simp
    next
      case read
      show ?thesis
      proof (cases "?c = []")
        case True
        with read k t fds 1(3) show ?thesis by (subst (asm) read_at.simps) (simp add: Let_def)
      next
        case False
        with read k t 1(3) have "read_at fd offset len (acc @ ?c) w2 = (r, w')"
          by (subst (asm) read_at.simps) (simp add: Let_def)
        with 1(2) [of q w1 "()" n w2 ?c] read False k t fds show ?thesis by simp
      qed
    qed
  qed
qed

end
