(* ===== verification/OrdinaryTransfers.thy ===== *)
theory OrdinaryTransfers
imports OrdinaryDescriptors
begin

text \<open>
  The data that the ordinary backend moves and the paths on which it finds it: blocks are read exactly and files
  written whole whatever a single transfer moves, lookups that do not follow links stay in the tree.
\<close>

section \<open>Inodes and descriptors\<close>

lemma node_at_put_content: "node_at (put_content i c fs) j = (if j = i then (node_at fs i)\<lparr>content := c\<rparr> else node_at fs j)"
  by (simp add: node_at_def put_content_def put_node_def dict_put_lookup)

lemma content_at_put_content: "content_at (put_content i c fs) j = (if j = i then c else content_at fs j)"
  by (simp add: content_at_def node_at_put_content)

lemma fd_ino_open [simp]: "fd_ino (w\<lparr>w_fds := (fd, i, off) # xs\<rparr>) fd = i"
  by (simp add: fd_ino_def)

lemma fd_ino_close: "n \<noteq> fd \<Longrightarrow> fd_ino (close_fd fd w) n = fd_ino w n"
  by (simp add: fd_ino_def close_fd_def map_of_filter_neq)

lemma fd_ino_fs [simp]: "fd_ino (w\<lparr>w_fs := fs\<rparr>) fd = fd_ino w fd" "fd_ino (w\<lparr>w_io := io\<rparr>) fd = fd_ino w fd"
  by (simp_all add: fd_ino_def)

lemma close_fd_frame [simp]:
  "w_fs (close_fd fd w) = w_fs w" "w_checks (close_fd fd w) = w_checks w" "w_io (close_fd fd w) = w_io w"
  by (simp_all add: close_fd_def)

lemma check_free [simp]: "w_checks w = None \<Longrightarrow> check w = (Inr (), w)"
  by (simp add: check_def)

lemma transfer_size: "transfer n w = (k, w') \<Longrightarrow> k \<le> n \<and> (n \<noteq> 0 \<longrightarrow> k \<noteq> 0)"
  by (auto simp: transfer_def split: list.splits option.splits)


section \<open>Reading a block\<close>

lemma take_more:
  assumes "acc = take (length acc) xs" and "c = take k (drop (length acc) xs)"
  shows "acc @ c = take (length (acc @ c)) xs"
proof -
  have "acc @ c = take (length acc + k) xs"
    using assms by (metis take_add)
  then show ?thesis
    by (metis append_eq_conv_conj append_take_drop_id)
qed

lemma read_at_exact:
  assumes "w_checks w = None" and "offset + len \<le> 2 ^ 63" and "length acc \<le> len"
    and "acc = take (length acc) (drop offset (data_at (w_fs w) (fd_ino w fd)))"
  shows "fst (read_at fd offset len acc w) = Inr (take len (drop offset (data_at (w_fs w) (fd_ino w fd))))"
  using assms
proof (induction fd offset len acc w rule: read_at.induct)
  case (1 fd offset len acc w)
  let ?D = "data_at (w_fs w) (fd_ino w fd)"
  have k: "check w = (Inr (), w)" using "1.prems"(1) by simp
  show ?case
  proof (cases "length acc < len")
    case False
    with "1.prems"(3,4) show ?thesis by (subst read_at.simps) simp
  next
    case True
    with "1.prems"(2) have small: "offset + length acc < 2 ^ 63" by simp
    show ?thesis
    proof (cases "take 1 (w_io w) = [None]")
      case again: True
      then have "read_at fd offset len acc w = read_at fd offset len acc (w\<lparr>w_io := tl (w_io w)\<rparr>)"
        using True k small by (subst read_at.simps) simp
      with "1.IH"(1) [of "Inr ()" w "()"] again True k small "1.prems" show ?thesis by simp
    next
      case False
      obtain n u where t: "transfer (len - length acc) w = (n, u)" by fastforce
      have u: "w_fs u = w_fs w" "fd_ino u fd = fd_ino w fd" "w_checks u = None" and n: "n \<noteq> 0" "n \<le> len - length acc"
        using transfer_frame [OF t] transfer_size [OF t] "1.prems"(1) True by (auto simp: fd_ino_def)
      let ?c = "take n (drop (offset + length acc) ?D)"
      show ?thesis
      proof (cases "?c = []")
        case empty: True
        with n have "length (drop offset ?D) \<le> length acc" by simp
        with "1.prems"(3,4) have "take len (drop offset ?D) = acc" by (metis le_trans take_all)
        moreover have "read_at fd offset len acc w = (Inr acc, u)"
          using True k small False t u empty by (subst read_at.simps) (simp add: Let_def)
        ultimately show ?thesis by simp
      next
        case more: False
        then have "read_at fd offset len acc w = read_at fd offset len (acc @ ?c) u"
          using True k small False t u by (subst read_at.simps) (simp add: Let_def)
        moreover have "acc @ ?c = take (length (acc @ ?c)) (drop offset ?D)"
          by (rule take_more [OF "1.prems"(4)]) (simp add: add.commute)
        ultimately show ?thesis
          using "1.IH"(2) [of "Inr ()" w "()" n u ?c] True k small False t u n more "1.prems"(2,3) by simp
      qed
    qed
  qed
qed

text \<open>C11: a block read through a handle of the session is, whatever each transfer moves and however often one is
  interrupted, exactly the bytes of the file from the offset on, as many as asked for; \<open>eof\<close> says that
  there were fewer.\<close>

theorem read_block_exact:
  assumes "map_of (o_handles s) k = Some h" and "oh_session h = session" and "oh_mode h = ordinary_mode"
    and "dget d (lit ''len'') = JInt (int len)" and "dget d (lit ''offset'') = JInt (int offset)"
    and "1 \<le> len" and "len \<le> MAX_BLOCK" and "offset + len \<le> 2 ^ 63" and "w_checks (o_world s) = None"
  shows "fst (read_ordinary d session k s) =
    (let block = take len (drop offset (data_at (w_fs (o_world s)) (fd_ino (o_world s) (oh_fd h)))) in
     Inr (JObj [(lit ''chunk'', JStr (b64encode block)), (lit ''eof'', JBool (length block < len))]))"
proof -
  obtain q u where r: "read_at (oh_fd h) offset len [] (o_world s) = (q, u)" by fastforce
  with read_at_exact [of "o_world s" offset len "[]" "oh_fd h"] assms(8,9)
  have "q = Inr (take len (drop offset (data_at (w_fs (o_world s)) (fd_ino (o_world s) (oh_fd h)))))" by simp
  with r assms show ?thesis by (simp add: read_ordinary_def onW_def Let_def)
qed


section \<open>Writing a file\<close>

text \<open>The descriptor stands at the end of what is written of the file.\<close>

definition at_end :: "nat \<Rightarrow> ino \<Rightarrow> pybytes \<Rightarrow> world \<Rightarrow> bool" where
  "at_end fd i bs w \<longleftrightarrow> w_checks w = None \<and> map_of (w_fds w) fd = Some (i, length bs) \<and> content_at (w_fs w) i = Data bs"

lemma map_of_seek: "map_of (w_fds (seek_fd fd off w)) n =
    (case map_of (w_fds w) n of None \<Rightarrow> None | Some (i, o') \<Rightarrow> Some (i, if n = fd then off else o'))"
proof -
  have "map_of (map (\<lambda>(n, i, o'). (n, i, if n = fd then off else o')) xs) n =
      (case map_of xs n of None \<Rightarrow> None | Some (i, o') \<Rightarrow> Some (i, if n = fd then off else o'))" for xs :: "(nat \<times> ino \<times> nat) list"
    by (induction xs) auto
  then show ?thesis by (simp add: seek_fd_def)
qed

lemma seek_fd_frame [simp]: "w_fs (seek_fd fd off w) = w_fs w" "w_checks (seek_fd fd off w) = w_checks w"
  by (simp_all add: seek_fd_def)

lemma at_end_write:
  assumes "at_end fd i bs w" and "data \<noteq> []"
  obtains k u where "write_fd fd (take MAX_BLOCK data) w = (Inr k, u)" and "k \<noteq> 0" and "k \<le> length data"
    and "at_end fd i (bs @ take k data) u" and "\<And>j. j \<noteq> i \<Longrightarrow> node_at (w_fs u) j = node_at (w_fs w) j"
proof -
  obtain k v where t: "transfer (length (take MAX_BLOCK data)) w = (k, v)" by fastforce
  have v: "w_fds v = w_fds w" "w_fs v = w_fs w" "w_checks v = None" and k: "k \<noteq> 0" "k \<le> length (take MAX_BLOCK data)"
    using transfer_frame [OF t] transfer_size [OF t] assms by (auto simp: at_end_def MAX_BLOCK_def)
  have at: "map_of (w_fds v) fd = Some (i, length bs)" "content_at (w_fs v) i = Data bs" using v assms by (simp_all add: at_end_def)
  let ?fs = "put_content i (Data (bs @ take k (take MAX_BLOCK data))) (w_fs v)"
  have same: "take k (take MAX_BLOCK data) = take k data" using k(2) by (simp add: min_absorb1)
  have "write_fd fd (take MAX_BLOCK data) w = (Inr k, seek_fd fd (length bs + k) (v\<lparr>w_fs := ?fs\<rparr>))"
    using t at by (simp add: write_fd_def fd_ino_def fd_offset_def data_at_def)
  moreover have "at_end fd i (bs @ take k data) (seek_fd fd (length bs + k) (v\<lparr>w_fs := ?fs\<rparr>))"
    using k v at same by (simp add: at_end_def map_of_seek content_at_put_content)
  moreover have "node_at (w_fs (seek_fd fd (length bs + k) (v\<lparr>w_fs := ?fs\<rparr>))) j = node_at (w_fs w) j" if "j \<noteq> i" for j
    using that v by (simp add: node_at_put_content)
  moreover have "k \<le> length data" using k(2) by simp
  ultimately show thesis using that k(1) by blast
qed

lemma write_view_exact:
  assumes "at_end fd i bs w"
  shows "\<exists>u. write_view fd data w = (Inr (), u) \<and> at_end fd i (bs @ data) u \<and> (\<forall>j. j \<noteq> i \<longrightarrow> node_at (w_fs u) j = node_at (w_fs w) j)"
  using assms
proof (induction "length data" arbitrary: data bs w rule: less_induct)
  case less
  show ?case
  proof (cases "data = []")
    case True
    with less.prems show ?thesis by (simp add: write_view.simps)
  next
    case False
    obtain k u where u: "write_fd fd (take MAX_BLOCK data) w = (Inr k, u)" "k \<noteq> 0" "k \<le> length data"
      "at_end fd i (bs @ take k data) u" "\<And>j. j \<noteq> i \<Longrightarrow> node_at (w_fs u) j = node_at (w_fs w) j"
      by (rule at_end_write [OF less.prems False]) blast
    have "check w = (Inr (), w)" using less.prems by (simp add: at_end_def)
    then have "write_view fd data w = write_view fd (drop k data) u"
      using u(1,2) False by (subst write_view.simps) simp
    moreover have "length (drop k data) < length data" using u(2,3) False by simp
    then obtain v where v: "write_view fd (drop k data) u = (Inr (), v)" "at_end fd i ((bs @ take k data) @ drop k data) v"
      "\<forall>j. j \<noteq> i \<longrightarrow> node_at (w_fs v) j = node_at (w_fs u) j"
      using less.hyps [OF _ u(4)] by blast
    ultimately show ?thesis using u(5) by simp
  qed
qed


text \<open>Lookups depend on directories and links only.\<close>

definition same_tree :: "vfs \<Rightarrow> vfs \<Rightarrow> bool" where
  "same_tree fs fs' \<longleftrightarrow> (\<forall>j. content_at fs' j = content_at fs j \<or> is_file_at fs j \<and> is_file_at fs' j)"

lemma same_tree_at:
  assumes "same_tree fs fs'"
  shows "is_dir_at fs' j = is_dir_at fs j" "entries_at fs' j = entries_at fs j" "is_link_at fs' j = is_link_at fs j"
    "content_at fs j = Target t \<longleftrightarrow> content_at fs' j = Target t"
  using assms [unfolded same_tree_def, THEN spec, of j]
  by (auto simp: is_dir_at_def entries_at_def is_link_at_def is_file_at_def split: content.splits)

lemma same_tree_content:
  assumes "same_tree fs fs'"
  shows "(case content_at fs' j of Target t \<Rightarrow> f t | _ \<Rightarrow> g) = (case content_at fs j of Target t \<Rightarrow> f t | _ \<Rightarrow> g)"
  using assms [unfolded same_tree_def, THEN spec, of j]
  by (cases "content_at fs j"; cases "content_at fs' j") (simp_all add: is_file_at_def)

lemma locate_same:
  assumes "same_tree fs fs'"
  shows "locate fs' follow n st cs = locate fs follow n st cs"
  using assms
proof (induction fs follow n st cs rule: locate.induct)
  case (2 fs follow n st c cs)
  note at = same_tree_at(1,2) [OF "2.prems"] same_tree_content [OF "2.prems"]
  consider (none) "\<not> is_dir_at fs (hd st)" | (dot) "is_dir_at fs (hd st)" "c = [46]" | (up) "is_dir_at fs (hd st)" "c = [46, 46]"
    | (name) "is_dir_at fs (hd st)" "c \<noteq> [46]" "c \<noteq> [46, 46]" by blast
  then show ?case
  proof cases
    case none
    then show ?thesis by (simp add: locate.simps(2) at)
  next
    case dot
    with "2.IH"(1) "2.prems" show ?thesis by (simp add: locate.simps(2) at)
  next
    case up
    with "2.IH"(2) "2.prems" show ?thesis by (simp add: locate.simps(2) at)
  next
    case name
    show ?thesis
    proof (cases "map_of (entries_at fs (hd st)) c")
      case None
      with name show ?thesis by (simp add: locate.simps(2) at)
    next
      case (Some i)
      show ?thesis
        using "2.IH"(3-) "2.prems" name Some
        by (cases "content_at fs i") (simp_all add: locate.simps(2) [of fs] locate.simps(2) [of fs'] at)
    qed
  qed
qed simp

lemma find_path_same: "same_tree fs fs' \<Longrightarrow> find_path fs' follow p = find_path fs follow p"
  by (simp add: find_path_def locate_same)

text \<open>A write to a file that is there replaces its data and touches nothing else.\<close>

lemma write_file_exact:
  assumes find: "find_path (w_fs w) True p = Inr (At st)" and reg: "is_file_at (w_fs w) (hd st)" and free: "w_checks w = None"
  obtains u where "write_file p True data w = (Inr empty_result, u)" and "content_at (w_fs u) (hd st) = Data data"
    and "\<And>j. j \<noteq> hd st \<Longrightarrow> node_at (w_fs u) j = node_at (w_fs w) j" and "w_checks u = None"
proof -
  let ?i = "hd st" and ?fd = "free_fd w"
  let ?w1 = "w\<lparr>w_fds := (?fd, ?i, 0) # w_fds w\<rparr>"
  let ?w2 = "?w1\<lparr>w_fs := put_content ?i (Data []) (w_fs w)\<rparr>"
  have dir: "\<not> is_dir_at (w_fs w) ?i" using reg by (auto simp: is_file_at_def is_dir_at_def split: content.splits)
  have "at_end ?fd ?i [] ?w2" using free by (simp add: at_end_def content_at_put_content)
  from write_view_exact [OF this, of data] obtain u where u: "write_view ?fd data ?w2 = (Inr (), u)" "at_end ?fd ?i data u"
    "\<forall>j. j \<noteq> ?i \<longrightarrow> node_at (w_fs u) j = node_at (w_fs ?w2) j" by auto
  have "os_open p True w = (Inr ?fd, ?w1)"
    using find dir by (simp add: os_open_def open_inode_def open_fd_def)
  then have "write_file p True data w = (Inr empty_result, close_fd ?fd u)"
    using u(1) reg by (simp add: write_file_def open_file_def bindS_def finallyS_def getS_def truncate_fd_def retS_def)
  moreover have "content_at (w_fs u) ?i = Data data" "w_checks u = None" using u(2) by (simp_all add: at_end_def)
  moreover have "node_at (w_fs u) j = node_at (w_fs w) j" if "j \<noteq> ?i" for j using u(3) that by (simp add: node_at_put_content)
  ultimately show thesis using that [of "close_fd ?fd u"] by simp
qed

lemma read_all_exact:
  assumes "map_of (w_fds w) fd = Some (i, length acc)" and "content_at (w_fs w) i = Data bs" and "w_checks w = None"
    and "acc = take (length acc) bs" and "length bs \<le> MAX_READ_FILE_BYTES"
  shows "\<exists>u. read_all fd acc w = (Inr bs, u)"
  using assms
proof (induction "length bs - length acc" arbitrary: acc w rule: less_induct)
  case less
  let ?n = "min MAX_BLOCK (MAX_READ_FILE_BYTES + 1 - length acc)"
  have le: "length acc \<le> length bs" by (metis less.prems(4) length_take min.cobounded1)
  obtain k v where t: "transfer ?n w = (k, v)" by fastforce
  have v: "w_fds v = w_fds w" "w_fs v = w_fs w" "w_checks v = None" and k: "k \<noteq> 0"
    using transfer_frame [OF t] transfer_size [OF t] less.prems(3,5) le by (auto simp: MAX_BLOCK_def)
  let ?c = "take k (drop (length acc) bs)"
  let ?u = "seek_fd fd (length acc + length ?c) v"
  have r: "read_fd fd ?n w = (Inr ?c, ?u)"
    using t v less.prems by (simp add: read_fd_def fd_ino_def fd_offset_def data_at_def)
  have c: "check w = (Inr (), w)" using less.prems(3) by simp
  show ?case
  proof (cases "?c = []")
    case True
    with k le less.prems(4) have "acc = bs" by simp
    with True r c show ?thesis by (subst read_all.simps) simp
  next
    case False
    have prefix: "acc @ ?c = take (length (acc @ ?c)) bs" by (rule take_more [OF less.prems(4)]) simp
    then have "length (acc @ ?c) \<le> length bs" by (metis length_take min.cobounded1)
    then have small: "\<not> MAX_READ_FILE_BYTES < length (acc @ ?c)" using less.prems(5) by simp
    have "read_all fd acc w = read_all fd (acc @ ?c) ?u"
      using r c False small by (subst read_all.simps) (simp del: length_append)
    moreover have "length bs - length (acc @ ?c) < length bs - length acc" using False k by simp
    moreover have "map_of (w_fds ?u) fd = Some (i, length (acc @ ?c))"
      using v less.prems(1) by (simp add: map_of_seek)
    ultimately show ?thesis
      using less.hyps [of "acc @ ?c" ?u] v less.prems(2,3,5) prefix by simp
  qed
qed




section \<open>Lookups that follow no link\<close>

lemma dir_no_link: "is_dir_at fs i \<Longrightarrow> \<not> is_link_at fs i"
  by (auto simp: is_dir_at_def is_link_at_def split: content.splits)

lemma descend_plain:
  assumes "descend fd cs w = (Inr n, w')" and "is_dir_at (w_fs w) (fd_ino w fd)" and "fd \<in> set (fds w)"
  shows "plain (w_fs w) (fd_ino w fd) cs = Some (fd_ino w' n) \<and> is_dir_at (w_fs w) (fd_ino w' n) \<and> w_fs w' = w_fs w"
  using assms
proof (induction cs arbitrary: fd w)
  case Nil
  then show ?case by (auto simp: retS_def)
next
  case (Cons c cs)
  let ?n = "free_fd w"
  obtain i where i: "map_of (entries_at (w_fs w) (fd_ino w fd)) c = Some i" "is_dir_at (w_fs w) i"
    using Cons.prems(1) by (auto simp: bindS_def catchS_def os_open_dir_at_def split: option.splits if_splits)
  let ?u = "close_fd fd (w\<lparr>w_fds := (?n, i, 0) # w_fds w\<rparr>)"
  have n: "?n \<noteq> fd" using free_fd_fresh Cons.prems(3) by metis
  have u: "w_fs ?u = w_fs w" "fd_ino ?u ?n = i" by (simp_all add: fd_ino_close n)
  have "descend ?n cs ?u = (Inr n, w')"
    using Cons.prems(1) i by (simp add: bindS_def catchS_def os_open_dir_at_def open_fd_def modifyS_def)
  moreover have "?n \<in> set (fds ?u)" using n by (auto simp: fds_def close_fd_def)
  ultimately have "plain (w_fs w) i cs = Some (fd_ino w' n) \<and> is_dir_at (w_fs w) (fd_ino w' n) \<and> w_fs w' = w_fs w"
    using Cons.IH [of ?n ?u] u i(2) by simp
  with i Cons.prems(2) show ?case by (simp add: dir_no_link)
qed

lemma with_parent_plain:
  assumes "with_parent p body w = (Inr x, w')" and "is_dir_at (w_fs w) 0"
  obtains fd u v where "body fd (last (comps p)) u = (Inr x, v)" and "w' = close_fd fd v" and "fds u = fd # fds w" and "fd \<notin> set (fds w)"
    and "plain (w_fs w) 0 (butlast (comps p)) = Some (fd_ino u fd)" and "is_dir_at (w_fs w) (fd_ino u fd)" and "w_fs u = w_fs w"
    and "comps p \<noteq> []" and "[46] \<notin> set (comps p)" and "[46, 46] \<notin> set (comps p)"
proof -
  let ?n = "free_fd w"
  let ?w1 = "w\<lparr>w_fds := (?n, 0, 0) # w_fds w\<rparr>"
  have parts: "path_parts p = Inr (comps p)" and ne: "comps p \<noteq> []"
    using assms(1) by (auto simp: with_parent_def bindS_def liftS_def raiseS_def path_parts_def split: if_splits)
  obtain q u where d: "descend ?n (butlast (comps p)) ?w1 = (q, u)" by fastforce
  obtain fd where q: "q = Inr fd"
    using assms(1) parts ne d by (cases q) (auto simp: with_parent_def bindS_def liftS_def open_fd_def)
  have w1: "fds ?w1 = ?n # fds w" "?n \<notin> set (fds w)" using free_fd_fresh by (simp_all add: fds_def)
  then have u: "fds u = fd # fds w" "fd \<notin> set (fds w)"
    using moves_descend [unfolded moves_def, rule_format, OF w1, of "butlast (comps p)"] d q by simp_all
  have "plain (w_fs w) 0 (butlast (comps p)) = Some (fd_ino u fd) \<and> is_dir_at (w_fs w) (fd_ino u fd) \<and> w_fs u = w_fs w"
    using descend_plain [OF d [unfolded q]] w1 assms(2) by simp
  moreover obtain v where "body fd (last (comps p)) u = (Inr x, v)" "w' = close_fd fd v"
    using assms(1) parts ne d q by (auto simp: with_parent_def bindS_def liftS_def open_fd_def finallyS_def split: prod.splits)
  moreover have "[46] \<notin> set (comps p)" "[46, 46] \<notin> set (comps p)"
    using parts by (auto simp: path_parts_def list_ex_iff split: if_splits)
  ultimately show thesis using that [of fd u v] u ne by blast
qed

text \<open>C15: a file opened without following links is the entry of its last name in the directory that its other
  names lead to through directories only; it is no link itself.  A file that is missing is made there, and
  only when it is opened for writing.\<close>

theorem nofollow_open_in_place:
  assumes "open_file p creating False w = (Inr fd, w')" and "is_dir_at (w_fs w) 0"
  shows "\<exists>d. plain (w_fs w) 0 (butlast (comps p)) = Some d \<and> is_dir_at (w_fs w) d \<and> comps p \<noteq> [] \<and>
    [46, 46] \<notin> set (comps p) \<and>
    (case map_of (entries_at (w_fs w) d) (last (comps p)) of
       Some i \<Rightarrow> fd_ino w' fd = i \<and> \<not> is_link_at (w_fs w) i \<and> w_fs w' = w_fs w
     | None \<Rightarrow> creating \<and> fd_ino w' fd = next_ino (w_fs w) \<and> w_fs w' = fst (create d (last (comps p)) 438 (Data []) (w_fs w)))"
proof -
  obtain dir u v where b: "os_open_at dir (last (comps p)) creating u = (Inr fd, v)" and w': "w' = close_fd dir v"
    and u: "fds u = dir # fds w" "w_fs u = w_fs w" and d: "plain (w_fs w) 0 (butlast (comps p)) = Some (fd_ino u dir)"
      "is_dir_at (w_fs w) (fd_ino u dir)" and ne: "comps p \<noteq> []" "[46, 46] \<notin> set (comps p)"
    using assms(1) by (auto simp: open_file_def elim!: with_parent_plain [OF _ assms(2)])
  have fd: "fd \<noteq> dir"
    using opensD(2) [OF opens_calls(3) b] u(1) by auto
  show ?thesis
  proof (cases "map_of (entries_at (w_fs w) (fd_ino u dir)) (last (comps p))")
    case None
    with b u have "creating" "make_file (fd_ino u dir) (last (comps p)) u = (Inr fd, v)"
      by (auto simp: os_open_at_def split: if_splits)
    then have "fd_ino v fd = next_ino (w_fs w)" "w_fs v = fst (create (fd_ino u dir) (last (comps p)) 438 (Data []) (w_fs w))"
      using u by (auto simp: make_file_def open_fd_def create_def Let_def fd_ino_def)
    with None d ne w' fd \<open>creating\<close> show ?thesis by (simp add: fd_ino_close)
  next
    case (Some i)
    with b u have "\<not> is_link_at (w_fs w) i" "open_fd i u = (Inr fd, v)"
      by (auto simp: os_open_at_def open_inode_def split: if_splits)
    then have "fd_ino v fd = i" "w_fs v = w_fs w" using u by (auto simp: open_fd_def fd_ino_def)
    with Some d ne w' fd \<open>\<not> is_link_at (w_fs w) i\<close> show ?thesis by (simp add: fd_ino_close)
  qed
qed

end
