(* ===== verification/OrdinaryFilesFacts.thy ===== *)
theory OrdinaryFilesFacts
imports OrdinaryTransfers
begin

text \<open>
  What the ordinary backend guarantees: the descriptors it holds are those of its handle table, lookups that do
  not follow links stay in the tree, blocks are read exactly, a walk ends within its limits.
\<close>

section \<open>The handle table\<close>

definition otable :: "OrdinaryUidFilesBackend \<Rightarrow> (pystr \<times> OrdinaryReadHandle) list \<times> nat list" where
  "otable s = (o_handles s, fds (o_world s))"

definition ordinary_ok :: "OrdinaryUidFilesBackend \<Rightarrow> bool" where
  "ordinary_ok s \<longleftrightarrow> table_ok oh_fd (otable s) \<and> (o_closed s \<longrightarrow> o_handles s = [])"

lemma otable_drop_read:
  assumes "table_ok oh_fd (otable s)"
  shows "otable (drop_read k s) = drop_entry oh_fd k (otable s)"
  using assms
  by (auto simp: otable_def drop_read_def drop_entry_def close_fds_def table_ok_def distinct_remove1_removeAll removeAll_filter_not_eq
      split: option.split intro!: filter_cong)

lemma otable_drop_all:
  assumes "table_ok oh_fd (otable s)"
  shows "otable (fold drop_read ks s) = fold (drop_entry oh_fd) ks (otable s)"
  using assms by (induction ks arbitrary: s) (simp_all add: otable_drop_read drop_entry_ok)

lemma drop_read_closed [simp]: "o_closed (drop_read k s) = o_closed s"
  by (simp add: drop_read_def split: option.split)

lemma otable_onW:
  assumes "keeps m" and "onW m s = (r, t)"
  shows "otable t = otable s \<and> o_closed t = o_closed s"
proof -
  obtain q u where "m (o_world s) = (q, u)" by fastforce
  with keepsD [OF assms(1) this] assms(2) show ?thesis by (auto simp: onW_def otable_def)
qed

lemma open_ordinary_table:
  assumes ok: "table_ok oh_fd (otable s)" and run: "open_ordinary wording d session mode k s = (r, t)"
  shows "table_ok oh_fd (otable t) \<and> o_closed t = o_closed s"
proof (cases "map_of (o_handles s) k \<noteq> None \<or> MAX_HANDLES \<le> length (o_handles s)")
  case True
  then have "open_ordinary wording d session mode k s = (Inl (ValueError (lit ''File read handle already exists or connection limit reached'')), s)"
    unfolding open_ordinary_def by (rule if_P)
  with run ok show ?thesis by simp
next
  case free: False
  show ?thesis
  proof (cases "native_path wording (dget d (lit ''path''))")
    case (Inl e)
    with free run ok show ?thesis by (simp add: open_ordinary_def)
  next
    case (Inr p)
    obtain q u where o: "open_read p True (o_world s) = (q, u)" by fastforce
    have op: "opened (fds (o_world s)) (q, u)" using opens_open_read [of p True] o by (metis opens_def)
    show ?thesis
    proof (cases q)
      case (Inl e)
      with free run ok Inr o op show ?thesis by (auto simp: open_ordinary_def onW_def otable_def)
    next
      case fd: (Inr fd)
      let ?h = "\<lparr>oh_fd = fd, oh_session = session, oh_mode = mode\<rparr>"
      from op fd have "mset (fds u) = add_mset (oh_fd ?h) (mset (fds (o_world s)))" "oh_fd ?h \<notin> set (fds (o_world s))" by simp_all
      with free ok insert_entry_ok [of oh_fd "o_handles s" "fds (o_world s)" k "fds u" ?h]
      have "table_ok oh_fd (o_handles s @ [(k, ?h)], fds u)" by (simp add: otable_def MAX_HANDLES_def)
      moreover from free run Inr o fd
      have "t = s\<lparr>o_world := u, o_handles := o_handles s @ [(k, ?h)], o_acquired := Some k\<rparr>"
        by (auto simp: open_ordinary_def onW_def)
      ultimately show ?thesis by (simp add: otable_def)
    qed
  qed
qed

lemma read_ordinary_table:
  assumes ok: "table_ok oh_fd (otable s)" and run: "read_ordinary d session k s = (r, t)"
  shows "table_ok oh_fd (otable t) \<and> o_closed t = o_closed s"
proof (cases "map_of (o_handles s) k")
  case None
  with run ok show ?thesis by (simp add: read_ordinary_def Let_def split: if_splits)
next
  case (Some h)
  let ?m = "read_at (oh_fd h) (nat (int_of (dget d (lit ''offset'')))) (nat (int_of (dget d (lit ''len'')))) []"
  obtain q u where o: "onW ?m (s\<lparr>o_acquired := Some k\<rparr>) = (q, u)" by fastforce
  have "otable (s\<lparr>o_acquired := Some k\<rparr>) = otable s" by (simp add: otable_def)
  with otable_onW [OF keeps_read_at o] ok have u: "table_ok oh_fd (otable u)" "o_closed u = o_closed s" by simp_all
  have "t = s \<or> t = u \<or> t = drop_read k u"
    using run Some o unfolding read_ordinary_def Let_def by (cases q) (simp_all split: if_splits)
  with u ok show ?thesis by (auto simp: otable_drop_read drop_entry_ok)
qed

lemma execute_ordinary_table:
  assumes ok: "table_ok oh_fd (otable s)" and run: "execute_ordinary wording m d session mode s = (r, t)"
  shows "table_ok oh_fd (otable t) \<and> o_closed t = o_closed s"
proof -
  obtain q u where k: "onW check s = (q, u)" by fastforce
  have u: "table_ok oh_fd (otable u)" "o_closed u = o_closed s" using otable_onW [OF keeps_check k] ok by simp_all
  consider (unchanged) "t = u" | (dropped) j where "t = drop_read j u"
    | (fresh) j where "open_ordinary wording d session mode j u = (r, t)"
    | (block) j where "read_ordinary d session j u = (r, t)"
    | (path) "onW (execute_path wording m d) u = (r, t)"
    using run unfolding execute_ordinary_def bindS_def [of "onW check"] k Let_def
    by (cases q; cases "encodeE (str_of (dget d (lit ''handleId'')))"; cases "m \<in> set STREAM_METHODS")
       (auto simp: bindS_def liftS_def raiseS_def split: if_splits)
  then show ?thesis
  proof cases
    case dropped
    with u show ?thesis by (simp add: otable_drop_read drop_entry_ok)
  next
    case fresh
    from open_ordinary_table [OF u(1) this] u show ?thesis by simp
  next
    case block
    from read_ordinary_table [OF u(1) this] u show ?thesis by simp
  next
    case path
    from otable_onW [OF keeps_execute_path this] u show ?thesis by simp
  qed (use u in simp)
qed

lemma bind_session_table: "bind_session session s = (r, t) \<Longrightarrow> otable t = otable s \<and> o_closed t = o_closed s"
  by (auto simp: bind_session_def otable_def split: if_splits option.splits)

lemma handle_ordinary_ok:
  assumes ok: "ordinary_ok s" and run: "handle_ordinary wording passes s call = (answer, t)"
  shows "ordinary_ok t"
proof (cases "admit_ordinary wording call")
  case (Inl e)
  with run ok show ?thesis by (simp add: handle_ordinary_def)
next
  case (Inr a)
  obtain d mode where a: "a = (d, mode)" by fastforce
  obtain q u where b: "bind_session (call_session call) s = (q, u)" by fastforce
  from bind_session_table [OF b] have u: "otable u = otable s" "o_closed u = o_closed s" by simp_all
  let ?u = "u\<lparr>o_acquired := None, o_world := (o_world u)\<lparr>w_checks := passes\<rparr>\<rparr>"
  obtain r v where x: "execute_ordinary wording (call_method call) d (call_session call) mode ?u = (r, v)" by fastforce
  have "table_ok oh_fd (otable ?u)" using ok u by (simp add: ordinary_ok_def otable_def)
  from execute_ordinary_table [OF this x] have v: "table_ok oh_fd (otable v)" "o_closed v = o_closed u" by simp_all
  consider "t = u" | "\<not> o_closed u" "t = v" | j where "\<not> o_closed u" "t = drop_read j v"
    using run Inr a b x unfolding handle_ordinary_def Let_def
    by (cases q; cases "o_closed u"; cases passes; cases "o_acquired v") auto
  then show ?thesis
  proof cases
    case 1
    with ok u show ?thesis by (simp add: ordinary_ok_def otable_def)
  next
    case 2
    with v show ?thesis by (simp add: ordinary_ok_def)
  next
    case 3
    with v show ?thesis by (simp add: ordinary_ok_def otable_drop_read drop_entry_ok)
  qed
qed

lemma close_ordinary_ok:
  assumes ok: "ordinary_ok s" and run: "close_ordinary session s = (r, t)"
  shows "ordinary_ok t" and "r = Inr () \<Longrightarrow> o_closed t \<and> otable t = ([], [])"
proof -
  obtain q u where c: "closing_session session s = (q, u)" by fastforce
  then have u: "otable u = otable s" "o_closed u = o_closed s"
    using bind_session_table by (auto simp: closing_session_def split: option.splits if_splits)
  then have okt: "table_ok oh_fd (otable u)" using ok by (simp add: ordinary_ok_def)
  let ?v = "fold drop_read (map fst (o_handles u)) u"
  from drop_all_ok [OF okt] otable_drop_all [OF okt] have v: "otable ?v = ([], [])"
    by (simp add: drop_all_def otable_def)
  then have v': "otable (?v\<lparr>o_closed := True\<rparr>) = ([], [])" by (simp add: otable_def)
  have "table_ok oh_fd ([], [])" by (simp add: table_ok_def)
  then show "ordinary_ok t"
    using run c u ok okt v v'
    by (cases q; cases "o_closed u") (auto simp: close_ordinary_def bindS_def ordinary_ok_def otable_def)
  show "o_closed t \<and> otable t = ([], [])" if "r = Inr ()"
  proof (cases "o_closed u")
    case True
    with ok u have "o_handles s = []" by (simp add: ordinary_ok_def)
    with okt u have "otable u = ([], [])" by (simp add: otable_def table_ok_def)
    with True that run c show ?thesis by (cases q) (auto simp: close_ordinary_def bindS_def)
  next
    case False
    with v' that run c show ?thesis by (cases q) (auto simp: close_ordinary_def bindS_def)
  qed
qed

text \<open>Requests and closings, in any order.\<close>

datatype ordinary_event = Request "nat option" BackendCall | Close "pystr option"

inductive ordinary_step :: "(exn \<Rightarrow> pystr) \<Rightarrow> OrdinaryUidFilesBackend \<Rightarrow> ordinary_event \<Rightarrow> OrdinaryUidFilesBackend \<Rightarrow> bool"
  for wording where
  request: "handle_ordinary wording passes s call = (answer, t) \<Longrightarrow> ordinary_step wording s (Request passes call) t"
| close: "close_ordinary session s = (r, t) \<Longrightarrow> ordinary_step wording s (Close session) t"

inductive_cases ordinary_stepE: "ordinary_step wording s l t"

interpretation ordinary: invariant_system "ordinary_step wording" ordinary_ok
  by unfold_locales (auto elim!: ordinary_stepE intro: handle_ordinary_ok close_ordinary_ok)

text \<open>C5: whatever requests come in whatever order, wherever they are cancelled or fail, the descriptors the
  ordinary backend has open are those of its handle table, each once; there are at most 128, and none once it
  is closed.\<close>

theorem ordinary_descriptors_owned:
  assumes "ordinary_uid_files_backend euid w = Inr s0" and "w_fds w = []" and "run (ordinary_step wording) s0 ls s"
  shows "distinct (fds (o_world s)) \<and> mset (fds (o_world s)) = mset (map (\<lambda>(_, h). oh_fd h) (o_handles s)) \<and>
    distinct (map fst (o_handles s)) \<and> length (o_handles s) \<le> MAX_HANDLES \<and> (o_closed s \<longrightarrow> fds (o_world s) = [])"
proof -
  have "ordinary_ok s0"
    using assms(1,2) by (auto simp: ordinary_uid_files_backend_def ordinary_ok_def otable_def table_ok_def fds_def split: if_splits)
  from ordinary.run_preserves [OF assms(3) this] show ?thesis
    by (auto simp: ordinary_ok_def otable_def table_ok_def MAX_HANDLES_def)
qed


section \<open>The walk ends\<close>

definition walk_ok :: "ordinary_walk \<Rightarrow> walk_state \<Rightarrow> bool" where
  "walk_ok opts s \<longleftrightarrow> ws_count s \<le> ow_entries opts \<and> length (ws_entries s) \<le> ws_count s \<and> ws_size s \<le> WALK_BYTES \<and>
     list_all (\<lambda>(_, depth). depth \<le> ow_depth opts) (ws_queue s)"

lemma append_entry_more:
  assumes "append_entry p dir s = (True, t)"
  shows "length (ws_entries t) = Suc (length (ws_entries s)) \<and> ws_count t = ws_count s \<and> ws_size t \<le> WALK_BYTES \<and> ws_queue t = ws_queue s"
  using assms by (auto simp: append_entry_def grow_def Let_def split: if_splits)

lemma append_error_more:
  assumes "append_error wording p e s = Inr (True, t)"
  shows "ws_entries t = ws_entries s \<and> ws_count t = ws_count s \<and> ws_size t \<le> WALK_BYTES \<and> ws_queue t = ws_queue s"
proof -
  obtain bs where bs: "encodeE (wording e) = Inr bs"
    using assms by (auto simp: append_error_def bindE_Inr_iff)
  obtain c u where g: "grow (length (as_uri p) + length bs) s = (c, u)" by fastforce
  then have "c \<Longrightarrow> ws_entries u = ws_entries s \<and> ws_count u = ws_count s \<and> ws_size u \<le> WALK_BYTES \<and> ws_queue u = ws_queue s"
    by (auto simp: grow_def Let_def split: if_splits)
  with g bs assms show ?thesis by (cases c) (auto simp: append_error_def)
qed

lemma enter_directory_ok:
  "walk_ok opts s \<Longrightarrow> depth < ow_depth opts \<Longrightarrow> walk_ok opts (enter_directory opts depth child identity s)"
  by (auto simp: walk_ok_def enter_directory_def Let_def)

lemma walk_name_ok:
  assumes run: "walk_name wording opts directory depth name s w = (Inr (True, t), w')" and ok: "walk_ok opts s"
  shows "walk_ok opts t"
proof -
  obtain q u where k: "check w = (q, u)" by fastforce
  obtain fname where n: "q = Inr ()" "ws_count s \<noteq> ow_entries opts" "encodeE name = Inr fname"
    using run k by (cases q; cases "encodeE name") (auto simp: walk_name_def bindS_def liftS_def retS_def split: if_splits)
  let ?s = "s\<lparr>ws_count := ws_count s + 1\<rparr>" and ?c = "join_path directory fname"
  have ok1: "walk_ok opts ?s" "length (ws_entries ?s) < ws_count ?s" using ok n(2) by (auto simp: walk_ok_def)
  have error: "walk_ok opts t" if "append_error wording ?c e v = Inr (True, t)" "walk_ok opts v" for e v
    using append_error_more [OF that(1)] that(2) by (simp add: walk_ok_def)
  have entry: "walk_ok opts v" if "append_entry ?c dir ?s = (True, v)" for dir v
    using append_entry_more [OF that] ok1 by (simp add: walk_ok_def)
  obtain r v where st: "stat_path ?c True u = (r, v)" by fastforce
  show ?thesis
  proof (cases r)
    case (Inl e)
    with run k n st error [OF _ ok1(1)] show ?thesis
      by (auto simp: walk_name_def bindS_def liftS_def Let_def split: if_splits)
  next
    case (Inr x)
    obtain i link where x: "x = (i, link)" by fastforce
    obtain b a where a: "append_entry ?c (is_dir_at (w_fs v) i) ?s = (b, a)" by fastforce
    consider (skipped) "t = ?s" | (added) b "t = a" | (failed) e where b "append_error wording ?c e a = Inr (True, t)"
      | (entered) identity where b "depth < ow_depth opts" "t = enter_directory opts depth ?c identity a"
      using run k n st Inr x a by (cases b) (auto simp: walk_name_def bindS_def liftS_def Let_def split: if_splits sum.splits)
    then show ?thesis
      using ok1(1) entry a error enter_directory_ok by cases metis+
  qed
qed

lemma walk_names_ok:
  "walk_names wording opts directory depth ns s w = (Inr (True, t), w') \<Longrightarrow> walk_ok opts s \<Longrightarrow> walk_ok opts t"
proof (induction ns arbitrary: s w)
  case (Cons n ns)
  obtain r u where r: "walk_name wording opts directory depth n s w = (r, u)" by fastforce
  with Cons.prems(1) obtain s' where s': "r = Inr (True, s')" "walk_names wording opts directory depth ns s' u = (Inr (True, t), w')"
    by (cases r) (auto simp: bindS_def retS_def split: if_splits)
  from Cons.IH [OF s'(2)] walk_name_ok [OF r [unfolded s'(1)] Cons.prems(2)] show ?case .
qed (simp add: retS_def)

lemma walk_directory_ok:
  assumes run: "walk_directory wording opts d s w = (Inr (True, t), w')" and ok: "walk_ok opts s"
  shows "walk_ok opts t"
proof -
  obtain directory depth where d: "d = (directory, depth)" by fastforce
  obtain q u where k: "check w = (q, u)" by fastforce
  obtain r v where n: "names directory u = (r, v)" by fastforce
  show ?thesis
  proof (cases r)
    case (Inl e)
    with run d k n ok append_error_more show ?thesis
      by (cases q) (auto simp: walk_directory_def bindS_def walk_ok_def split: if_splits)
  next
    case (Inr ns)
    with run d k n have "walk_names wording opts directory depth (sort (map fst ns)) s v = (Inr (True, t), w')"
      by (cases q) (auto simp: walk_directory_def bindS_def)
    from walk_names_ok [OF this ok] show ?thesis .
  qed
qed

text \<open>A round of the loop, in whatever state the filesystem is by then.\<close>

inductive walk_round :: "(exn \<Rightarrow> pystr) \<Rightarrow> ordinary_walk \<Rightarrow> walk_state \<Rightarrow> world \<Rightarrow> walk_state \<Rightarrow> bool"
  for wording opts where
  round: "ws_queue s = d # q \<Longrightarrow> walk_directory wording opts d (s\<lparr>ws_queue := q\<rparr>) w = (Inr (True, t), w') \<Longrightarrow>
    walk_round wording opts s w t"

inductive_cases walk_roundE: "walk_round wording opts s w t"

lemma walk_ok_queue: "walk_ok opts s \<Longrightarrow> ws_queue s = d # q \<Longrightarrow> walk_ok opts (s\<lparr>ws_queue := q\<rparr>)"
  by (simp add: walk_ok_def)

interpretation walk: invariant_system "walk_round wording opts" "walk_ok opts"
  by unfold_locales (metis walk_roundE walk_directory_ok walk_ok_queue)

lemma walk_round_measure: "walk_round wording opts s w t \<Longrightarrow> walk_work t < walk_work s"
  by (elim walk_roundE) (drule walk_directory_measure, simp add: walk_work_def)

lemma walk_run_length: "run (walk_round wording opts) s ws t \<Longrightarrow> length ws + walk_work t \<le> walk_work s"
proof (induction rule: run.induct)
  case (run_Cons s l t ls u)
  from walk_round_measure [OF run_Cons(1)] run_Cons(3) show ?case by simp
qed simp

definition walk_over :: "(exn \<Rightarrow> pystr) \<Rightarrow> ordinary_walk \<Rightarrow> walk_state \<Rightarrow> world \<Rightarrow> bool" where
  "walk_over wording opts s w \<longleftrightarrow>
     (case ws_queue s of
        [] \<Rightarrow> True
      | d # q \<Rightarrow> (case walk_directory wording opts d (s\<lparr>ws_queue := q\<rparr>) w of (Inr (go, _), _) \<Rightarrow> \<not> go | _ \<Rightarrow> True))"

lemma walk_queue_rounds:
  "\<exists>ws t w'. run (walk_round wording opts) s ws t \<and> walk_queue wording opts s w = walk_queue wording opts t w' \<and> walk_over wording opts t w'"
proof (induction wording opts s w rule: walk_queue.induct)
  case (1 wording opts s w)
  show ?case
  proof (cases "walk_over wording opts s w")
    case True
    then show ?thesis by (metis run.run_Nil)
  next
    case False
    then obtain d q t u where r: "ws_queue s = d # q" "walk_directory wording opts d (s\<lparr>ws_queue := q\<rparr>) w = (Inr (True, t), u)"
      by (auto simp: walk_over_def split: list.splits prod.splits sum.splits)
    obtain ws v w' where ih: "run (walk_round wording opts) t ws v" "walk_queue wording opts t u = walk_queue wording opts v w'"
      "walk_over wording opts v w'"
      using 1 [of d q "Inr (True, t)" u "(True, t)" True t] r by auto
    have "walk_queue wording opts s w = walk_queue wording opts t u"
      using r by (subst walk_queue.simps) simp
    with ih run.run_Cons [OF walk_round.round [OF r] ih(1)] show ?thesis by metis
  qed
qed




section \<open>Examples\<close>

text \<open>A root directory with one file.\<close>

definition example_disk :: vfs where
  "example_disk = \<lparr>inodes = [(0, \<lparr>perm = 493, mtime = 0, alloc = 4096, content = Entries [(lit ''f'', 2)]\<rparr>),
     (2, \<lparr>perm = 420, mtime = 0, alloc = 0, content = Data (lit ''hello'')\<rparr>)], next_ino = 3\<rparr>"

definition example_world :: world where
  "example_world = \<lparr>w_fs = example_disk, w_fds = [], w_checks = None, w_io = [None, Some 1, Some 2]\<rparr>"

definition example_file :: posix_path where "example_file = PosixPath False [lit ''f'']"

lemma example_content: "content_at example_disk 0 = Entries [(lit ''f'', 2)]" "content_at example_disk 2 = Data (lit ''hello'')"
  by (simp_all add: content_at_def node_at_def example_disk_def)

lemma example_found: "find_path example_disk True example_file = Inr (At [2, 0])"
  by (simp add: find_path_def example_file_def locate.simps(2) is_dir_at_def entries_at_def example_content) (simp add: lit_def)

theorem nofollow_open_in_place_witness:
  "\<exists>fd w'. open_file example_file False False example_world = (Inr fd, w') \<and> fd_ino w' fd = 2 \<and> w_fs w' = example_disk"
proof -
  have "free_fd (w\<lparr>w_fds := [(0, 0, 0)]\<rparr>) = 1" for w by (simp add: free_fd_def)
  moreover have "free_fd example_world = 0" by (simp add: free_fd_def example_world_def)
  ultimately obtain fd w' where o: "open_file example_file False False example_world = (Inr fd, w')"
    by (simp add: open_file_def with_parent_def example_file_def path_parts_def bindS_def liftS_def retS_def finallyS_def open_fd_def
        os_open_at_def is_link_at_def entries_at_def example_content open_inode_def example_world_def lit_def)
  have "is_dir_at (w_fs example_world) 0" by (simp add: is_dir_at_def example_world_def example_content)
  from nofollow_open_in_place [OF o this] o show ?thesis
    by (auto simp: example_file_def example_world_def entries_at_def example_content)
qed

theorem read_block_exact_witness:
  "fst (read_ordinary [(lit ''len'', JInt (int 9)), (lit ''offset'', JInt (int 1))] (lit ''s'') (lit ''h'')
      \<lparr>o_session = Some (lit ''s''), o_closed = False, o_handles = [(lit ''h'', \<lparr>oh_fd = 3, oh_session = lit ''s'', oh_mode = ordinary_mode\<rparr>)],
       o_world = example_world\<lparr>w_fds := [(3, 2, 0)]\<rparr>, o_acquired = None\<rparr>) =
    Inr (JObj [(lit ''chunk'', JStr (b64encode (lit ''ello''))), (lit ''eof'', JBool True)])"
  by (subst read_block_exact [where h = "\<lparr>oh_fd = 3, oh_session = lit ''s'', oh_mode = ordinary_mode\<rparr>" and len = 9 and offset = 1])
     (simp_all add: MAX_BLOCK_def example_world_def data_at_def example_content fd_ino_def Let_def, simp_all add: lit_def)


definition example_walk :: json where
  "example_walk = JObj [(lit ''maxDepth'', JInt 3), (lit ''maxDirectories'', JInt 5), (lit ''maxEntries'', JInt 7),
     (lit ''followDirectorySymlinks'', JBool True)]"


definition example_read :: json where
  "example_read = JObj [(lit ''path'', jlit ''file:///f''), (lit ''handleId'', jlit ''h'')]"

definition example_read_call :: BackendCall where
  "example_read_call = \<lparr>call_session = lit ''s'', call_request = jlit ''r'', call_method = lit ''fs/open'',
     params_json = (case dump_bytes example_read of Inl _ \<Rightarrow> [] | Inr bs \<Rightarrow> bs), trace_json = None\<rparr>"

lemma example_read_url: "urlsplit (lit ''file:///f'') = Some \<lparr>scheme = lit ''file'', netloc = [], path = lit ''/f'', query = [], fragment = []\<rparr>"
  using urlsplit_file [of "lit ''f''"] by (simp add: lit_def)

lemma example_read_admitted: "admit_ordinary (\<lambda>_. []) example_read_call = Inr (obj_of example_read, ordinary_mode)"
proof -
  have "encodable example_read" "wf_json example_read" "float_free example_read"
    by (simp_all add: example_read_def) (simp_all add: lit_def is_scalar_def)
  moreover from this(1) obtain bs where bs: "dump_bytes example_read = Inr bs" using dump_bytes_total by blast
  ultimately have "loads_bytes plain_pairs plain_constant bs = Inr example_read"
    by (intro loads_dump_bytes plain_pairs_distinct)
  with bs have params: "call_params example_read_call = Inr example_read" by (simp add: call_params_def example_read_call_def)
  have "map_of schemas (lit ''fs/open'') = Some (map lit [''path'', ''handleId''], map lit [''sandbox''])"
    by (simp add: schemas_def)
  then have "validate_operation (lit ''fs/open'') example_read = Inr ()"
    by (simp add: validate_operation_def check_fields_def example_read_def check_param_def check_type_def check_uri_def example_read_url)
      (simp add: lit_def)
  moreover have "lit ''fs/open'' \<in> set FILE_METHODS" "lit ''fs/open'' \<notin> set STREAM_LIFECYCLE"
    by (simp_all add: FILE_METHODS_def STREAM_LIFECYCLE_def)
  moreover have "dget (obj_of example_read) (lit ''sandbox'') = JNull" by (simp add: example_read_def)
  ultimately show ?thesis
    using params by (simp add: admit_ordinary_def validate_ordinary_filesystem_context_def) (simp add: example_read_call_def)
qed

lemma example_native_path: "native_path wording (jlit ''file:///f'') = Inr example_file"
proof -
  have "unquote_to_bytes (lit ''/f'') = Inr (lit ''/f'')"
    by (simp add: unquote_to_bytes_def utf8_encode_def is_scalar_def lit_def)
  then show ?thesis
    by (simp add: native_path_def example_read_url windows_drive_def path_of_def example_file_def) (simp add: lit_def)
qed

text \<open>The file is opened for a session, which then ends.\<close>

theorem ordinary_descriptors_owned_witness:
  "\<exists>s0 s t. ordinary_uid_files_backend 1000 example_world = Inr s0 \<and>
    run (ordinary_step (\<lambda>_. [])) s0 [Request None example_read_call] s \<and> length (o_handles s) = 1 \<and> length (fds (o_world s)) = 1 \<and>
    run (ordinary_step (\<lambda>_. [])) s0 [Request None example_read_call, Close (Some (lit ''s''))] t \<and> fds (o_world t) = []"
proof -
  let ?fresh = "\<lparr>o_session = None, o_closed = False, o_handles = [], o_world = example_world, o_acquired = None\<rparr>"
  have s0: "ordinary_uid_files_backend 1000 example_world = Inr ?fresh" by (simp add: ordinary_uid_files_backend_def)
  have fds: "w_fds example_world = []" by (simp add: example_world_def)
  have o: "open_read example_file True example_world = (Inr 0, example_world\<lparr>w_fds := [(0, 2, 0)]\<rparr>)"
    using example_found
    by (simp add: open_read_def open_file_def bindS_def os_open_def open_inode_def open_fd_def free_fd_def example_world_def
        is_file_at_def fd_ino_def example_content)
  have call: "call_session example_read_call = lit ''s''" "call_method example_read_call = lit ''fs/open''"
    by (simp_all add: example_read_call_def)
  let ?bound = "?fresh\<lparr>o_session := Some (lit ''s'')\<rparr>"
  have bind: "bind_session (lit ''s'') ?fresh = (Inr (), ?bound)" by (simp add: bind_session_def) (simp add: lit_def)
  let ?held = "?bound\<lparr>o_world := example_world\<lparr>w_fds := [(0, 2, 0)]\<rparr>,
      o_handles := [(lit ''h'', \<lparr>oh_fd = 0, oh_session = lit ''s'', oh_mode = ordinary_mode\<rparr>)], o_acquired := Some (lit ''h'')\<rparr>"
  have "encodeE (lit ''h'') = Inr (lit ''h'')" by (simp add: encodeE_def utf8_encode_def lit_def is_scalar_def)
  moreover have "str_of (dget (obj_of example_read) (lit ''handleId'')) = lit ''h''" "dget (obj_of example_read) (lit ''path'') = jlit ''file:///f''"
    by (simp_all add: example_read_def)
  moreover have "lit ''fs/open'' \<in> set STREAM_METHODS" "w_checks example_world = None"
    by (simp_all add: STREAM_METHODS_def example_world_def)
  moreover have "open_ordinary (\<lambda>_. []) (obj_of example_read) (lit ''s'') ordinary_mode (lit ''h'') ?bound =
      (Inr (JObj [(lit ''handleId'', jlit ''h'')]), ?held)"
    using o example_native_path calculation by (simp add: open_ordinary_def onW_def MAX_HANDLES_def)
  ultimately have "execute_ordinary (\<lambda>_. []) (lit ''fs/open'') (obj_of example_read) (lit ''s'') ordinary_mode ?bound =
      (Inr (JObj [(lit ''handleId'', jlit ''h'')]), ?held)"
    by (simp add: execute_ordinary_def bindS_def onW_def liftS_def MAX_HANDLE_BYTES_def lit_def Let_def)
  moreover have "?bound\<lparr>o_acquired := None, o_world := (o_world ?bound)\<lparr>w_checks := None\<rparr>\<rparr> = ?bound" by (simp add: example_world_def)
  ultimately have "handle_ordinary (\<lambda>_. []) None ?fresh example_read_call = (Some (Inr (JObj [(lit ''handleId'', jlit ''h'')])), ?held)"
    using example_read_admitted call bind by (simp add: handle_ordinary_def)
  then obtain s where s: "handle_ordinary (\<lambda>_. []) None ?fresh example_read_call = (Some (Inr (JObj [(lit ''handleId'', jlit ''h'')])), s)"
      and held: "length (o_handles s) = 1" "o_session s = Some (lit ''s'')"
    by simp
  obtain t where t: "close_ordinary (Some (lit ''s'')) s = (Inr (), t)" "o_closed t"
    using held(2)
    by (cases "o_closed s") (auto simp: close_ordinary_def closing_session_def bind_session_def bindS_def lit_def)
  have open_run: "run (ordinary_step (\<lambda>_. [])) ?fresh [Request None example_read_call] s"
    using s by (auto simp: run_Cons_iff intro: ordinary_step.request)
  have close_run: "run (ordinary_step (\<lambda>_. [])) ?fresh [Request None example_read_call, Close (Some (lit ''s''))] t"
    using s t(1) by (auto simp: run_Cons_iff intro: ordinary_step.request ordinary_step.close)
  have "mset (fds (o_world s)) = mset (map (\<lambda>(_, h). oh_fd h) (o_handles s))"
    using ordinary_descriptors_owned [OF s0 fds open_run] by simp
  from arg_cong [OF this, of size] held(1) have "length (fds (o_world s)) = 1" by simp
  moreover have "fds (o_world t) = []"
    using ordinary_descriptors_owned [OF s0 fds close_run] t(2) by simp
  ultimately show ?thesis using s0 held(1) open_run close_run by blast
qed

end
