(* ===== verification/ProcessPolicy.thy ===== *)
theory ProcessPolicy
  imports NativeFilesFacts
begin

text \<open>
  The acquisition policy of \<open>native_process_policy.py\<close>: strict decoding of the control messages of the
  native supervisor, the admission of a process's policy and the decision on every path the process
  opens.  The theorem says that an allowed acquisition is one the policy allows.
\<close>

section \<open>Control messages\<close>

fun control_fields :: "dict \<Rightarrow> (pystr \<times> json) list \<Rightarrow> exn + dict" where
  "control_fields r [] = Inr r"
| "control_fields r ((k, v) # ps) =
     (if has_key r k then Inl (ValueError (lit ''Duplicate native control field''))
      else control_fields (r @ [(k, v)]) ps)"

definition control_pairs :: pairs_hook where
  "control_pairs ps = bindE (control_fields [] ps) (\<lambda>d. Inr (JObj d))"

definition control_constant :: const_hook where
  "control_constant w = Inl (ValueError (lit ''Nonfinite control value''))"

definition decode_control :: "pybytes \<Rightarrow> exn + json" where
  "decode_control data = loads_bytes control_pairs control_constant data"

section \<open>Admission\<close>

record NativeProcessPolicy =
  pp_policy :: ManagedPolicy
  pp_backend :: NativeFilesBackend
  owns_backend :: bool
  decisions :: "json list"

text \<open>\<open>__init__\<close>, for a backend that is lent or was just created.\<close>

definition native_process_policy ::
    "nat \<Rightarrow> fsnode \<Rightarrow> NativeFilesBackend \<Rightarrow> bool \<Rightarrow> json \<Rightarrow> pystr \<Rightarrow> pystr \<Rightarrow> exn + NativeProcessPolicy" where
  "native_process_policy uid tree b owned context session_id request_id =
     bindE (prepare_policy_intent context session_id request_id (lit ''process/start'')) (\<lambda>intent.
     bindE (parse_context_bytes (context_json intent)) (\<lambda>policy.
       if cwd policy \<noteq> mount b
       then Inl (ValueError (lit ''The initial native process profile requires its pinned workspace cwd''))
       else bindE (inspect uid (mount b) tree) (\<lambda>_.
         Inr \<lparr>pp_policy = policy, pp_backend = b, owns_backend = owned, decisions = []\<rparr>)))"

section \<open>Decisions\<close>

definition OPEN_FIELDS :: "pystr list" where
  "OPEN_FIELDS = map lit [''type'', ''id'', ''syscall'', ''flags'', ''mode'', ''pathHex'', ''pid'', ''pathAddress'', ''howAddress'']"

definition OPEN_INTEGERS :: "pystr list" where
  "OPEN_INTEGERS = map lit [''id'', ''syscall'', ''flags'', ''mode'', ''pid'', ''pathAddress'', ''howAddress'']"

text \<open>\<open>flags & os.O_ACCMODE\<close>, \<open>os.O_TRUNC\<close> and \<open>os.O_CREAT\<close> on Linux.\<close>

definition access_mode :: "nat \<Rightarrow> nat" where
  "access_mode flags = flags mod 4"

definition opens_reading :: "nat \<Rightarrow> bool" where
  "opens_reading flags = (access_mode flags \<noteq> 1)"

definition opens_writing :: "nat \<Rightarrow> bool \<Rightarrow> bool" where
  "opens_writing flags missing =
     (access_mode flags \<noteq> 0 \<or> flags div 512 mod 2 = 1 \<or> flags div 64 mod 2 = 1 \<and> missing)"

definition open_message :: "json \<Rightarrow> exn + dict" where
  "open_message message =
     (let d = obj_of message in
      if \<not> is_obj message \<or> set (dkeys d) \<noteq> set OPEN_FIELDS \<or> dget d (lit ''type'') \<noteq> jlit ''open'' \<or>
         \<not> is_str (dget d (lit ''pathHex''))
      then Inl (ValueError (lit ''Invalid native acquisition request''))
      else if list_ex (\<lambda>k. \<not> int_within 0 (2 ^ 64) (dget d k)) OPEN_INTEGERS
      then Inl (ValueError (lit ''Invalid native acquisition integer''))
      else Inr d)"

definition open_path :: "pystr \<Rightarrow> exn + pystr list" where
  "open_path path_hex =
     (case fromhex path_hex of
        None \<Rightarrow> Inl (ValueError (lit ''fromhex''))
      | Some raw \<Rightarrow>
          if raw = [] \<or> 4096 \<le> length raw \<or> hexlify raw \<noteq> path_hex
          then Inl (ValueError (lit ''Invalid copied native pathname''))
          else (case utf8_decode raw of
              None \<Rightarrow> Inl UnicodeError
            | Some text \<Rightarrow>
                if list_ex (\<lambda>p. p = [] \<or> p \<in> set dots \<or> 0 \<in> set p) (split_on 47 text)
                then Inl (ValueError (lit ''Invalid native relative pathname''))
                else Inr (split_on 47 text)))"

text \<open>The \<open>try: ... except PermissionError: allowed = False\<close> block.\<close>

definition write_allowed :: "ManagedPolicy \<Rightarrow> GuestPath \<Rightarrow> GuestPath list \<Rightarrow> exn + bool" where
  "write_allowed policy guest metadata =
     (case require_write policy guest metadata of
        Inr _ \<Rightarrow> Inr (last (parts guest) \<noteq> lit ''.git'')
      | Inl (PermissionError _) \<Rightarrow> Inr False
      | Inl e \<Rightarrow> Inl e)"

definition device_of :: "st_info option \<Rightarrow> json" where
  "device_of i = JInt (case i of None \<Rightarrow> 0 | Some s \<Rightarrow> int (st_dev s))"

definition inode_of :: "st_info option \<Rightarrow> json" where
  "inode_of i = JInt (case i of None \<Rightarrow> 0 | Some s \<Rightarrow> int (st_ino s))"

definition decide_open ::
    "nat \<Rightarrow> fsnode \<Rightarrow> NativeProcessPolicy \<Rightarrow> json \<Rightarrow> exn + NativeProcessPolicy \<times> json" where
  "decide_open uid tree pp message =
     bindE (open_message message) (\<lambda>d.
     bindE (open_path (str_of (dget d (lit ''pathHex'')))) (\<lambda>ps.
       let mnt = mount (pp_backend pp); guest = gappend mnt ps; policy = pp_policy pp in
       bindE (inspect uid mnt tree) (\<lambda>s.
       let target = map_of (seen_nodes s) ps; parent = map_of (seen_directories s) (butlast ps) in
       bindE (guest_uri guest) (\<lambda>uri.
       bindE (decide_uri policy uri) (\<lambda>decision.
       let flags = nat (int_of (dget d (lit ''flags'')));
           reading = opens_reading flags;
           writing = opens_writing flags (target = None) in
       bindE (if writing then write_allowed policy guest (seen_metadata s) else Inr True) (\<lambda>granted.
       let allowed = ((\<not> reading \<or> can_read decision) \<and> granted \<and>
             (case target of None \<Rightarrow> True | Some i \<Rightarrow> is_reg i)) in
       Inr (pp\<lparr>decisions := decisions pp @
              [JObj [(lit ''path'', JStr uri), (lit ''reading'', JBool reading), (lit ''writing'', JBool writing),
                     (lit ''allowed'', JBool allowed), (lit ''syscall'', dget d (lit ''syscall''))]]\<rparr>,
            JObj [(lit ''id'', dget d (lit ''id'')), (lit ''allow'', JInt (if allowed then 1 else 0)),
                  (lit ''device'', device_of target), (lit ''inode'', inode_of target),
                  (lit ''parentDevice'', device_of parent), (lit ''parentInode'', inode_of parent)])))))))"

definition close_policy :: "NativeProcessPolicy \<Rightarrow> NativeProcessPolicy" where
  "close_policy pp =
     (if owns_backend pp \<and> \<not> fs_closed (pp_backend pp)
      then pp\<lparr>pp_backend := (pp_backend pp)\<lparr>fs_closed := True\<rparr>\<rparr> else pp)"

section \<open>Allowed acquisitions\<close>

lemma decide_open_steps:
  assumes "decide_open uid tree pp message = Inr (pp', response)"
  obtains d ps s uri decision granted where
    "open_message message = Inr d" "open_path (str_of (dget d (lit ''pathHex''))) = Inr ps"
    "inspect uid (mount (pp_backend pp)) tree = Inr s"
    "guest_uri (gappend (mount (pp_backend pp)) ps) = Inr uri" "decide_uri (pp_policy pp) uri = Inr decision"
    "opens_writing (nat (int_of (dget d (lit ''flags'')))) (map_of (seen_nodes s) ps = None) \<Longrightarrow>
       write_allowed (pp_policy pp) (gappend (mount (pp_backend pp)) ps) (seen_metadata s) = Inr granted"
    "dget (obj_of response) (lit ''allow'') = JInt 1 \<Longrightarrow>
       (opens_reading (nat (int_of (dget d (lit ''flags'')))) \<longrightarrow> can_read decision) \<and> granted \<and>
       (case map_of (seen_nodes s) ps of None \<Rightarrow> True | Some i \<Rightarrow> is_reg i)"
    "dget (obj_of response) (lit ''device'') = device_of (map_of (seen_nodes s) ps)"
    "dget (obj_of response) (lit ''inode'') = inode_of (map_of (seen_nodes s) ps)"
  using assms unfolding decide_open_def Let_def
  by (elim bindE_InrE) (rule that, (assumption | auto split: if_splits)+)

lemma write_allowed_writable:
  assumes "write_allowed policy guest (seen_metadata s) = Inr True" and "inspect uid mnt tree = Inr s" and "wf_tree tree"
  shows "writable mnt tree policy guest" and "last (parts guest) \<noteq> lit ''.git''"
proof -
  have "require_write policy guest (seen_metadata s) = Inr ()" "last (parts guest) \<noteq> lit ''.git''"
    using assms(1) by (auto simp: write_allowed_def split: sum.splits exn.splits)
  then show "writable mnt tree policy guest" "last (parts guest) \<noteq> lit ''.git''"
    using require_write_writable [OF _ assms(2,3)] by auto
qed

text \<open>C18: when the native supervisor is told to let a process open a path, the path is a relative one
  inside the workspace, a read is readable and a write (also by truncation or creation) is writable under
  the process's policy, existing metadata directories stay protected, no \<open>.git\<close> file is created, and what
  exists there is a regular file whose device and inode the reply names.\<close>

theorem acquisitions_are_authorised:
  assumes "decide_open uid tree pp message = Inr (pp', response)" and "dget (obj_of response) (lit ''allow'') = JInt 1"
    and "wf_tree tree" and "is_dir (node_info tree)"
  shows "\<exists>ps. open_path (str_of (dget (obj_of message) (lit ''pathHex''))) = Inr ps \<and>
    (let guest = gappend (mount (pp_backend pp)) ps;
         flags = nat (int_of (dget (obj_of message) (lit ''flags''))); target = map_option node_info (lookup tree ps) in
     (opens_reading flags \<longrightarrow> readable (pp_policy pp) guest) \<and>
     (opens_writing flags (target = None) \<longrightarrow>
        writable (mount (pp_backend pp)) tree (pp_policy pp) guest \<and> last (parts guest) \<noteq> lit ''.git'') \<and>
     (case target of None \<Rightarrow> True | Some i \<Rightarrow> is_reg i \<and>
        dget (obj_of response) (lit ''device'') = JInt (st_dev i) \<and> dget (obj_of response) (lit ''inode'') = JInt (st_ino i)))"
  using assms(1)
proof (rule decide_open_steps)
  fix d ps uri decision granted and s :: inspection
  let ?guest = "gappend (mount (pp_backend pp)) ps" and ?flags = "nat (int_of (dget d (lit ''flags'')))"
  let ?target = "map_of (seen_nodes s) ps"
  assume d: "open_message message = Inr d" and ps: "open_path (str_of (dget d (lit ''pathHex''))) = Inr ps"
    and s: "inspect uid (mount (pp_backend pp)) tree = Inr s"
    and uri: "guest_uri ?guest = Inr uri" "decide_uri (pp_policy pp) uri = Inr decision"
    and w: "opens_writing ?flags (?target = None) \<Longrightarrow> write_allowed (pp_policy pp) ?guest (seen_metadata s) = Inr granted"
    and ok: "dget (obj_of response) (lit ''allow'') = JInt 1 \<Longrightarrow>
       (opens_reading ?flags \<longrightarrow> can_read decision) \<and> granted \<and> (case ?target of None \<Rightarrow> True | Some i \<Rightarrow> is_reg i)"
    and ids: "dget (obj_of response) (lit ''device'') = device_of ?target" "dget (obj_of response) (lit ''inode'') = inode_of ?target"
  have "d = obj_of message"
    using d by (auto simp: open_message_def Let_def split: if_splits)
  moreover have "?target = map_option node_info (lookup tree ps)"
    by (rule inspected_node [OF s assms(3,4)])
  moreover have "opens_reading ?flags \<longrightarrow> readable (pp_policy pp) ?guest"
    using ok [OF assms(2)] uri by (auto simp: readable_def decide_path_def)
  moreover have "opens_writing ?flags (?target = None) \<longrightarrow> writable (mount (pp_backend pp)) tree (pp_policy pp) ?guest \<and>
      last (parts ?guest) \<noteq> lit ''.git''"
    using w ok [OF assms(2)] write_allowed_writable [OF _ s assms(3)] by auto
  moreover have "case ?target of None \<Rightarrow> True | Some i \<Rightarrow> is_reg i \<and>
      dget (obj_of response) (lit ''device'') = JInt (st_dev i) \<and> dget (obj_of response) (lit ''inode'') = JInt (st_ino i)"
    using ok [OF assms(2)] ids by (auto simp: device_of_def inode_of_def split: option.splits)
  ultimately show ?thesis
    using ps by (auto simp: Let_def)
qed

definition example_pp :: NativeProcessPolicy where
  "example_pp = \<lparr>pp_policy = example_policy, pp_backend = example_files, owns_backend = True, decisions = []\<rparr>"

definition example_open :: json where
  "example_open = JObj [(lit ''type'', jlit ''open''), (lit ''id'', JInt 1), (lit ''syscall'', JInt 56), (lit ''flags'', JInt 65),
     (lit ''mode'', JInt 0), (lit ''pathHex'', jlit ''61''), (lit ''pid'', JInt 5), (lit ''pathAddress'', JInt 0),
     (lit ''howAddress'', JInt 0)]"


lemma example_decide:
  "\<exists>pp' response. decide_open 1000 example_tree example_pp example_open = Inr (pp', response) \<and>
     dget (obj_of response) (lit ''allow'') = JInt 1"
proof -
  let ?g = "GuestPath [lit ''w'', lit ''a'']"
  have "open_message example_open = Inr (obj_of example_open)"
    by (auto simp: open_message_def example_open_def OPEN_FIELDS_def OPEN_INTEGERS_def int_within_def Let_def)
  moreover have "open_path (lit ''61'') = Inr [lit ''a'']"
    by (simp add: open_path_def lit_def is_hexspace_def hexpair_def hexval_def hex_lower_def dots_def)
  moreover have "inspect 1000 (mount example_files) example_tree = Inr
    \<lparr>seen_metadata = [], seen_directories = [([], node_info example_tree)], seen_count = 0, seen_nodes = [([], node_info example_tree)]\<rparr>"
    by (simp add: inspect_def example_tree_def)
  moreover have "guest_uri ?g = Inr (uri_text ?g)"
    by (rule guest_uri_text [OF example_file_path(1)])
  moreover have "decide_uri example_policy (uri_text ?g) = Inr (decide_guest example_policy ?g)"
    by (simp add: decide_uri_def from_uri_uri_text [OF example_file_path(1)])
  moreover have "can_write (decide_guest example_policy ?g)"
    by (simp add: can_write_def decide_guest_def example_policy_def resolve_def targets_def gappend_def
        contains_def entry_protects_def METADATA_NAMES_def Let_def)
  moreover from this have "write_allowed example_policy ?g [] = Inr True"
    using decide_path_wf [OF example_file_path(1)] by (simp add: write_allowed_def require_write_def)
  ultimately show ?thesis
    by (simp add: decide_open_def example_pp_def example_files_def example_open_def gappend_def
        opens_reading_def opens_writing_def access_mode_def Let_def)
qed

theorem acquisitions_are_authorised_witness:
  "\<exists>ps. open_path (str_of (dget (obj_of example_open) (lit ''pathHex''))) = Inr ps \<and>
    writable (mount example_files) example_tree example_policy (gappend (mount example_files) ps)"
proof -
  obtain pp' response where "decide_open 1000 example_tree example_pp example_open = Inr (pp', response)"
    "dget (obj_of response) (lit ''allow'') = JInt 1"
    using example_decide by blast
  from acquisitions_are_authorised [OF this] obtain ps where
    ps: "open_path (str_of (dget (obj_of example_open) (lit ''pathHex''))) = Inr ps"
    and w: "opens_writing 65 (lookup example_tree ps = None) \<longrightarrow>
      writable (mount example_files) example_tree example_policy (gappend (mount example_files) ps)"
    by (auto simp: Let_def example_tree_def is_dir_def ifmt_def example_open_def example_pp_def)
  then show ?thesis
    by (auto simp: opens_writing_def access_mode_def)
qed

end
