(* ===== verification/NativeProcesses.thy ===== *)
theory NativeProcesses
  imports ProcessPolicy ExecTransport Environment
begin

text \<open>
  The records of \<open>native_processes.py\<close>: one started process with its retained output, its queue of
  accepted input, its notifications and the observations of the native supervisor.  asyncio runs one
  coroutine at a time, so the code between two \<open>await\<close>s is one function on the record.  Whether a
  packet could be sent to the supervisor and whether a signal was delivered are inputs.
\<close>

section \<open>Bounds\<close>

definition METHODS :: "pystr list" where
  "METHODS = map lit [''process/start'', ''process/read'', ''process/write'', ''process/signal'', ''process/terminate'']"

definition RETAINED_BYTES :: nat where "RETAINED_BYTES = 1024 * 1024"
definition RETAINED_CHUNKS :: nat where "RETAINED_CHUNKS = 50000"
definition RETAINED_WRITE_IDS :: nat where "RETAINED_WRITE_IDS = 4096"
definition STDIN_BYTES :: nat where "STDIN_BYTES = 1024 * 1024"
definition NOTIFICATION_CAPACITY :: nat where "NOTIFICATION_CAPACITY = 128"

record NativeProcessLimits =
  wall_ms :: int
  address_space_bytes :: int
  output_bytes :: int
  uid_task_budget :: int

definition native_process_limits :: "int \<Rightarrow> int \<Rightarrow> int \<Rightarrow> int \<Rightarrow> exn + NativeProcessLimits" where
  "native_process_limits wall address output tasks =
     (if list_all (\<lambda>(v, lower, upper). lower \<le> v \<and> v \<le> upper)
           [(wall, 1, 3600000), (address, 16777216, 17179869184), (output, 1, 67108864), (tasks, 1, 2 ^ 32 - 1)]
      then Inr \<lparr>wall_ms = wall, address_space_bytes = address, output_bytes = output, uid_task_budget = tasks\<rparr>
      else Inl (ValueError (lit ''Invalid declared native process resource allowance'')))"

section \<open>The record\<close>

datatype pstate = Starting | Running | Complete

text \<open>The future \<open>started\<close>.\<close>

datatype future = Unset | Resolved | Rejected exn

type_synonym chunk = dict
type_synonym notification = "pystr \<times> dict"

record Process =
  p_session :: pystr
  p_key :: pystr
  p_params :: dict
  p_request :: json
  p_argv :: "pystr list"
  p_environment :: pybytes
  p_started :: future
  p_finished :: bool
  p_state :: pstate
  p_policy :: "NativeProcessPolicy option"
  p_spawned :: bool
  p_returncode :: "int option"
  p_command :: "pybytes option"
  p_stdin :: bool
  stdin_closed :: bool
  termination_requested :: bool
  p_output :: "(chunk \<times> nat) list"
  retained_bytes :: nat
  next_seq :: int
  exit_code :: "int option"
  p_closed :: bool
  p_failure :: "pystr option"
  sandbox_denied :: bool
  p_writes :: "pybytes list"
  queued_bytes :: nat
  accepted_ids :: "pystr list"
  notifications :: "notification option list"
  native_started :: "json option"
  native_result :: "json option"
  setup_diagnostic :: pybytes
  supervisor_fd :: bool
  supervisor_signals :: "(nat \<times> bool) list"
  stdout_count :: nat
  stderr_count :: nat

definition new_process :: "BackendCall \<Rightarrow> dict \<Rightarrow> pystr list \<Rightarrow> pybytes \<Rightarrow> Process" where
  "new_process call params argv environment =
     \<lparr>p_session = call_session call, p_key = str_of (dget params (lit ''processId'')), p_params = params,
      p_request = call_request call, p_argv = argv, p_environment = environment, p_started = Unset, p_finished = False,
      p_state = Starting, p_policy = None, p_spawned = False, p_returncode = None, p_command = None, p_stdin = False,
      stdin_closed = False, termination_requested = False, p_output = [], retained_bytes = 0, next_seq = 1,
      exit_code = None, p_closed = False, p_failure = None, sandbox_denied = False, p_writes = [], queued_bytes = 0,
      accepted_ids = [], notifications = [], native_started = None, native_result = None, setup_diagnostic = [],
      supervisor_fd = False, supervisor_signals = [], stdout_count = 0, stderr_count = 0\<rparr>"

section \<open>Termination\<close>

text \<open>\<open>_signal_supervisor\<close>: \<open>delivered\<close> is the answer of \<open>pidfd_send_signal\<close>.\<close>

definition signal_supervisor :: "bool \<Rightarrow> nat \<Rightarrow> Process \<Rightarrow> Process" where
  "signal_supervisor delivered signum r =
     (if \<not> supervisor_fd r then r else r\<lparr>supervisor_signals := supervisor_signals r @ [(signum, delivered)]\<rparr>)"

text \<open>\<open>_terminate\<close>: \<open>sent\<close> says whether the packet \<open>T\<close> went out; \<open>15\<close> is \<open>SIGTERM\<close>.\<close>

definition terminate :: "bool \<Rightarrow> bool \<Rightarrow> Process \<Rightarrow> Process" where
  "terminate sent delivered r =
     (let r = r\<lparr>termination_requested := True\<rparr> in
      case p_command r of
        None \<Rightarrow> r
      | Some packets \<Rightarrow>
          if sent then r\<lparr>p_command := Some (packets @ [84])\<rparr>
          else if p_spawned r \<and> p_returncode r = None then signal_supervisor delivered 15 r else r)"

section \<open>Output and notifications\<close>

text \<open>The eviction loop of \<open>_event\<close>.\<close>

fun evict :: "(chunk \<times> nat) list \<Rightarrow> nat \<Rightarrow> (chunk \<times> nat) list \<times> nat" where
  "evict [] retained = ([], retained)"
| "evict ((c, n) # out) retained =
     (if RETAINED_BYTES < retained \<or> RETAINED_CHUNKS < length ((c, n) # out) then evict out (retained - n)
      else ((c, n) # out, retained))"

definition retain :: "chunk \<Rightarrow> nat \<Rightarrow> Process \<Rightarrow> Process" where
  "retain c n r =
     (let (out, retained) = evict (p_output r @ [(c, n)]) (retained_bytes r + n) in
      r\<lparr>p_output := out, retained_bytes := retained\<rparr>)"

text \<open>\<open>record.notifications.put_nowait(item)\<close>.\<close>

definition put_notification :: "bool \<Rightarrow> bool \<Rightarrow> notification \<Rightarrow> Process \<Rightarrow> Process" where
  "put_notification sent delivered item r =
     (if length (notifications r) < NOTIFICATION_CAPACITY
      then r\<lparr>notifications := notifications r @ [Some item]\<rparr>
      else terminate sent delivered (r\<lparr>p_failure := Some (lit ''Native process notification capacity exhausted'')\<rparr>))"

definition event :: "bool \<Rightarrow> bool \<Rightarrow> pystr \<Rightarrow> dict \<Rightarrow> Process \<Rightarrow> exn + Process" where
  "event sent delivered m payload r =
     (let seq = next_seq r; r = r\<lparr>next_seq := seq + 1\<rparr>;
          item = (m, (lit ''processId'', JStr (p_key r)) # (lit ''seq'', JInt seq) # payload) in
      bindE (if m = lit ''process/output''
             then (case b64decode (str_of (dget payload (lit ''chunk''))) of
                     None \<Rightarrow> Inl BinasciiError
                   | Some data \<Rightarrow> Inr (retain ((lit ''seq'', JInt seq) # payload) (length data) r))
             else Inr r)
        (\<lambda>r. Inr (put_notification sent delivered item r)))"

text \<open>One round of \<open>_notify\<close>; \<open>ok\<close> says whether the client's \<open>notify\<close> returned.\<close>

definition notify_next :: "bool \<Rightarrow> bool \<Rightarrow> bool \<Rightarrow> Process \<Rightarrow> Process" where
  "notify_next ok sent delivered r =
     (case notifications r of
        [] \<Rightarrow> r
      | None # rest \<Rightarrow> r\<lparr>notifications := rest\<rparr>
      | Some item # rest \<Rightarrow>
          let r = r\<lparr>notifications := rest\<rparr> in
          if ok then r
          else terminate sent delivered (r\<lparr>p_failure := Some (lit ''Process notification transport failed'')\<rparr>))"

section \<open>Reading\<close>

definition chunk_seq :: "chunk \<Rightarrow> int" where
  "chunk_seq c = int_of (dget c (lit ''seq''))"

fun read_chunks ::
    "int \<Rightarrow> int option \<Rightarrow> (chunk \<times> nat) list \<Rightarrow> chunk list \<Rightarrow> int \<Rightarrow> int \<Rightarrow> chunk list \<times> int" where
  "read_chunks after maximum [] acc used nxt = (acc, nxt)"
| "read_chunks after maximum ((c, n) # out) acc used nxt =
     (if chunk_seq c \<le> after then read_chunks after maximum out acc used nxt
      else if acc \<noteq> [] \<and> (case maximum of None \<Rightarrow> False | Some m \<Rightarrow> m < used + int n) then (acc, nxt)
      else if (case maximum of None \<Rightarrow> False | Some m \<Rightarrow> m \<le> used + int n) then (acc @ [c], chunk_seq c + 1)
      else read_chunks after maximum out (acc @ [c]) (used + int n) (chunk_seq c + 1))"

definition optional_int :: "json \<Rightarrow> int option" where
  "optional_int v = (if v = JNull then None else Some (int_of v))"

definition json_option :: "('a \<Rightarrow> json) \<Rightarrow> 'a option \<Rightarrow> json" where
  "json_option f v = (case v of None \<Rightarrow> JNull | Some x \<Rightarrow> f x)"

definition read_window :: "Process \<Rightarrow> int \<Rightarrow> int option \<Rightarrow> chunk list \<times> int" where
  "read_window r after maximum =
     (let (chunks, nxt) = read_chunks after maximum (p_output r) [] 0 (next_seq r) in
      (chunks, if maximum = None then next_seq r else nxt))"

definition read_response :: "Process \<Rightarrow> chunk list \<Rightarrow> int \<Rightarrow> json" where
  "read_response r chunks nxt =
     JObj [(lit ''chunks'', JArr (map JObj chunks)), (lit ''nextSeq'', JInt nxt), (lit ''exited'', JBool (exit_code r \<noteq> None)),
           (lit ''exitCode'', json_option JInt (exit_code r)), (lit ''closed'', JBool (p_closed r)),
           (lit ''failure'', json_option JStr (p_failure r)), (lit ''sandboxDenied'', JBool (sandbox_denied r))]"

text \<open>
  One round of the loop of \<open>_read\<close>: \<open>None\<close> waits for a change, \<open>expired\<close> says that no time remains.
\<close>

definition read_round :: "Process \<Rightarrow> dict \<Rightarrow> bool \<Rightarrow> json option" where
  "read_round r params expired =
     (let after = (case optional_int (dget params (lit ''afterSeq'')) of None \<Rightarrow> 0 | Some i \<Rightarrow> i);
          (chunks, nxt) = read_window r after (optional_int (dget params (lit ''maxBytes''))) in
      if chunks \<noteq> [] \<or> p_closed r \<or> exit_code r \<noteq> None \<and> after < max 0 (nxt - 1) \<or> expired
      then Some (read_response r chunks nxt) else None)"

definition process_read :: "Process option \<Rightarrow> dict \<Rightarrow> bool \<Rightarrow> exn + json option" where
  "process_read rec params expired =
     (case rec of
        None \<Rightarrow> Inl (rpc (-32600) ''Unknown process id in this session'')
      | Some r \<Rightarrow> if p_state r = Starting then Inl (rpc (-32600) ''Process is starting'')
          else Inr (read_round r params expired))"

section \<open>Writing\<close>

definition status :: "string \<Rightarrow> json" where
  "status s = JObj [(lit ''status'', jlit s)]"

text \<open>One round of the loop of \<open>_write\<close>: \<open>Inr None\<close> waits for \<open>write_changed\<close>.\<close>

definition write_round :: "pystr \<Rightarrow> pybytes \<Rightarrow> Process \<Rightarrow> Process \<times> (exn + json option)" where
  "write_round wid data r =
     (if wid \<in> set (accepted_ids r) then (r, Inr (Some (status ''accepted'')))
      else if stdin_closed r \<or> termination_requested r then (r, Inl (rpc (-32603) ''Failed to write to process stdin''))
      else if queued_bytes r + length data \<le> STDIN_BYTES \<and> length (p_writes r) < 128 then
        (let ids = accepted_ids r @ [wid] in
         r\<lparr>p_writes := p_writes r @ [data], queued_bytes := queued_bytes r + length data,
           accepted_ids := (if RETAINED_WRITE_IDS < length ids then tl ids else ids)\<rparr>,
         Inr (Some (status ''accepted'')))
      else (r, Inr None))"

definition process_write :: "Process option \<Rightarrow> dict \<Rightarrow> Process option \<times> (exn + json option)" where
  "process_write rec params =
     (let wid = str_of (dget params (lit ''writeId'')) in
      if wid = [] then (rec, Inl (rpc (-32602) ''writeId must not be empty''))
      else case rec of
        None \<Rightarrow> (rec, Inr (Some (status ''unknownProcess'')))
      | Some r \<Rightarrow>
          if p_state r = Starting then (rec, Inr (Some (status ''starting'')))
          else if dget (p_params r) (lit ''pipeStdin'') \<noteq> JBool True then (rec, Inr (Some (status ''stdinClosed'')))
          else if wid \<in> set (accepted_ids r) then (rec, Inr (Some (status ''accepted'')))
          else (case b64decode (str_of (dget params (lit ''chunk''))) of
              None \<Rightarrow> (rec, Inl BinasciiError)
            | Some data \<Rightarrow>
                if STDIN_BYTES < length data
                then (rec, Inl (rpc (-32602) ''Process stdin chunk exceeds the declared private bound''))
                else (let (r', answer) = write_round wid data r in (Some r', answer))))"

text \<open>
  \<open>_writer\<close>: the chunk to write next, if any; the bookkeeping once the pipe took all of it; and the
  \<open>finally\<close> block.
\<close>

definition writer_next :: "Process \<Rightarrow> pybytes option" where
  "writer_next r =
     (if termination_requested r \<or> stdin_closed r then None
      else case p_writes r of [] \<Rightarrow> None | data # _ \<Rightarrow> Some data)"

definition writer_wrote :: "Process \<Rightarrow> Process" where
  "writer_wrote r =
     (case p_writes r of
        [] \<Rightarrow> r
      | data # rest \<Rightarrow> r\<lparr>p_writes := rest, queued_bytes := queued_bytes r - length data\<rparr>)"

definition writer_end :: "Process \<Rightarrow> Process" where
  "writer_end r = r\<lparr>p_stdin := False, stdin_closed := True, p_writes := [], queued_bytes := 0\<rparr>"

section \<open>Pipes\<close>

text \<open>The part of \<open>_output\<close> before it waits for \<open>started\<close>, and the part after.\<close>

definition output_received :: "NativeProcessLimits \<Rightarrow> bool \<Rightarrow> pybytes \<Rightarrow> Process \<Rightarrow> exn + Process" where
  "output_received limits err data r =
     (let r = (if err then r\<lparr>stderr_count := stderr_count r + length data\<rparr>
               else r\<lparr>stdout_count := stdout_count r + length data\<rparr>);
          r = (if err \<and> p_state r = Starting then r\<lparr>setup_diagnostic := take 4096 (setup_diagnostic r @ data)\<rparr> else r) in
      if output_bytes limits + 4096 < int (stdout_count r + stderr_count r)
      then Inl (rpc (-32603) ''Native process exceeded its output contract'')
      else Inr r)"

definition output_published :: "bool \<Rightarrow> bool \<Rightarrow> bool \<Rightarrow> pybytes \<Rightarrow> Process \<Rightarrow> exn + Process" where
  "output_published sent delivered err data r =
     (case p_started r of
        Resolved \<Rightarrow> event sent delivered (lit ''process/output'')
          [(lit ''stream'', if err then jlit ''stderr'' else jlit ''stdout''), (lit ''chunk'', JStr (b64encode data))] r
      | _ \<Rightarrow> Inr r)"


section \<open>The supervisor's lifecycle messages\<close>

definition STARTED_FIELDS :: "pystr list" where
  "STARTED_FIELDS = map lit [''type'', ''pid'', ''profile'', ''uidTasksObserved'', ''uidTaskBudget'', ''uidNprocLimit'',
     ''inheritedNprocSoft'', ''inheritedNprocHard'']"

definition RESULT_FIELDS :: "pystr list" where
  "RESULT_FIELDS = map lit [''type'', ''outcome'', ''exitCode'', ''signal'', ''cleanupComplete'', ''started'', ''grants'',
     ''denials'', ''stdoutBytes'', ''stderrBytes'', ''stage'', ''errno'']"

definition OUTCOMES :: "pystr list" where
  "OUTCOMES = map lit [''exited'', ''cancelled'', ''timeout'', ''output_limit'', ''setup_error'', ''broker_error'', ''cleanup_error'']"

definition natural :: "json \<Rightarrow> bool" where
  "natural v = (is_int v \<and> 0 \<le> int_of v)"

definition started_valid :: "dict \<Rightarrow> bool" where
  "started_valid d = (set (dkeys d) = set STARTED_FIELDS \<and> dget d (lit ''profile'') = jlit ''managed-process-v2'' \<and>
     list_all (\<lambda>k. k \<in> {lit ''type'', lit ''profile''} \<or> natural (dget d k)) STARTED_FIELDS)"

definition exit_valid :: "json \<Rightarrow> json \<Rightarrow> bool" where
  "exit_valid code signum = (is_int code \<and> is_int signum \<and> -1 \<le> int_of code \<and> int_of code \<le> 255 \<and>
     0 \<le> int_of signum \<and> int_of signum \<le> 64 \<and> \<not> (int_of signum \<noteq> 0 \<and> int_of code \<noteq> -1) \<and>
     \<not> (int_of signum = 0 \<and> int_of code < 0))"

definition exit_status :: "int \<Rightarrow> int \<Rightarrow> int" where
  "exit_status code signum = (if signum \<noteq> 0 then 128 + signum else code)"

definition result_valid :: "dict \<Rightarrow> bool" where
  "result_valid d = (set (dkeys d) = set RESULT_FIELDS \<and> is_str (dget d (lit ''outcome'')) \<and>
     str_of (dget d (lit ''outcome'')) \<in> set OUTCOMES \<and>
     list_all (\<lambda>k. is_bool (dget d (lit k))) [''cleanupComplete'', ''started''] \<and>
     list_all (\<lambda>k. natural (dget d (lit k))) [''signal'', ''grants'', ''denials'', ''stdoutBytes'', ''stderrBytes'', ''stage'', ''errno''] \<and>
     is_int (dget d (lit ''exitCode'')) \<and> -1 \<le> int_of (dget d (lit ''exitCode'')) \<and> int_of (dget d (lit ''exitCode'')) \<le> 255)"

definition control_started :: "bool \<Rightarrow> bool \<Rightarrow> dict \<Rightarrow> Process \<Rightarrow> exn + Process" where
  "control_started sent delivered d r =
     (if native_started r \<noteq> None \<or> native_result r \<noteq> None
      then Inl (rpc (-32603) ''Native process emitted duplicate or late startup'')
      else if \<not> started_valid d then Inl (rpc (-32603) ''Native process startup contract differs'')
      else let r = r\<lparr>native_started := Some (JObj d)\<rparr> in
        if termination_requested r then Inr (terminate sent delivered r)
        else if p_started r \<noteq> Unset then Inl (RuntimeError (lit ''InvalidStateError''))
        else Inr (r\<lparr>p_state := Running, p_started := Resolved\<rparr>))"

definition control_exited :: "bool \<Rightarrow> bool \<Rightarrow> dict \<Rightarrow> Process \<Rightarrow> exn + Process" where
  "control_exited sent delivered d r =
     (if native_started r = None \<or> exit_code r \<noteq> None \<or> set (dkeys d) \<noteq> {lit ''type'', lit ''exitCode'', lit ''signal''}
      then Inl (rpc (-32603) ''Invalid native leader exit observation'')
      else let code = dget d (lit ''exitCode''); signum = dget d (lit ''signal'') in
        if \<not> exit_valid code signum then Inl (rpc (-32603) ''Native exit status is invalid'')
        else let status = exit_status (int_of code) (int_of signum); r = r\<lparr>exit_code := Some status\<rparr> in
          if p_started r = Resolved
          then event sent delivered (lit ''process/exited'') [(lit ''exitCode'', JInt status), (lit ''sandboxDenied'', JBool False)] r
          else Inr r)"

definition control_result :: "dict \<Rightarrow> Process \<Rightarrow> exn + Process" where
  "control_result d r =
     (if native_result r \<noteq> None then Inl (rpc (-32603) ''Native process emitted duplicate completion'')
      else if \<not> result_valid d then Inl (rpc (-32603) ''Native completion shape differs'')
      else Inr (r\<lparr>native_result := Some (JObj d),
          p_started := (if p_started r = Unset then Rejected (rpc (-32603) ''Native process failed before verified exec'')
                        else p_started r)\<rparr>))"

text \<open>
  One round of \<open>_control\<close> on a received message (\<open>None\<close> is the end of the stream); the second
  component is the reply to an acquisition request.
\<close>

definition control_message ::
    "nat \<Rightarrow> fsnode \<Rightarrow> bool \<Rightarrow> bool \<Rightarrow> json option \<Rightarrow> Process \<Rightarrow> exn + Process \<times> json option" where
  "control_message uid tree sent delivered message r =
     (case message of
        None \<Rightarrow> if native_result r = None then Inl (rpc (-32603) ''Native lifecycle socket closed without completion'')
                else Inr (r, None)
      | Some v \<Rightarrow>
          if \<not> is_obj v then Inl (rpc (-32603) ''Native lifecycle message is not an object'')
          else let d = obj_of v; kind = dget d (lit ''type'') in
            if kind = jlit ''open'' then
              (case p_policy r of
                 None \<Rightarrow> Inl (TypeError (lit ''policy''))
               | Some pp \<Rightarrow> bindE (decide_open uid tree pp v) (\<lambda>(pp', reply). Inr (r\<lparr>p_policy := Some pp'\<rparr>, Some reply)))
            else if kind = jlit ''started'' then bindE (control_started sent delivered d r) (\<lambda>r. Inr (r, None))
            else if kind = jlit ''exited'' then bindE (control_exited sent delivered d r) (\<lambda>r. Inr (r, None))
            else if kind = jlit ''result'' then bindE (control_result d r) (\<lambda>r. Inr (r, None))
            else Inl (rpc (-32603) ''Unknown native lifecycle event''))"


section \<open>Invariant of a record\<close>

definition seqs :: "(chunk \<times> nat) list \<Rightarrow> int list" where
  "seqs out = map (chunk_seq \<circ> fst) out"

definition output_ok :: "Process \<Rightarrow> bool" where
  "output_ok r \<longleftrightarrow> retained_bytes r = sum_list (map snd (p_output r)) \<and> retained_bytes r \<le> RETAINED_BYTES \<and>
     length (p_output r) \<le> RETAINED_CHUNKS \<and> sorted_wrt (<) (seqs (p_output r)) \<and>
     list_all (\<lambda>q. 1 \<le> q \<and> q < next_seq r) (seqs (p_output r)) \<and> 1 \<le> next_seq r"

definition input_ok :: "Process \<Rightarrow> bool" where
  "input_ok r \<longleftrightarrow> queued_bytes r = sum_list (map length (p_writes r)) \<and> queued_bytes r \<le> STDIN_BYTES \<and>
     length (p_writes r) \<le> 128 \<and> distinct (accepted_ids r) \<and> length (accepted_ids r) \<le> RETAINED_WRITE_IDS"

definition process_ok :: "Process \<Rightarrow> bool" where
  "process_ok r \<longleftrightarrow> output_ok r \<and> input_ok r \<and> length (notifications r) \<le> NOTIFICATION_CAPACITY"

lemma evict_ok:
  assumes "retained = sum_list (map snd out)"
  shows "\<exists>k. fst (evict out retained) = drop k out \<and> snd (evict out retained) = sum_list (map snd (drop k out)) \<and>
    snd (evict out retained) \<le> RETAINED_BYTES \<and> length (fst (evict out retained)) \<le> RETAINED_CHUNKS"
  using assms
proof (induction out retained rule: evict.induct)
  case (1 retained)
  then show ?case by simp
next
  case (2 c n out retained)
  show ?case
  proof (cases "RETAINED_BYTES < retained \<or> RETAINED_CHUNKS < length ((c, n) # out)")
    case True
    then obtain k where "fst (evict out (retained - n)) = drop k out"
      "snd (evict out (retained - n)) = sum_list (map snd (drop k out))"
      "snd (evict out (retained - n)) \<le> RETAINED_BYTES" "length (fst (evict out (retained - n))) \<le> RETAINED_CHUNKS"
      using 2 by auto
    with True show ?thesis by (intro exI [of _ "Suc k"]) simp
  next
    case False
    with 2(2) show ?thesis by (intro exI [of _ 0]) auto
  qed
qed

lemma sorted_wrt_drop: "sorted_wrt P xs \<Longrightarrow> sorted_wrt P (drop k xs)"
  by (metis append_take_drop_id sorted_wrt_append)

lemma retain_ok:
  assumes "output_ok r" and "chunk_seq c = next_seq r"
  shows "output_ok ((retain c n r)\<lparr>next_seq := next_seq r + 1\<rparr>)"
proof -
  let ?out = "p_output r @ [(c, n)]" and ?e = "evict (p_output r @ [(c, n)]) (retained_bytes r + n)"
  have "retained_bytes r + n = sum_list (map snd ?out)"
    using assms(1) by (simp add: output_ok_def)
  then obtain k where k: "fst ?e = drop k ?out" "snd ?e = sum_list (map snd (drop k ?out))"
    "snd ?e \<le> RETAINED_BYTES" "length (fst ?e) \<le> RETAINED_CHUNKS"
    using evict_ok by blast
  have r: "p_output (retain c n r) = fst ?e" "retained_bytes (retain c n r) = snd ?e"
    by (simp_all add: retain_def split: prod.split)
  have "sorted_wrt (<) (seqs ?out)" "list_all (\<lambda>q. 1 \<le> q \<and> q < next_seq r + 1) (seqs ?out)"
    using assms by (auto simp: output_ok_def seqs_def sorted_wrt_append list_all_iff)
  then have "sorted_wrt (<) (seqs (drop k ?out))" "list_all (\<lambda>q. 1 \<le> q \<and> q < next_seq r + 1) (seqs (drop k ?out))"
    unfolding seqs_def drop_map [symmetric] by (auto simp only: sorted_wrt_drop list_all_iff dest: in_set_dropD)
  then show ?thesis
    using k assms(1) by (simp add: output_ok_def r)
qed


lemma signal_supervisor_frame [simp]:
  "p_output (signal_supervisor dl n r) = p_output r" "retained_bytes (signal_supervisor dl n r) = retained_bytes r"
  "next_seq (signal_supervisor dl n r) = next_seq r" "p_writes (signal_supervisor dl n r) = p_writes r"
  "queued_bytes (signal_supervisor dl n r) = queued_bytes r" "accepted_ids (signal_supervisor dl n r) = accepted_ids r"
  "notifications (signal_supervisor dl n r) = notifications r" "stdin_closed (signal_supervisor dl n r) = stdin_closed r"
  "p_spawned (signal_supervisor dl n r) = p_spawned r" "p_closed (signal_supervisor dl n r) = p_closed r"
  "p_state (signal_supervisor dl n r) = p_state r" "termination_requested (signal_supervisor dl n r) = termination_requested r"
  "exit_code (signal_supervisor dl n r) = exit_code r" "p_started (signal_supervisor dl n r) = p_started r"
  by (simp_all add: signal_supervisor_def)

lemma terminate_frame [simp]:
  "p_output (terminate st dl r) = p_output r" "retained_bytes (terminate st dl r) = retained_bytes r"
  "next_seq (terminate st dl r) = next_seq r" "p_writes (terminate st dl r) = p_writes r"
  "queued_bytes (terminate st dl r) = queued_bytes r" "accepted_ids (terminate st dl r) = accepted_ids r"
  "notifications (terminate st dl r) = notifications r" "stdin_closed (terminate st dl r) = stdin_closed r"
  "p_spawned (terminate st dl r) = p_spawned r" "p_closed (terminate st dl r) = p_closed r"
  "p_state (terminate st dl r) = p_state r" "termination_requested (terminate st dl r)"
  "exit_code (terminate st dl r) = exit_code r" "p_started (terminate st dl r) = p_started r"
  by (simp_all add: terminate_def Let_def split: option.split)

lemmas process_ok_defs = process_ok_def output_ok_def input_ok_def

lemma terminate_ok [simp]: "process_ok (terminate st dl r) = process_ok r"
  by (simp add: process_ok_defs)

lemma put_notification_ok: "process_ok r \<Longrightarrow> process_ok (put_notification st dl item r)"
  by (simp add: put_notification_def process_ok_defs)

lemma event_ok:
  assumes "event st dl m payload r = Inr r'" and "process_ok r"
  shows "process_ok r'"
proof -
  let ?r = "r\<lparr>next_seq := next_seq r + 1\<rparr>" and ?c = "(lit ''seq'', JInt (next_seq r)) # payload"
  have plain: "process_ok ?r"
    using assms(2) by (auto simp: process_ok_defs list_all_iff)
  have "retain ?c n ?r = (retain ?c n r)\<lparr>next_seq := next_seq r + 1\<rparr>" for n
    by (simp add: retain_def split: prod.split)
  moreover have "output_ok ((retain ?c n r)\<lparr>next_seq := next_seq r + 1\<rparr>)" for n
    using assms(2) by (intro retain_ok) (simp_all add: process_ok_def chunk_seq_def)
  moreover have "input_ok (retain ?c n ?r)" "notifications (retain ?c n ?r) = notifications r" for n
    using assms(2) by (simp_all add: process_ok_defs retain_def split: prod.split)
  ultimately have kept: "process_ok (retain ?c n ?r)" for n
    using assms(2) by (simp add: process_ok_def)
  show ?thesis
    using assms(1) plain kept unfolding event_def Let_def
    by (auto split: if_splits option.splits intro!: put_notification_ok)
qed

lemma notify_next_ok: "process_ok r \<Longrightarrow> process_ok (notify_next ok st dl r)"
  by (auto simp: notify_next_def process_ok_defs Let_def split: list.split option.split)

lemma write_round_ok: "process_ok r \<Longrightarrow> write_round wid data r = (r', ans) \<Longrightarrow> process_ok r'"
  by (auto simp: write_round_def process_ok_defs Let_def distinct_tl split: if_splits)

lemma writer_wrote_ok: "process_ok r \<Longrightarrow> process_ok (writer_wrote r)"
  by (auto simp: writer_wrote_def process_ok_defs split: list.split)

lemma writer_end_ok: "process_ok r \<Longrightarrow> process_ok (writer_end r)"
  by (auto simp: writer_end_def process_ok_defs)

lemma output_received_ok: "process_ok r \<Longrightarrow> output_received limits err data r = Inr r' \<Longrightarrow> process_ok r'"
  by (auto simp: output_received_def process_ok_defs Let_def split: if_splits)

lemma output_published_ok: "process_ok r \<Longrightarrow> output_published st dl err data r = Inr r' \<Longrightarrow> process_ok r'"
  by (auto simp: output_published_def split: future.splits dest: event_ok)

lemma control_message_ok:
  assumes "control_message uid tree st dl message r = Inr (r', reply)" and "process_ok r"
  shows "process_ok r'"
proof -
  have frame: "process_ok (r\<lparr>native_started := a\<rparr>) = process_ok r" "process_ok (r\<lparr>p_state := b, p_started := c\<rparr>) = process_ok r"
    "process_ok (r\<lparr>exit_code := d\<rparr>) = process_ok r" "process_ok (r\<lparr>native_result := a, p_started := c\<rparr>) = process_ok r"
    "process_ok (r\<lparr>p_policy := e\<rparr>) = process_ok r" "process_ok (r\<lparr>native_result := a\<rparr>) = process_ok r" for r a b c d e
    by (simp_all add: process_ok_defs)
  have "process_ok r'" if "control_started st dl d r = Inr r'" for d r'
    using that assms(2) by (auto simp: control_started_def Let_def frame split: if_splits)
  moreover have "process_ok r'" if "control_exited st dl d r = Inr r'" for d r'
    using that assms(2) event_ok by (auto simp: control_exited_def Let_def frame split: if_splits)
  moreover have "process_ok r'" if "control_result d r = Inr r'" for d r'
    using that assms(2) by (auto simp: control_result_def frame split: if_splits)
  ultimately show ?thesis
    using assms unfolding control_message_def Let_def
    by (auto simp: frame bindE_Inr_iff split: option.splits if_splits)
qed


section \<open>Steps of a record\<close>

datatype rec_label =
    Accepted pystr pybytes
  | Unqueued pystr
  | Wrote pybytes
  | InputEnded
  | Received bool pybytes
  | Published bool pybytes
  | Notified
  | Lifecycle
  | Asked

inductive rec_step :: "NativeProcessLimits \<Rightarrow> nat \<Rightarrow> Process \<Rightarrow> rec_label \<Rightarrow> Process \<Rightarrow> bool" for limits uid where
  accepted: "write_round wid data r = (r', Inr (Some a)) \<Longrightarrow> wid \<notin> set (accepted_ids r) \<Longrightarrow>
     rec_step limits uid r (Accepted wid data) r'"
| unqueued: "write_round wid data r = (r', ans) \<Longrightarrow> wid \<in> set (accepted_ids r) \<or> (\<nexists>a. ans = Inr (Some a)) \<Longrightarrow>
     rec_step limits uid r (Unqueued wid) r'"
| wrote: "writer_next r = Some data \<Longrightarrow> rec_step limits uid r (Wrote data) (writer_wrote r)"
| ended: "rec_step limits uid r InputEnded (writer_end r)"
| received: "output_received limits err data r = Inr r' \<Longrightarrow> rec_step limits uid r (Received err data) r'"
| published: "output_published st dl err data r = Inr r' \<Longrightarrow> rec_step limits uid r (Published err data) r'"
| notified: "rec_step limits uid r Notified (notify_next ok st dl r)"
| lifecycle: "control_message uid tree st dl message r = Inr (r', reply) \<Longrightarrow> rec_step limits uid r Lifecycle r'"
| asked: "rec_step limits uid r Asked (terminate st dl r)"

inductive_cases rec_stepE: "rec_step limits uid r l r'"

lemma rec_step_ok: "process_ok r \<Longrightarrow> rec_step limits uid r l r' \<Longrightarrow> process_ok r'"
  by (erule rec_stepE)
    (auto intro: write_round_ok writer_wrote_ok writer_end_ok output_received_ok output_published_ok notify_next_ok
      control_message_ok)

interpretation native_process: invariant_system "rec_step limits uid" process_ok for limits uid
  by unfold_locales (rule rec_step_ok)

lemma new_process_ok: "process_ok (new_process call params argv environment)"
  by (simp add: new_process_def process_ok_defs seqs_def RETAINED_BYTES_def RETAINED_CHUNKS_def STDIN_BYTES_def)

text \<open>What the steps other than the input queue's own leave alone.\<close>

definition same_input :: "Process \<Rightarrow> Process \<Rightarrow> bool" where
  "same_input r r' \<longleftrightarrow> p_writes r' = p_writes r \<and> accepted_ids r' = accepted_ids r \<and> stdin_closed r' = stdin_closed r"

lemma event_input: "event st dl m payload r = Inr r' \<Longrightarrow> same_input r r'"
  by (auto simp: event_def same_input_def put_notification_def retain_def Let_def
      split: if_splits option.splits prod.splits)

lemma control_message_input: "control_message uid tree st dl message r = Inr (r', reply) \<Longrightarrow> same_input r r'"
  unfolding control_message_def Let_def control_started_def control_exited_def control_result_def
  by (auto simp: same_input_def bindE_Inr_iff split: option.splits if_splits dest!: event_input)

lemma rec_step_input:
  assumes "rec_step limits uid r l r'"
  shows "case l of
      Accepted wid data \<Rightarrow> wid \<notin> set (accepted_ids r) \<and> \<not> stdin_closed r \<and> \<not> stdin_closed r' \<and> p_writes r' = p_writes r @ [data] \<and>
        accepted_ids r' = (let ids = accepted_ids r @ [wid] in if RETAINED_WRITE_IDS < length ids then tl ids else ids)
    | Wrote data \<Rightarrow> \<not> stdin_closed r \<and> p_writes r = data # p_writes r' \<and> accepted_ids r' = accepted_ids r \<and> \<not> stdin_closed r'
    | InputEnded \<Rightarrow> p_writes r' = [] \<and> accepted_ids r' = accepted_ids r \<and> stdin_closed r'
    | _ \<Rightarrow> same_input r r'"
  using assms
proof cases
  case (accepted wid data a)
  then show ?thesis
    by (auto simp: write_round_def Let_def split: if_splits)
next
  case (unqueued wid data ans)
  then show ?thesis
    by (auto simp: write_round_def Let_def same_input_def split: if_splits)
next
  case (wrote data)
  then show ?thesis
    by (auto simp: writer_next_def writer_wrote_def split: if_splits list.splits)
next
  case (lifecycle tree st dl message reply)
  then show ?thesis by (simp add: control_message_input)
next
  case (published st dl err data)
  then show ?thesis
    by (auto simp: output_published_def same_input_def split: future.splits dest!: event_input)
qed (auto simp: writer_end_def same_input_def output_received_def notify_next_def Let_def
    split: if_splits list.splits option.splits)

fun accepted_of :: "rec_label list \<Rightarrow> (pystr \<times> pybytes) list" where
  "accepted_of [] = []"
| "accepted_of (Accepted wid data # ls) = (wid, data) # accepted_of ls"
| "accepted_of (_ # ls) = accepted_of ls"

fun written_of :: "rec_label list \<Rightarrow> pybytes list" where
  "written_of [] = []"
| "written_of (Wrote data # ls) = data # written_of ls"
| "written_of (_ # ls) = written_of ls"


lemma closed_input:
  "run (rec_step limits uid) r ls r' \<Longrightarrow> stdin_closed r \<Longrightarrow> p_writes r = [] \<Longrightarrow>
     accepted_of ls = [] \<and> written_of ls = [] \<and> p_writes r' = [] \<and> stdin_closed r'"
proof (induction rule: run.induct)
  case (run_Cons s l t ls u)
  from rec_step_input [OF run_Cons(1)] run_Cons(3-5) show ?case
    by (cases l) (auto simp: same_input_def)
qed simp

text \<open>The identifiers retained are the last ones, with bounded capacity.\<close>

definition last_ids :: "pystr list \<Rightarrow> pystr list" where
  "last_ids ids = drop (length ids - RETAINED_WRITE_IDS) ids"

lemma last_ids_append:
  assumes "length ids \<le> RETAINED_WRITE_IDS"
  shows "last_ids ((let xs = ids @ [wid] in if RETAINED_WRITE_IDS < length xs then tl xs else xs) @ ys) = last_ids (ids @ wid # ys)"
proof (cases "RETAINED_WRITE_IDS < length (ids @ [wid])")
  case True
  then have "length ids = RETAINED_WRITE_IDS" using assms by simp
  then obtain a rest where ids: "ids = a # rest" "length rest + 1 = RETAINED_WRITE_IDS"
    by (cases ids) (auto simp: RETAINED_WRITE_IDS_def)
  then show ?thesis by (simp add: last_ids_def Suc_diff_le)
qed simp

lemma input_run:
  assumes "run (rec_step limits uid) r ls r'" and "process_ok r"
  shows "prefix (written_of ls @ p_writes r') (p_writes r @ map snd (accepted_of ls)) \<and>
    (InputEnded \<notin> set ls \<longrightarrow> written_of ls @ p_writes r' = p_writes r @ map snd (accepted_of ls)) \<and>
    accepted_ids r' = last_ids (accepted_ids r @ map fst (accepted_of ls))"
  using assms
proof (induction rule: run.induct)
  case (run_Nil r)
  then show ?case by (simp add: last_ids_def process_ok_defs)
next
  case (run_Cons s l t ls u)
  note IH = run_Cons.IH [OF rec_step_ok [OF run_Cons.prems run_Cons.hyps(1)]]
  note step = rec_step_input [OF run_Cons.hyps(1)]
  have len: "length (accepted_ids s) \<le> RETAINED_WRITE_IDS"
    using run_Cons.prems by (simp add: process_ok_defs)
  show ?case
  proof (cases l)
    case (Accepted wid data)
    with IH step last_ids_append [OF len, of wid] show ?thesis by auto
  next
    case InputEnded
    with IH step closed_input [OF run_Cons.hyps(2)] show ?thesis by auto
  next
    case (Wrote data)
    with IH step show ?thesis by auto
  qed (use IH step in \<open>auto simp: same_input_def\<close>)
qed

section \<open>Properties\<close>

text \<open>C34: whatever a started process, its client and its supervisor do, the retained output is accounted
  exactly, stays within its byte and chunk bounds and has strictly increasing sequence numbers below the
  next one; the queued input is accounted exactly within its bounds; the write identifiers retained are
  distinct and at most 4096; and at most 128 notifications are pending.\<close>

theorem process_record_invariant:
  assumes "run (rec_step limits uid) (new_process call params argv environment) ls r"
  shows "process_ok r"
  using native_process.run_preserves [OF assms new_process_ok] .



definition example_process :: Process where
  "example_process = new_process example_write_call [] [] []"

lemma example_process_run:
  "\<exists>r. run (rec_step limits uid) example_process [Accepted (lit ''i'') [7], Unqueued (lit ''i''), Wrote [7]] r \<and> p_writes r = []"
proof -
  let ?r1 = "example_process\<lparr>p_writes := [[7]], queued_bytes := 1, accepted_ids := [lit ''i'']\<rparr>"
  have first: "write_round (lit ''i'') [7] example_process = (?r1, Inr (Some (status ''accepted'')))"
    by (simp add: write_round_def example_process_def new_process_def STDIN_BYTES_def RETAINED_WRITE_IDS_def)
  have second: "write_round (lit ''i'') [7] ?r1 = (?r1, Inr (Some (status ''accepted'')))"
    by (simp add: write_round_def)
  have "rec_step limits uid example_process (Accepted (lit ''i'') [7]) ?r1"
    by (rule rec_step.accepted [OF first]) (simp add: example_process_def new_process_def)
  moreover have "rec_step limits uid ?r1 (Unqueued (lit ''i'')) ?r1"
    by (rule rec_step.unqueued [OF second]) simp
  moreover have "rec_step limits uid ?r1 (Wrote [7]) (writer_wrote ?r1)"
    by (rule rec_step.wrote) (simp add: writer_next_def example_process_def new_process_def)
  ultimately show ?thesis
    by (intro exI [of _ "writer_wrote ?r1"]) (auto simp: run_Cons_iff writer_wrote_def)
qed

definition example_limits :: NativeProcessLimits where
  "example_limits = \<lparr>wall_ms = 1000, address_space_bytes = 16777216, output_bytes = 4096, uid_task_budget = 1\<rparr>"

theorem process_record_invariant_witness:
  "\<exists>r. run (rec_step example_limits 1000) example_process [Accepted (lit ''i'') [7], Unqueued (lit ''i''), Wrote [7]] r \<and> process_ok r"
  using example_process_run [of example_limits 1000] process_record_invariant unfolding example_process_def by blast


text \<open>Resuming a read.\<close>

definition retained_after :: "Process \<Rightarrow> int \<Rightarrow> chunk list" where
  "retained_after r after = map fst (filter (\<lambda>(c, n). after < chunk_seq c) (p_output r))"

lemma read_chunks_take:
  "\<exists>k \<le> length (filter (\<lambda>(c, n). after < chunk_seq c) out).
     (let f = map fst (filter (\<lambda>(c, n). after < chunk_seq c) out) in
      read_chunks after maximum out acc used nxt = (acc @ take k f, if k = 0 then nxt else chunk_seq (f ! (k - 1)) + 1) \<and>
      (acc = [] \<and> f \<noteq> [] \<longrightarrow> 0 < k) \<and> (maximum = None \<longrightarrow> k = length f))"
proof (induction after maximum out acc used nxt rule: read_chunks.induct)
  case (1 after maximum acc used nxt)
  then show ?case by simp
next
  case (2 after maximum c n out acc used nxt)
  let ?F = "filter (\<lambda>(c, n). after < chunk_seq c) out"
  consider (skip) "chunk_seq c \<le> after"
    | (full) "\<not> chunk_seq c \<le> after" "acc \<noteq> [] \<and> (case maximum of None \<Rightarrow> False | Some m \<Rightarrow> m < used + int n)"
    | (final) "\<not> chunk_seq c \<le> after" "\<not> (acc \<noteq> [] \<and> (case maximum of None \<Rightarrow> False | Some m \<Rightarrow> m < used + int n))"
        "case maximum of None \<Rightarrow> False | Some m \<Rightarrow> m \<le> used + int n"
    | (go) "\<not> chunk_seq c \<le> after" "\<not> (acc \<noteq> [] \<and> (case maximum of None \<Rightarrow> False | Some m \<Rightarrow> m < used + int n))"
        "\<not> (case maximum of None \<Rightarrow> False | Some m \<Rightarrow> m \<le> used + int n)"
    by blast
  then show ?case
  proof cases
    case skip
    with 2(1) show ?thesis by simp
  next
    case full
    then show ?thesis by (intro exI [of _ 0]) (auto split: option.splits)
  next
    case final
    then show ?thesis by (intro exI [of _ 1]) (auto split: option.splits)
  next
    case go
    from 2(2) [OF go] obtain k where "k \<le> length ?F"
      "read_chunks after maximum out (acc @ [c]) (used + int n) (chunk_seq c + 1) =
        ((acc @ [c]) @ take k (map fst ?F), if k = 0 then chunk_seq c + 1 else chunk_seq (map fst ?F ! (k - 1)) + 1)"
      "maximum = None \<longrightarrow> k = length (map fst ?F)"
      by (auto simp: Let_def)
    with go show ?thesis
      by (intro exI [of _ "Suc k"]) (auto simp: Let_def nth_Cons')
  qed
qed

lemma filter_above_sorted:
  assumes "sorted_wrt (\<lambda>x y. f x < f y) xs" and "i < length xs"
  shows "filter (\<lambda>x. f (xs ! i) < (f x :: int)) xs = drop (Suc i) xs"
proof -
  have "filter (\<lambda>x. f (xs ! i) < f x) (take (Suc i) xs) = []"
    using assms by (auto simp: filter_empty_conv in_set_conv_nth sorted_wrt_iff_nth_less less_Suc_eq)
      (metis less_trans order_less_irrefl)
  moreover have "filter (\<lambda>x. f (xs ! i) < f x) (drop (Suc i) xs) = drop (Suc i) xs"
    using assms by (auto simp: filter_id_conv in_set_conv_nth sorted_wrt_iff_nth_less)
  ultimately show ?thesis
    by (metis append_take_drop_id filter_append self_append_conv2)
qed

text \<open>C35: reading is resumable without loss or repetition: the chunks of an answer followed by what is
  retained after its \<open>nextSeq - 1\<close> are exactly what is retained after the caller's \<open>afterSeq\<close>, and
  an answer makes progress whenever something is retained there, however small \<open>maxBytes\<close> is.\<close>

theorem read_resumes:
  assumes "process_ok r" and "read_window r after maximum = (chunks, nxt)"
  shows "chunks @ retained_after r (nxt - 1) = retained_after r after \<and> (retained_after r after \<noteq> [] \<longrightarrow> chunks \<noteq> [])"
proof -
  let ?F = "filter (\<lambda>(c, n). after < chunk_seq c) (p_output r)"
  have none: "retained_after r (next_seq r - 1) = []"
    using assms(1) by (auto simp: retained_after_def process_ok_defs seqs_def list_all_iff filter_empty_conv)
  obtain k where k: "k \<le> length ?F" "0 < k \<or> ?F = []" "maximum = None \<longrightarrow> k = length ?F"
    "read_chunks after maximum (p_output r) [] 0 (next_seq r) =
      (take k (map fst ?F), if k = 0 then next_seq r else chunk_seq (map fst ?F ! (k - 1)) + 1)"
    using read_chunks_take [of after "p_output r" maximum "[]" 0 "next_seq r"] by (auto simp: Let_def)
  have chunks: "chunks = take k (map fst ?F)"
    and nxt: "nxt = (if maximum = None \<or> k = 0 then next_seq r else chunk_seq (map fst ?F ! (k - 1)) + 1)"
    using assms(2) k(4) by (auto simp: read_window_def)
  show ?thesis
  proof (cases "maximum = None \<or> k = 0")
    case True
    then show ?thesis
      using none k(1-3) nxt chunks by (auto simp: retained_after_def)
  next
    case False
    let ?x = "?F ! (k - 1)"
    have less: "k - 1 < length ?F" and suc: "Suc (k - 1) = k"
      using False k(1) by linarith+
    then have x: "?x \<in> set ?F"
      by (intro nth_mem)
    then have above: "after < chunk_seq (fst ?x)"
      by (auto split: prod.splits)
    have "sorted_wrt (\<lambda>x y. chunk_seq (fst x) < chunk_seq (fst y)) (p_output r)"
      using assms(1) by (simp add: process_ok_defs seqs_def sorted_wrt_map)
    then have "sorted_wrt (\<lambda>x y. chunk_seq (fst x) < chunk_seq (fst y)) ?F"
      by (rule sorted_wrt_filter)
    from filter_above_sorted [OF this less]
    have "filter (\<lambda>y. chunk_seq (fst ?x) < chunk_seq (fst y)) ?F = drop k ?F"
      unfolding suc .
    moreover have "filter (\<lambda>y. chunk_seq (fst ?x) < chunk_seq (fst y)) ?F =
        filter (\<lambda>(c, n). chunk_seq (fst ?x) < chunk_seq c) (p_output r)"
      unfolding filter_filter using above by (intro filter_cong) auto
    moreover have "nxt - 1 = chunk_seq (fst ?x)"
      using False less nxt by auto
    ultimately have "retained_after r (nxt - 1) = drop k (map fst ?F)"
      unfolding retained_after_def drop_map by simp
    then show ?thesis
      using False k(1) chunks by (auto simp: retained_after_def)
  qed
qed

definition example_output :: Process where
  "example_output = example_process\<lparr>p_output := [([(lit ''seq'', JInt 1)], 3), ([(lit ''seq'', JInt 2)], 4)],
     retained_bytes := 7, next_seq := 3\<rparr>"

theorem read_resumes_witness:
  "[[(lit ''seq'', JInt 1)]] @ retained_after example_output 1 = retained_after example_output 0"
proof -
  have "process_ok example_output"
    by (simp add: example_output_def example_process_def new_process_def process_ok_defs seqs_def chunk_seq_def
        RETAINED_BYTES_def RETAINED_CHUNKS_def STDIN_BYTES_def)
  moreover have "read_window example_output 0 (Some 2) = ([[(lit ''seq'', JInt 1)]], 2)"
    by (simp add: read_window_def example_output_def chunk_seq_def)
  ultimately show ?thesis
    using read_resumes [of example_output 0 "Some 2" "[[(lit ''seq'', JInt 1)]]" 2] by simp
qed

end
