(* ===== verification/ProcessLifecycle.thy ===== *)
theory ProcessLifecycle
  imports NativeProcesses
begin

text \<open>
  The process backend of \<open>native_processes.py\<close>: the admission of a start request, the registry of
  processes, the life of one process from the workspace lease to its release, quarantine, expiry and the
  closing of a session.  The lease is the mutation lock shared with the file backend, so the steps include
  the file backend's own use of it.
\<close>

section \<open>The supervisor's identity\<close>

text \<open>One ancillary message: whether it carries descriptors, its length and the descriptors.\<close>

type_synonym ancillary = "bool \<times> nat \<times> nat list"

text \<open>\<open>bytes.splitlines()\<close>, with the current line reversed.\<close>

function split_lines :: "pybytes \<Rightarrow> pybytes \<Rightarrow> pybytes list" where
  "split_lines acc [] = (if acc = [] then [] else [rev acc])"
| "split_lines acc (b # bs) =
     (if b = 10 then rev acc # split_lines [] bs
      else if b = 13 then rev acc # split_lines [] (if bs \<noteq> [] \<and> hd bs = 10 then tl bs else bs)
      else split_lines (b # acc) bs)"
  by pat_completeness auto

termination split_lines
  by (relation "measure (\<lambda>(acc, bs). length bs)") auto

definition is_space :: "nat \<Rightarrow> bool" where
  "is_space b = (b = 32 \<or> 9 \<le> b \<and> b \<le> 13)"

definition strip :: "pybytes \<Rightarrow> pybytes" where
  "strip bs = rev (dropWhile is_space (rev (dropWhile is_space bs)))"

definition pid_lines :: "pybytes \<Rightarrow> pybytes list" where
  "pid_lines info = map (\<lambda>l. strip (drop 4 l)) (filter (\<lambda>l. take 4 l = lit ''Pid:'') (split_lines [] info))"

definition supervisor_message :: "int \<Rightarrow> json \<Rightarrow> bool" where
  "supervisor_message pid v = (is_obj v \<and> (let d = obj_of v in
     set (dkeys d) = {lit ''type'', lit ''pid'', lit ''profile''} \<and> dget d (lit ''type'') = jlit ''supervisor'' \<and>
     dget d (lit ''pid'') = JInt pid \<and> dget d (lit ''profile'') = jlit ''managed-process-v2''))"

definition receive_supervisor ::
    "int \<Rightarrow> pybytes \<Rightarrow> ancillary list \<Rightarrow> bool \<Rightarrow> (nat \<Rightarrow> bool) \<Rightarrow> (nat \<Rightarrow> pybytes) \<Rightarrow> (nat \<Rightarrow> bool) \<Rightarrow> exn + nat \<times> json" where
  "receive_supervisor pid payload anc truncated inheritable fdinfo alive =
     (let fds = concat (map (\<lambda>(rights, _, fds). if rights then fds else []) anc) in
      if \<not> (length anc = 1 \<and> list_all (\<lambda>(rights, len, _). rights \<and> len = 4) anc) \<or> length fds \<noteq> 1 \<or> truncated
      then Inl (rpc (-32603) ''Native supervisor did not transfer exactly one pinned process identity'')
      else bindE (decode_control payload) (\<lambda>message.
        if \<not> supervisor_message pid message then Inl (rpc (-32603) ''Native supervisor identity message differs'')
        else let fd = hd fds; info = take 4097 (fdinfo fd) in
          if inheritable fd then Inl (rpc (-32603) ''Native supervisor identity is inheritable'')
          else if 4096 < length info \<or> pid_lines info \<noteq> [int_str pid] \<or> \<not> alive fd
          then Inl (rpc (-32603) ''Native pidfd does not identify the expected live supervisor'')
          else Inr (fd, JObj (obj_of message @ [(lit ''closeOnExec'', JBool True),
            (lit ''identityRoute'', jlit ''native-self-pidfd/SCM_RIGHTS''), (lit ''waitOwner'', jlit ''asyncio'')]))))"

section \<open>The backend\<close>

type_synonym pkey = "pystr \<times> pystr"

datatype owner = Files | Run pkey

record NativeExecutable =
  exe_path :: pystr
  exe_device :: nat
  exe_inode :: nat

text \<open>\<open>NativeExecutable.admit\<close>, given the resolved path and the result of \<open>stat\<close>.\<close>

definition admit_executable :: "pystr \<Rightarrow> pystr \<Rightarrow> st_info \<Rightarrow> exn + NativeExecutable" where
  "admit_executable absolute resolved info =
     (if absolute \<noteq> resolved then Inl (ValueError (lit ''Native runtime aliases are unsupported''))
      else if \<not> is_reg info then Inl (ValueError (lit ''Native runtime must name a real regular executable''))
      else Inr \<lparr>exe_path = absolute, exe_device = st_dev info, exe_inode = st_ino info\<rparr>)"

record NativeProcessesBackend =
  np_executables :: "(pystr \<times> NativeExecutable) list"
  np_limits :: NativeProcessLimits
  np_parent :: "env option"
  np_runner :: pystr
  procs :: "(pkey \<times> Process) list"
  failed_procs :: "Process list"
  closing_sessions :: "pystr list"
  quarantined :: bool
  lease :: "owner option"

definition default_limits :: NativeProcessLimits where
  "default_limits = \<lparr>wall_ms = 3600000, address_space_bytes = 256 * 1024 * 1024, output_bytes = 64 * 1024 * 1024, uid_task_budget = 128\<rparr>"

definition relative_to :: "pystr \<Rightarrow> pystr \<Rightarrow> bool" where
  "relative_to p base = (let parts = (\<lambda>s. filter (\<lambda>c. c \<noteq> []) (split_on 47 s)) in take (length (parts base)) (parts p) = parts base)"

text \<open>
  \<open>__init__\<close>, with the executables already admitted: \<open>files\<close> is the composed file backend with whether
  it pins the same directory and whether the caller gave a lease other than its lock.
\<close>

definition native_processes_backend ::
    "pystr \<Rightarrow> pystr \<Rightarrow> GuestPath \<Rightarrow> env option \<Rightarrow> (pystr \<times> NativeExecutable) list \<Rightarrow> NativeProcessLimits option \<Rightarrow>
     (NativeFilesBackend \<times> bool \<times> bool) option \<Rightarrow> exn + NativeProcessesBackend" where
  "native_processes_backend runner workspace guest parent executables limits files =
     (if executables = [] \<or> list_ex (\<lambda>(name, _). name = []) executables
      then Inl (ValueError (lit ''An explicit immutable native runtime mapping is required''))
      else if list_ex (\<lambda>(_, exe). relative_to (exe_path exe) workspace) executables
      then Inl (ValueError (lit ''Native runtime grants must not overlap the managed workspace''))
      else seqE (case files of None \<Rightarrow> Inr ()
        | Some (fb, same_directory, foreign_lease) \<Rightarrow>
            if fs_closed fb \<or> \<not> same_directory \<or> mount fb \<noteq> guest
            then Inl (ValueError (lit ''Composed filesystem backend must own the same pinned workspace''))
            else raiseIf foreign_lease (ValueError (lit ''Composed process and file backends must share their mutation lock'')))
        (Inr \<lparr>np_executables = executables,
              np_limits = (case limits of None \<Rightarrow> default_limits | Some l \<Rightarrow> l),
              np_parent = parent, np_runner = runner, procs = [], failed_procs = [], closing_sessions = [],
              quarantined = False, lease = None\<rparr>))"

definition pget :: "NativeProcessesBackend \<Rightarrow> pkey \<Rightarrow> Process option" where
  "pget b k = map_of (procs b) k"

definition pput :: "pkey \<Rightarrow> Process \<Rightarrow> NativeProcessesBackend \<Rightarrow> NativeProcessesBackend" where
  "pput k r b = b\<lparr>procs := dict_put (procs b) k r\<rparr>"

definition ppop :: "pkey \<Rightarrow> NativeProcessesBackend \<Rightarrow> NativeProcessesBackend" where
  "ppop k b = b\<lparr>procs := filter (\<lambda>(k', _). k' \<noteq> k) (procs b)\<rparr>"

section \<open>Starting\<close>

definition truthy :: "json \<Rightarrow> bool" where
  "truthy v = (case v of JNull \<Rightarrow> False | JBool b \<Rightarrow> b | JInt i \<Rightarrow> i \<noteq> 0 | JFloat f \<Rightarrow> f \<noteq> FFinite True 0 \<and> f \<noteq> FFinite False 0
     | JStr s \<Rightarrow> s \<noteq> [] | JArr xs \<Rightarrow> xs \<noteq> [] | JObj d \<Rightarrow> d \<noteq> [])"

definition validate_launch_context :: "dict \<Rightarrow> exn + unit" where
  "validate_launch_context params =
     raiseIf (dget params (lit ''sandbox'') = JNull \<or> dget params (lit ''cwd'') \<noteq> dget (obj_of (dget params (lit ''sandbox''))) (lit ''cwd''))
       (rpc (-32602) ''Native launch requires its complete matching portable sandbox context'')"

definition unsupported_launch :: "dict \<Rightarrow> bool" where
  "unsupported_launch params = (truthy (dget params (lit ''tty'')) \<or>
     list_ex (\<lambda>k. dget params (lit k) \<noteq> JNull) [''shellSnapshot'', ''managedNetwork'', ''networkProxy''] \<or>
     truthy (dget params (lit ''enforceManagedNetwork'')))"

definition start_process :: "NativeProcessesBackend \<Rightarrow> BackendCall \<Rightarrow> dict \<Rightarrow> exn + Process" where
  "start_process b call params =
     (let argv = map str_of (arr_of (dget params (lit ''argv''))); arg0 = dget params (lit ''arg0'');
          key = (call_session call, str_of (dget params (lit ''processId''))) in
      if quarantined b then Inl (rpc (-32603) ''Native workspace cleanup is unknown; subsequent acquisition is refused'')
      else if unsupported_launch params
      then Inl (rpc (-32602) ''TTY, shell snapshots and managed networking are outside the static native profile'')
      else if argv = [] \<or> 256 < length argv \<or> list_ex (\<lambda>a. 0 \<in> set a) argv
      then Inl (rpc (-32602) ''Invalid native argument vector'')
      else if map_of (np_executables b) (hd argv) = None
      then Inl (rpc (-32602) ''Executable is outside the admitted native runtime mapping'')
      else if arg0 \<noteq> JNull \<and> 0 \<in> set (str_of arg0) then Inl (rpc (-32602) ''Invalid native argv0'')
      else bindE (process_environment params (np_parent b)) (\<lambda>environment.
        seqE (validate_launch_context params)
         (if pget b key \<noteq> None then Inl (rpc (-32600) ''Process id already exists in this session'')
          else if 128 \<le> length (procs b) then Inl (rpc (-32000) ''Static native process registry capacity exhausted'')
          else Inr (new_process call params ((if arg0 \<noteq> JNull then str_of arg0 else hd argv) # tl argv) environment))))"

text \<open>The answer of \<open>_start\<close> once \<open>started\<close> is settled.\<close>

definition start_answer :: "Process \<Rightarrow> (exn + json) option" where
  "start_answer r =
     (case p_started r of
        Unset \<Rightarrow> None
      | Resolved \<Rightarrow> Some (Inr (JObj [(lit ''processId'', JStr (p_key r)), (lit ''sandboxType'', jlit ''linuxSeccomp'')]))
      | Rejected e \<Rightarrow> if p_finished r then Some (Inl e) else None)"

section \<open>Requests\<close>

definition is_live :: "Process \<Rightarrow> bool" where
  "is_live r = (p_state r \<noteq> Complete \<and> exit_code r = None)"

definition write_process :: "NativeProcessesBackend \<Rightarrow> pkey \<Rightarrow> dict \<Rightarrow> NativeProcessesBackend \<times> (exn + json option)" where
  "write_process b key params =
     (case process_write (pget b key) params of
        (None, answer) \<Rightarrow> (b, answer)
      | (Some r, answer) \<Rightarrow> (pput key r b, answer))"

definition signal_process :: "bool \<Rightarrow> NativeProcessesBackend \<Rightarrow> pkey \<Rightarrow> NativeProcessesBackend \<times> (exn + json option)" where
  "signal_process sent b key =
     (case pget b key of
        None \<Rightarrow> (b, Inr (Some empty_result))
      | Some r \<Rightarrow>
          if p_state r = Running \<and> exit_code r = None then
            if sent then (pput key (r\<lparr>p_command := map_option (\<lambda>c. c @ [73]) (p_command r)\<rparr>) b, Inr (Some empty_result))
            else (b, Inl (rpc (-32603) ''Native interrupt transport failed before an observed exit''))
          else (b, Inr (Some empty_result)))"

definition terminate_process :: "bool \<Rightarrow> bool \<Rightarrow> NativeProcessesBackend \<Rightarrow> pkey \<Rightarrow> NativeProcessesBackend \<times> (exn + json option)" where
  "terminate_process sent delivered b key =
     (let running = (case pget b key of None \<Rightarrow> False | Some r \<Rightarrow> is_live r) in
      (if running then pput key (terminate sent delivered (the (pget b key))) b else b,
       Inr (Some (JObj [(lit ''running'', JBool running)]))))"

text \<open>
  The handler up to its first wait; \<open>Inr None\<close> is an answer that comes later.  \<open>sent\<close> and
  \<open>delivered\<close> are the fate of the packet to the supervisor, \<open>expired\<close> that a read may not wait.
\<close>

definition handle_process ::
    "bool \<Rightarrow> bool \<Rightarrow> bool \<Rightarrow> NativeProcessesBackend \<Rightarrow> BackendCall \<Rightarrow> NativeProcessesBackend \<times> (exn + json option)" where
  "handle_process sent delivered expired b call =
     (case call_params call of
        Inl e \<Rightarrow> (b, Inl e)
      | Inr v \<Rightarrow>
          (case validate_operation (call_method call) v of
             Inl e \<Rightarrow> (b, Inl e)
           | Inr _ \<Rightarrow>
               let m = call_method call; params = obj_of v;
                   key = (call_session call, str_of (dget params (lit ''processId''))) in
               if m \<notin> set METHODS then (b, Inl (rpc (-32601) ''Unsupported native process method''))
               else if call_session call \<in> set (closing_sessions b)
               then (b, Inl (rpc (-32600) ''Native process session is closing''))
               else if m = lit ''process/start'' then
                 (case start_process b call params of
                    Inl e \<Rightarrow> (b, Inl e)
                  | Inr r \<Rightarrow> (pput key r b, Inr None))
               else if m = lit ''process/read'' then (b, process_read (pget b key) params expired)
               else if m = lit ''process/write'' then write_process b key params
               else if m = lit ''process/signal'' then signal_process sent b key
               else terminate_process sent delivered b key))"

section \<open>The life of a process\<close>

text \<open>\<open>type(request_id).__name__ + ":" + str(request_id)\<close>.\<close>

definition request_name :: "json \<Rightarrow> pystr" where
  "request_name v = (case v of JInt _ \<Rightarrow> lit ''int:'' | _ \<Rightarrow> lit ''str:'') @ id_text v"

definition pipes_stdin :: "Process \<Rightarrow> bool" where
  "pipes_stdin r = truthy (dget (p_params r) (lit ''pipeStdin''))"

text \<open>
  \<open>_run\<close> from the lease to the spawn, cut where it waits: the check after the lease, the policy made in a
  thread, and the spawn, with \<open>info\<close> the executable's identity at that moment.
\<close>

definition run_admit :: "bool \<Rightarrow> Process \<Rightarrow> exn + unit" where
  "run_admit in_quarantine r =
     raiseIf (in_quarantine \<or> termination_requested r)
       (rpc (-32600) ''Native process start was cancelled or its workspace quarantined'')"

definition run_policy :: "nat \<Rightarrow> fsnode \<Rightarrow> NativeFilesBackend \<Rightarrow> Process \<Rightarrow> exn + Process" where
  "run_policy uid tree fb r =
     bindE (native_process_policy uid tree fb False (dget (p_params r) (lit ''sandbox'')) (p_session r) (request_name (p_request r)))
       (\<lambda>pp. Inr (r\<lparr>p_policy := Some pp\<rparr>))"

definition run_spawn :: "NativeExecutable \<Rightarrow> st_info \<Rightarrow> Process \<Rightarrow> exn + Process" where
  "run_spawn exe info r =
     (if termination_requested r then Inl (rpc (-32600) ''Native process start was cancelled before spawn'')
      else if (st_dev info, st_ino info) \<noteq> (exe_device exe, exe_inode exe)
      then Inl (rpc (-32603) ''Admitted native executable identity changed'')
      else Inr (r\<lparr>p_command := Some [], p_stdin := pipes_stdin r, stdin_closed := \<not> pipes_stdin r, p_spawned := True\<rparr>))"

definition runner_arguments ::
    "NativeProcessesBackend \<Rightarrow> NativeExecutable \<Rightarrow> nat \<Rightarrow> nat \<Rightarrow> nat \<Rightarrow> nat \<Rightarrow> nat \<Rightarrow> Process \<Rightarrow> pystr list" where
  "runner_arguments b exe root_dir peer read_fd command_fd env_fd r =
     [np_runner b, nat_digits root_dir, nat_digits peer, exe_path exe, int_str (wall_ms (np_limits b)),
      int_str (address_space_bytes (np_limits b)), int_str (output_bytes (np_limits b)), int_str (uid_task_budget (np_limits b)),
      lit ''--process-v2'', nat_digits read_fd, nat_digits command_fd, nat_digits env_fd, lit ''--''] @ p_argv r"

definition cleanup_verified :: "Process \<Rightarrow> bool" where
  "cleanup_verified r =
     (case native_result r of None \<Rightarrow> False | Some v \<Rightarrow> dget (obj_of v) (lit ''cleanupComplete'') = JBool True)"

text \<open>The checks of \<open>_run\<close> after the supervisor has ended.\<close>

definition run_verify :: "Process \<Rightarrow> exn + Process" where
  "run_verify r =
     (let d = (case native_result r of None \<Rightarrow> [] | Some v \<Rightarrow> obj_of v) in
      if native_result r = None \<or> set (dkeys d) \<noteq> set RESULT_FIELDS \<or> \<not> cleanup_verified r
      then Inl (rpc (-32603) ''Native process lacks verified descendant cleanup'')
      else if dget d (lit ''stdoutBytes'') \<noteq> JInt (stdout_count r) \<or> dget d (lit ''stderrBytes'') \<noteq> JInt (stderr_count r)
      then Inl (rpc (-32603) ''Native output accounting differs from actual pipes'')
      else if p_started r \<noteq> Resolved then Inl (rpc (-32603) ''Native process failed before verified exec'')
      else if exit_code r \<noteq> Some (exit_status (int_of (dget d (lit ''exitCode''))) (int_of (dget d (lit ''signal'')))) \<or>
        dget d (lit ''started'') \<noteq> JBool True
      then Inl (rpc (-32603) ''Native final status differs from observed leader exit'')
      else if str_of (dget d (lit ''outcome'')) \<in> {lit ''exited'', lit ''cancelled''} then Inr r
      else Inr (r\<lparr>p_failure := Some (lit ''Native process ended with '' @ str_of (dget d (lit ''outcome'')))\<rparr>))"

text \<open>The \<open>except BaseException\<close> block; \<open>cancelled\<close> is the test for \<open>CancelledError\<close>.\<close>

definition run_failed :: "bool \<Rightarrow> Process \<Rightarrow> Process" where
  "run_failed cancelled r =
     (let msg = (case p_failure r of Some m \<Rightarrow> m
        | None \<Rightarrow> if cancelled then lit ''Native process start cancelled'' else lit ''Native process supervision failed'') in
      r\<lparr>p_failure := Some msg,
        p_started := (if p_started r = Unset then Rejected (RpcError (-32603) msg None) else p_started r)\<rparr>)"

text \<open>
  How the supervisor was reaped: it had ended, it ended within seven seconds of the request, it was lost
  (killed, with or without being reaped afterwards).
\<close>

datatype reaping = Ended int | EndedOnRequest int | Lost "int option"

text \<open>The part of the \<open>finally\<close> block that ends the process.\<close>

definition run_reap :: "bool \<Rightarrow> bool \<Rightarrow> reaping \<Rightarrow> Process \<Rightarrow> Process" where
  "run_reap sent delivered how r =
     (if \<not> p_spawned r then r
      else case how of
          Ended code \<Rightarrow> r\<lparr>p_returncode := Some code\<rparr>
        | EndedOnRequest code \<Rightarrow> (terminate sent delivered r)\<lparr>p_returncode := Some code\<rparr>
        | Lost code \<Rightarrow>
            (signal_supervisor delivered 9 (terminate sent delivered r))
              \<lparr>p_returncode := code,
               p_failure := Some (lit ''Native supervisor lost; descendant cleanup is unknown'')\<rparr>)"

definition run_settle :: "Process \<Rightarrow> Process" where
  "run_settle r =
     (let unclean = (p_spawned r \<and> \<not> cleanup_verified r);
          r = r\<lparr>p_stdin := False, stdin_closed := True, p_command := None,
                supervisor_fd := supervisor_fd r \<and> \<not> (p_spawned r \<and> p_returncode r \<noteq> None)\<rparr>;
          r = (if unclean then r\<lparr>p_failure := Some (lit ''Native descendant cleanup is unknown; workspace remains quarantined'')\<rparr> else r);
          r = (if unclean then r else r\<lparr>p_policy := map_option close_policy (p_policy r)\<rparr>);
          r = r\<lparr>p_started := (if p_started r = Unset
                   then Rejected (RpcError (-32603) (case p_failure r of Some m \<Rightarrow> m | None \<Rightarrow> lit ''Native process failed before exec'') None)
                   else p_started r)\<rparr> in
      r\<lparr>p_state := Complete, p_closed := \<not> unclean\<rparr>)"

text \<open>The end of the notification queue: the sentinel, or the cancelled notifier when the queue is full.\<close>

definition put_end :: "Process \<Rightarrow> Process" where
  "put_end r = (if length (notifications r) < NOTIFICATION_CAPACITY then r\<lparr>notifications := notifications r @ [None]\<rparr> else r)"

definition run_finally ::
    "bool \<Rightarrow> bool \<Rightarrow> reaping \<Rightarrow> bool \<Rightarrow> pkey \<Rightarrow> Process \<Rightarrow> NativeProcessesBackend \<Rightarrow> exn + NativeProcessesBackend" where
  "run_finally sent delivered how owned k r b =
     (let was_started = (p_started r = Resolved);
          r = run_settle (run_reap sent delivered how r);
          b = (if p_closed r then b else b\<lparr>quarantined := True\<rparr>);
          b = (if owned \<and> p_closed r then b\<lparr>lease := None\<rparr> else b) in
      bindE (if was_started \<and> p_closed r then event sent delivered (lit ''process/closed'') [] r else Inr r) (\<lambda>r.
        let r = (put_end r)\<lparr>p_finished := True\<rparr> in
        Inr (if was_started then pput k r b
             else ppop k (b\<lparr>failed_procs := drop (length (failed_procs b) + 1 - 128) (failed_procs b @ [r])\<rparr>))))"

definition expire :: "pkey \<Rightarrow> NativeProcessesBackend \<Rightarrow> NativeProcessesBackend" where
  "expire k b = (case pget b k of None \<Rightarrow> b | Some r \<Rightarrow> if p_closed r then ppop k b else b)"

text \<open>
  \<open>close\<close>: first every unfinished record of the session is asked to end; when all of them have
  finished they are forgotten, and an unclean one is reported.
\<close>

definition session_records :: "pystr \<Rightarrow> NativeProcessesBackend \<Rightarrow> (pkey \<times> Process) list" where
  "session_records sid b = filter (\<lambda>((s, _), _). s = sid) (procs b)"

definition close_begin :: "bool \<Rightarrow> bool \<Rightarrow> pystr \<Rightarrow> NativeProcessesBackend \<Rightarrow> NativeProcessesBackend" where
  "close_begin sent delivered sid b =
     b\<lparr>closing_sessions := List.insert sid (closing_sessions b),
       procs := map (\<lambda>(k, r). (k, if fst k = sid \<and> \<not> p_finished r then terminate sent delivered r else r)) (procs b)\<rparr>"

definition close_end :: "pystr \<Rightarrow> NativeProcessesBackend \<Rightarrow> NativeProcessesBackend \<times> (exn + unit)" where
  "close_end sid b =
     (let records = map snd (session_records sid b) @ filter (\<lambda>r. p_session r = sid \<and> \<not> p_closed r) (failed_procs b) in
      (b\<lparr>procs := filter (\<lambda>((s, _), _). s \<noteq> sid) (procs b)\<rparr>,
       raiseIf (list_ex (\<lambda>r. p_spawned r \<and> \<not> p_closed r) records)
         (rpc (-32603) ''Session closed with unknown native descendant cleanup'')))"


section \<open>Steps of the backend\<close>

datatype proc_label =
    FileBegin
  | FileEnd
  | Request BackendCall "exn + json option"
  | Acquire pkey
  | Policy pkey
  | Spawn pkey
  | Record pkey rec_label
  | Delivered pkey
  | Finish pkey
  | Expire pkey
  | CloseBegin pystr
  | CloseEnd pystr

inductive proc_step :: "nat \<Rightarrow> NativeProcessesBackend \<Rightarrow> proc_label \<Rightarrow> NativeProcessesBackend \<Rightarrow> bool" for uid where
  file_begin: "lease b = None \<Longrightarrow> proc_step uid b FileBegin (b\<lparr>lease := Some Files\<rparr>)"
| file_end: "lease b = Some Files \<Longrightarrow> proc_step uid b FileEnd (b\<lparr>lease := None\<rparr>)"
| request: "handle_process st dl expired b call = (b', answer) \<Longrightarrow> proc_step uid b (Request call answer) b'"
| acquire: "pget b k = Some r \<Longrightarrow> p_state r \<noteq> Complete \<Longrightarrow> lease b = None \<Longrightarrow>
     proc_step uid b (Acquire k) (b\<lparr>lease := Some (Run k)\<rparr>)"
| policy: "pget b k = Some r \<Longrightarrow> p_state r \<noteq> Complete \<Longrightarrow> lease b = Some (Run k) \<Longrightarrow> \<not> p_spawned r \<Longrightarrow>
     run_admit (quarantined b) r = Inr () \<Longrightarrow> run_policy uid tree fb r = Inr r' \<Longrightarrow> proc_step uid b (Policy k) (pput k r' b)"
| spawn: "pget b k = Some r \<Longrightarrow> p_state r \<noteq> Complete \<Longrightarrow> lease b = Some (Run k) \<Longrightarrow> \<not> p_spawned r \<Longrightarrow> p_policy r \<noteq> None \<Longrightarrow>
     run_spawn exe info r = Inr r' \<Longrightarrow> proc_step uid b (Spawn k) (pput k r' b)"
| record_step: "pget b k = Some r \<Longrightarrow> p_spawned r \<Longrightarrow> p_state r \<noteq> Complete \<Longrightarrow> rec_step (np_limits b) uid r l r' \<Longrightarrow>
     proc_step uid b (Record k l) (pput k r' b)"
| delivered: "pget b k = Some r \<Longrightarrow> proc_step uid b (Delivered k) (pput k (notify_next ok st dl r) b)"
| finish: "pget b k = Some r \<Longrightarrow> p_state r \<noteq> Complete \<Longrightarrow> run_verify r = Inr r' \<or> r' = run_failed cancelled r \<Longrightarrow>
     run_finally st dl how (lease b = Some (Run k)) k r' b = Inr b' \<Longrightarrow> proc_step uid b (Finish k) b'"
| expiry: "proc_step uid b (Expire k) (expire k b)"
| close_begins: "proc_step uid b (CloseBegin sid) (close_begin st dl sid b)"
| close_ends: "list_all (\<lambda>(k, r). p_finished r) (session_records sid b) \<Longrightarrow>
     proc_step uid b (CloseEnd sid) (fst (close_end sid b))"

inductive_cases proc_stepE: "proc_step uid b l b'"

section \<open>Exclusive workspace\<close>

definition record_ok :: "NativeProcessesBackend \<Rightarrow> pkey \<Rightarrow> Process \<Rightarrow> bool" where
  "record_ok b k r \<longleftrightarrow> process_ok r \<and> (p_finished r \<longleftrightarrow> p_state r = Complete) \<and> (p_closed r \<longrightarrow> p_state r = Complete) \<and>
     (p_spawned r \<and> \<not> p_closed r \<longrightarrow> lease b = Some (Run k))"

definition lease_ok :: "NativeProcessesBackend \<Rightarrow> bool" where
  "lease_ok b \<longleftrightarrow>
     (case lease b of
        Some (Run k) \<Rightarrow> if quarantined b then \<forall>r. pget b k = Some r \<longrightarrow> p_state r = Complete
          else \<exists>r. pget b k = Some r \<and> p_state r \<noteq> Complete
      | _ \<Rightarrow> \<not> quarantined b)"

definition backend_ok :: "NativeProcessesBackend \<Rightarrow> bool" where
  "backend_ok b \<longleftrightarrow> distinct (map fst (procs b)) \<and> (\<forall>k r. pget b k = Some r \<longrightarrow> record_ok b k r) \<and> lease_ok b"

lemma backend_okI:
  "distinct (map fst (procs b)) \<Longrightarrow> (\<And>k r. pget b k = Some r \<Longrightarrow> record_ok b k r) \<Longrightarrow> lease_ok b \<Longrightarrow> backend_ok b"
  unfolding backend_ok_def by blast

lemma backend_okD:
  assumes "backend_ok b"
  shows "distinct (map fst (procs b))" and "lease_ok b" and "pget b k = Some r \<Longrightarrow> record_ok b k r"
  using assms unfolding backend_ok_def by blast+

lemma record_ok_lease: "lease b' = lease b \<Longrightarrow> record_ok b' k r = record_ok b k r"
  by (simp add: record_ok_def)

lemma pget_simps [simp]:
  "pget (pput k r b) k' = (if k' = k then Some r else pget b k')"
  "pget (b\<lparr>lease := x\<rparr>) k' = pget b k'" "pget (b\<lparr>quarantined := y\<rparr>) k' = pget b k'"
  "pget (b\<lparr>failed_procs := z\<rparr>) k' = pget b k'"
  by (simp_all add: pget_def pput_def dict_put_lookup)

lemma pput_frame [simp]:
  "lease (pput k r b) = lease b" "quarantined (pput k r b) = quarantined b" "closing_sessions (pput k r b) = closing_sessions b"
  by (simp_all add: pput_def)

lemma map_of_filter_keys: "map_of (filter (\<lambda>(k, _). P k) xs) k = (if P k then map_of xs k else None)"
  by (induction xs) auto

lemma ppop_simps [simp]:
  "pget (ppop k b) k' = (if k' = k then None else pget b k')"
  "lease (ppop k b) = lease b" "quarantined (ppop k b) = quarantined b"
  by (simp_all add: pget_def ppop_def map_of_filter_keys)

lemma distinct_pput: "distinct (map fst (procs b)) \<Longrightarrow> distinct (map fst (procs (pput k r b)))"
  by (simp add: pput_def dict_put_distinct)

lemma distinct_filter_keys: "distinct (map fst xs) \<Longrightarrow> distinct (map fst (filter P xs))"
  by (simp add: distinct_map inj_on_def)


text \<open>What the operations on a running record leave alone.\<close>

definition same_life :: "Process \<Rightarrow> Process \<Rightarrow> bool" where
  "same_life r r' \<longleftrightarrow> p_finished r' = p_finished r \<and> p_closed r' = p_closed r \<and> p_spawned r' = p_spawned r \<and>
     (p_state r' = Complete \<longleftrightarrow> p_state r = Complete)"

lemma same_life_refl [simp]: "same_life r r"
  by (simp add: same_life_def)

lemma same_life_trans: "same_life a b \<Longrightarrow> same_life b c \<Longrightarrow> same_life a c"
  by (simp add: same_life_def)

lemma terminate_life [simp]: "same_life r (terminate st dl r)"
  by (simp add: same_life_def terminate_def signal_supervisor_def Let_def split: option.split)

lemma put_notification_life: "same_life r (put_notification st dl item r)"
  using terminate_life [of "r\<lparr>p_failure := f\<rparr>" for f]
  by (auto simp: put_notification_def same_life_def)

lemma retain_life: "same_life r (retain c n r)"
  by (simp add: retain_def same_life_def split: prod.split)

lemma event_life:
  assumes "event st dl m payload r = Inr r'"
  shows "same_life r r'"
proof -
  have next_seq: "same_life r (r\<lparr>next_seq := q\<rparr>)" for q
    by (simp add: same_life_def)
  show ?thesis
    using assms unfolding event_def Let_def
    by (auto split: if_splits option.splits
        intro: same_life_trans [OF next_seq put_notification_life]
          same_life_trans [OF same_life_trans [OF next_seq retain_life] put_notification_life])
qed

lemma notify_next_life: "same_life r (notify_next ok st dl r)"
  using terminate_life [of "r\<lparr>notifications := n, p_failure := f\<rparr>" for n f]
  by (auto simp: notify_next_def same_life_def Let_def split: list.split option.split)

lemma write_round_life: "write_round wid data r = (r', ans) \<Longrightarrow> same_life r r'"
  by (auto simp: write_round_def same_life_def Let_def split: if_splits)

lemma control_message_life:
  assumes "control_message uid tree st dl message r = Inr (r', reply)" and "p_state r \<noteq> Complete"
  shows "same_life r r'"
proof -
  have "same_life r r'" if "control_started st dl d r = Inr r'" for d r'
    using that assms(2) terminate_life [of "r\<lparr>native_started := Some (JObj d)\<rparr>" st dl]
    by (auto simp: control_started_def same_life_def Let_def split: if_splits)
  moreover have "same_life r r'" if "control_exited st dl d r = Inr r'" for d r'
    using that by (auto simp: control_exited_def same_life_def Let_def split: if_splits dest!: event_life)
  moreover have "same_life r r'" if "control_result d r = Inr r'" for d r'
    using that by (auto simp: control_result_def same_life_def split: if_splits)
  moreover have "same_life r (r\<lparr>p_policy := x\<rparr>)" for x
    by (simp add: same_life_def)
  ultimately show ?thesis
    using assms unfolding control_message_def Let_def
    by (auto simp: bindE_Inr_iff split: option.splits if_splits)
qed

lemma rec_step_life:
  assumes "rec_step limits uid r l r'" and "p_state r \<noteq> Complete"
  shows "same_life r r'"
  using assms
proof cases
  case (lifecycle tree st dl message reply)
  then show ?thesis using control_message_life assms(2) by blast
next
  case (published st dl err data)
  then show ?thesis
    using event_life by (auto simp: output_published_def same_life_def split: future.splits)
next
  case (received err data)
  then show ?thesis
    by (auto simp: same_life_def output_received_def Let_def split: if_splits)
qed (auto simp: write_round_life notify_next_life, auto simp: same_life_def writer_wrote_def writer_end_def split: list.split)

lemma backend_ok_update:
  assumes "backend_ok b" and "pget b k = Some r" and "same_life r r'" and "process_ok r'"
  shows "backend_ok (pput k r' b)"
proof (rule backend_okI)
  note ok = backend_okD [OF assms(1)]
  show "distinct (map fst (procs (pput k r' b)))"
    by (rule distinct_pput [OF ok(1)])
  show "lease_ok (pput k r' b)"
    using ok(2) assms(2,3) by (auto simp: lease_ok_def same_life_def split: option.splits owner.splits if_splits)
  show "record_ok (pput k r' b) k' q" if "pget (pput k r' b) k' = Some q" for k' q
  proof (cases "k' = k")
    case True
    with that ok(3) [OF assms(2)] assms(3,4) show ?thesis
      by (simp add: record_ok_def same_life_def)
  next
    case False
    with that show ?thesis
      using ok(3) [of k' q] by (simp add: record_ok_def)
  qed
qed

lemma backend_ok_start:
  assumes "backend_ok b" and "pget b k = None" and "\<not> quarantined b" and "process_ok r" and "p_state r = Starting"
    and "\<not> p_finished r" and "\<not> p_closed r" and "\<not> p_spawned r"
  shows "backend_ok (pput k r b)"
proof (rule backend_okI)
  note ok = backend_okD [OF assms(1)]
  show "distinct (map fst (procs (pput k r b)))"
    by (rule distinct_pput [OF ok(1)])
  show "lease_ok (pput k r b)"
    using ok(2) assms(2,3) by (auto simp: lease_ok_def split: option.splits owner.splits if_splits)
  show "record_ok (pput k r b) k' q" if "pget (pput k r b) k' = Some q" for k' q
    using ok(3) [of k' q] that assms(4-8) by (cases "k' = k") (simp_all add: record_ok_def)
qed

lemma start_process_fresh:
  assumes "start_process b call params = Inr r"
  shows "\<not> quarantined b" and "pget b (call_session call, str_of (dget params (lit ''processId''))) = None"
    and "process_ok r" and "p_state r = Starting" and "\<not> p_finished r" and "\<not> p_closed r" and "\<not> p_spawned r"
proof -
  obtain argv environment where "r = new_process call params argv environment"
    and *: "\<not> quarantined b" "pget b (call_session call, str_of (dget params (lit ''processId''))) = None"
    using assms unfolding start_process_def Let_def by (elim exn_elims) auto
  then show "process_ok r" "p_state r = Starting" "\<not> p_finished r" "\<not> p_closed r" "\<not> p_spawned r"
    using new_process_ok by (simp_all add: new_process_def)
  show "\<not> quarantined b" "pget b (call_session call, str_of (dget params (lit ''processId''))) = None"
    by (rule *)+
qed

lemma process_write_record:
  assumes "process_write rec params = (Some r', answer)"
  shows "\<exists>r. rec = Some r \<and> same_life r r' \<and> (process_ok r \<longrightarrow> process_ok r')"
proof -
  have "rec = Some r' \<or> (\<exists>r wid data. rec = Some r \<and> write_round wid data r = (r', answer))"
    using assms by (auto simp: process_write_def Let_def split: if_splits option.splits prod.splits)
  then show ?thesis
    using write_round_life write_round_ok by (auto simp: same_life_def)
qed

text \<open>A request leaves the backend alone, reserves a fresh record or updates a record that exists.\<close>

definition request_effect :: "NativeProcessesBackend \<Rightarrow> BackendCall \<Rightarrow> NativeProcessesBackend \<Rightarrow> bool" where
  "request_effect b call b' \<longleftrightarrow> b' = b \<or>
     (\<exists>params r. start_process b call params = Inr r \<and> b' = pput (call_session call, str_of (dget params (lit ''processId''))) r b) \<or>
     (\<exists>k r r'. pget b k = Some r \<and> same_life r r' \<and> (process_ok r \<longrightarrow> process_ok r') \<and> b' = pput k r' b)"

lemma request_effectI:
  "request_effect b call b"
  "start_process b call params = Inr r \<Longrightarrow>
     request_effect b call (pput (call_session call, str_of (dget params (lit ''processId''))) r b)"
  "pget b k = Some r \<Longrightarrow> same_life r r' \<Longrightarrow> process_ok r \<longrightarrow> process_ok r' \<Longrightarrow> request_effect b call (pput k r' b)"
  unfolding request_effect_def by blast+

lemma write_process_effect:
  assumes "write_process b key params = (b', answer)"
  shows "request_effect b call b'"
proof (cases "process_write (pget b key) params")
  case (Pair rec answer)
  show ?thesis
  proof (cases rec)
    case None
    with Pair assms show ?thesis by (simp add: write_process_def request_effectI(1))
  next
    case (Some r')
    from process_write_record [OF Pair [unfolded this]] Pair Some assms show ?thesis
      by (auto simp: write_process_def intro: request_effectI(3))
  qed
qed

lemma signal_process_effect: "signal_process sent b key = (b', answer) \<Longrightarrow> request_effect b call b'"
proof -
  have cmd: "same_life r (r\<lparr>p_command := c\<rparr>)" "process_ok (r\<lparr>p_command := c\<rparr>) = process_ok r" for r c
    by (simp_all add: same_life_def process_ok_defs)
  show "signal_process sent b key = (b', answer) \<Longrightarrow> request_effect b call b'"
    unfolding signal_process_def
    by (auto split: option.splits if_splits intro!: request_effectI(1) request_effectI(3) [OF _ cmd(1)] simp: cmd(2))
qed

lemma terminate_process_effect:
  assumes "terminate_process sent delivered b key = (b', answer)"
  shows "request_effect b call b'"
proof (cases "pget b key")
  case (Some r)
  with assms request_effectI(3) [OF Some terminate_life] show ?thesis
    by (auto simp: terminate_process_def Let_def request_effectI(1) split: if_splits)
qed (use assms in \<open>simp add: terminate_process_def request_effectI(1)\<close>)

lemma handle_process_effect:
  assumes "handle_process st dl expired b call = (b', answer)"
  shows "request_effect b call b'"
  using assms unfolding handle_process_def Let_def
  by (auto split: sum.splits if_splits simp: request_effectI(1)
      intro: request_effectI(2) write_process_effect signal_process_effect terminate_process_effect)

lemma request_ok:
  assumes "backend_ok b" and "request_effect b call b'"
  shows "backend_ok b'"
  using assms(2) unfolding request_effect_def
proof (elim disjE exE conjE)
  assume "b' = b"
  with assms(1) show ?thesis by simp
next
  fix params r
  assume r: "start_process b call params = Inr r" "b' = pput (call_session call, str_of (dget params (lit ''processId''))) r b"
  note fresh = start_process_fresh [OF r(1)]
  from backend_ok_start [OF assms(1) fresh(2,1) fresh(3-7)] r(2) show ?thesis by simp
next
  fix k r r'
  assume k: "pget b k = Some r" "same_life r r'" "process_ok r \<longrightarrow> process_ok r'" "b' = pput k r' b"
  moreover have "process_ok r"
    using backend_okD(3) [OF assms(1) k(1)] by (simp add: record_ok_def)
  ultimately show ?thesis
    using backend_ok_update [OF assms(1)] by blast
qed

text \<open>The end of a run.\<close>

lemma run_reap_frame [simp]:
  "p_spawned (run_reap st dl how r) = p_spawned r" "native_result (run_reap st dl how r) = native_result r"
  "process_ok (run_reap st dl how r) = process_ok r"
proof -
  have res: "native_result (signal_supervisor dl n r) = native_result r" "native_result (terminate st dl r) = native_result r" for n r
    by (simp_all add: signal_supervisor_def terminate_def Let_def split: option.split)
  have frame: "process_ok (r\<lparr>p_returncode := c\<rparr>) = process_ok r" "process_ok (r\<lparr>p_returncode := c, p_failure := f\<rparr>) = process_ok r"
    "process_ok (signal_supervisor dl n r) = process_ok r" for r c f n
    by (simp_all add: process_ok_defs)
  show "p_spawned (run_reap st dl how r) = p_spawned r" "native_result (run_reap st dl how r) = native_result r"
    "process_ok (run_reap st dl how r) = process_ok r"
    by (cases how; simp add: run_reap_def res frame)+
qed

lemma run_settle_frame [simp]:
  "p_spawned (run_settle r) = p_spawned r" "p_state (run_settle r) = Complete"
  "p_closed (run_settle r) \<longleftrightarrow> \<not> (p_spawned r \<and> \<not> cleanup_verified r)" "process_ok (run_settle r) = process_ok r"
  by (simp_all add: run_settle_def Let_def process_ok_defs)

lemma cleanup_verified_reap [simp]: "cleanup_verified (run_reap st dl how r) = cleanup_verified r"
  by (simp add: cleanup_verified_def)


text \<open>
  A record that completes gives the lease back when its cleanup is known; otherwise the backend enters
  quarantine with the lease.
\<close>

definition completed :: "pkey \<Rightarrow> bool \<Rightarrow> NativeProcessesBackend \<Rightarrow> NativeProcessesBackend \<Rightarrow> bool" where
  "completed k clean b b2 \<longleftrightarrow> procs b2 = procs b \<and>
     (if clean then lease b2 = (if lease b = Some (Run k) then None else lease b) \<and> quarantined b2 = quarantined b
      else lease b = Some (Run k) \<and> lease b2 = lease b \<and> quarantined b2)"

lemma lease_ok_completed:
  assumes "backend_ok b" and "pget b k = Some r" and "p_state r \<noteq> Complete" and "completed k clean b b2"
    and "\<And>k'. k' \<noteq> k \<Longrightarrow> pget b3 k' = pget b k'" and "\<And>q. pget b3 k = Some q \<Longrightarrow> p_state q = Complete"
    and "lease b3 = lease b2" and "quarantined b3 = quarantined b2"
  shows "lease_ok b3"
proof (cases "lease b = Some (Run k)")
  case True
  moreover have "\<not> quarantined b"
    using backend_okD(2) [OF assms(1)] assms(2,3) True by (auto simp: lease_ok_def)
  ultimately show ?thesis
    using assms by (cases clean) (auto simp: lease_ok_def completed_def)
next
  case False
  with assms(4) have "clean" by (auto simp: completed_def split: if_splits)
  with False assms(4,7,8) have b3: "lease b3 = lease b" "quarantined b3 = quarantined b"
    by (auto simp: completed_def)
  have "lease_ok b"
    using backend_okD(2) [OF assms(1)] .
  with b3 False assms(5) show ?thesis
    by (auto simp: lease_ok_def split: option.splits owner.splits if_splits)
qed

lemma backend_ok_completed:
  assumes b: "backend_ok b" "pget b k = Some r" "p_state r \<noteq> Complete" and c: "completed k clean b b2"
    and r: "p_state r' = Complete" "p_finished r'" "process_ok r'" "p_closed r' = clean"
  shows "backend_ok (pput k r' b2)" and "backend_ok (ppop k b2)"
proof -
  have procs: "procs b2 = procs b" and pg: "pget b2 k' = pget b k'" for k'
    using c by (simp_all add: completed_def pget_def)
  have other: "record_ok b2 k' q" if "k' \<noteq> k" "pget b k' = Some q" for k' q
    using backend_okD(3) [OF b(1) that(2)] that(1) c
    by (auto simp: record_ok_def completed_def split: if_splits)
  show "backend_ok (pput k r' b2)"
  proof (rule backend_okI)
    show "distinct (map fst (procs (pput k r' b2)))"
      using distinct_pput [of b2] backend_okD(1) [OF b(1)] procs by simp
    show "record_ok (pput k r' b2) k' q" if "pget (pput k r' b2) k' = Some q" for k' q
    proof (cases "k' = k")
      case True
      with that r c show ?thesis
        by (auto simp: record_ok_def completed_def split: if_splits)
    next
      case False
      with that other [of k' q] show ?thesis
        by (simp add: pg record_ok_def)
    qed
    show "lease_ok (pput k r' b2)"
      by (rule lease_ok_completed [OF b c]) (simp_all add: pg r(1))
  qed
  show "backend_ok (ppop k b2)"
  proof (rule backend_okI)
    show "distinct (map fst (procs (ppop k b2)))"
      using backend_okD(1) [OF b(1)] by (simp add: ppop_def procs distinct_filter_keys)
    show "record_ok (ppop k b2) k' q" if "pget (ppop k b2) k' = Some q" for k' q
      using that other [of k' q] by (simp add: pg record_ok_def split: if_splits)
    show "lease_ok (ppop k b2)"
      by (rule lease_ok_completed [OF b c]) (simp_all add: pg)
  qed
qed

lemma run_outcome_frame:
  assumes "run_verify r = Inr r' \<or> r' = run_failed cancelled r"
  shows "p_spawned r' = p_spawned r" and "native_result r' = native_result r" and "process_ok r' = process_ok r"
proof -
  have frame: "p_spawned (r\<lparr>p_failure := f\<rparr>) = p_spawned r" "native_result (r\<lparr>p_failure := f\<rparr>) = native_result r"
    "process_ok (r\<lparr>p_failure := f\<rparr>) = process_ok r" for f
    by (simp_all add: process_ok_defs)
  have "p_spawned (run_failed cancelled r) = p_spawned r" "native_result (run_failed cancelled r) = native_result r"
    "process_ok (run_failed cancelled r) = process_ok r"
    by (simp_all add: run_failed_def Let_def process_ok_defs)
  moreover have "r' = r \<or> (\<exists>f. r' = r\<lparr>p_failure := f\<rparr>)" if "run_verify r = Inr r'"
    using that unfolding run_verify_def Let_def by (elim if_raiseE) (auto split: if_splits)
  ultimately show "p_spawned r' = p_spawned r" "native_result r' = native_result r" "process_ok r' = process_ok r"
    using assms frame by auto
qed


lemma put_end_frame:
  "p_state (put_end r) = p_state r" "p_closed (put_end r) = p_closed r" "process_ok r \<Longrightarrow> process_ok ((put_end r)\<lparr>p_finished := f\<rparr>)"
  by (auto simp: put_end_def process_ok_defs)

lemma run_finally_completed:
  assumes b: "backend_ok b" "pget b k = Some r0" "p_state r0 \<noteq> Complete"
    and r: "p_spawned r = p_spawned r0" "process_ok r"
    and fin: "run_finally st dl how (lease b = Some (Run k)) k r b = Inr b'"
  obtains b2 r3 clean where "completed k clean b b2" "p_state r3 = Complete" "p_finished r3" "process_ok r3" "p_closed r3 = clean"
    "b' = pput k r3 b2 \<or> b' = ppop k b2"
proof -
  let ?q = "run_settle (run_reap st dl how r)" and ?clean = "\<not> (p_spawned r \<and> \<not> cleanup_verified r)"
  let ?b1 = "if ?clean then b else b\<lparr>quarantined := True\<rparr>"
  let ?b2 = "if lease b = Some (Run k) \<and> ?clean then ?b1\<lparr>lease := None\<rparr> else ?b1"
  have "\<not> p_closed r0" "record_ok b k r0"
    using backend_okD(3) [OF b(1,2)] b(3) by (auto simp: record_ok_def)
  then have lease: "lease b = Some (Run k)" if "\<not> ?clean"
    using that r(1) by (simp add: record_ok_def)
  have completed: "completed k ?clean b (?b2\<lparr>failed_procs := f\<rparr>)" "completed k ?clean b ?b2" for f
    using lease by (auto simp: completed_def)
  obtain r'' where ev: "(if p_started r = Resolved \<and> ?clean then event st dl (lit ''process/closed'') [] ?q else Inr ?q) = Inr r''"
    and b': "b' = (let r3 = (put_end r'')\<lparr>p_finished := True\<rparr> in
      if p_started r = Resolved then pput k r3 ?b2
      else ppop k (?b2\<lparr>failed_procs := drop (length (failed_procs ?b2) + 1 - 128) (failed_procs ?b2 @ [r3])\<rparr>))"
    using fin unfolding run_finally_def Let_def run_settle_frame run_reap_frame cleanup_verified_reap
    by (auto simp: bindE_Inr_iff)
  have "process_ok ?q" "p_state ?q = Complete" "p_closed ?q = ?clean"
    using r(2) by simp_all
  moreover have "same_life ?q r''" "process_ok r''"
    using ev event_life [of st dl _ _ ?q r''] event_ok [of st dl _ _ ?q r''] r(2) by (auto simp: same_life_def split: if_splits)
  ultimately have "p_state ((put_end r'')\<lparr>p_finished := True\<rparr>) = Complete" "p_finished ((put_end r'')\<lparr>p_finished := True\<rparr>)"
    "process_ok ((put_end r'')\<lparr>p_finished := True\<rparr>)" "p_closed ((put_end r'')\<lparr>p_finished := True\<rparr>) = ?clean"
    by (simp_all add: put_end_frame same_life_def)
  note finished = that [OF completed(1) this] that [OF completed(2) this]
  show thesis
  proof (cases "p_started r = Resolved")
    case True
    from b' [unfolded Let_def if_P [OF True]] show thesis by (rule finished(2) [OF disjI1])
  next
    case False
    from b' [unfolded Let_def if_not_P [OF False]] show thesis by (rule finished(1) [OF disjI2])
  qed
qed

lemma finish_ok:
  assumes b: "backend_ok b" "pget b k = Some r" "p_state r \<noteq> Complete"
    and out: "run_verify r = Inr r' \<or> r' = run_failed cancelled r"
    and fin: "run_finally st dl how (lease b = Some (Run k)) k r' b = Inr b'"
  shows "backend_ok b'"
proof -
  note frame = run_outcome_frame [OF out]
  have "process_ok r'"
    using backend_okD(3) [OF b(1,2)] frame(3) by (simp add: record_ok_def)
  from run_finally_completed [OF b frame(1) this fin] obtain b2 r3 clean where
    c: "completed k clean b b2" "p_state r3 = Complete" "p_finished r3" "process_ok r3" "p_closed r3 = clean"
    and b': "b' = pput k r3 b2 \<or> b' = ppop k b2" .
  show ?thesis
    using backend_ok_completed [OF b c] b' by blast
qed

text \<open>Forgetting completed records, and the steps that change the lease only.\<close>

lemma backend_ok_shrink:
  assumes "backend_ok b" and "distinct (map fst (procs b'))" and "lease b' = lease b" and "quarantined b' = quarantined b"
    and "\<And>k r. pget b' k = Some r \<Longrightarrow> pget b k = Some r"
    and "\<And>k r. pget b k = Some r \<Longrightarrow> p_state r \<noteq> Complete \<Longrightarrow> pget b' k = Some r"
  shows "backend_ok b'"
proof (rule backend_okI)
  note ok = backend_okD [OF assms(1)]
  show "distinct (map fst (procs b'))" by (rule assms(2))
  show "record_ok b' k r" if "pget b' k = Some r" for k r
    using ok(3) [OF assms(5) [OF that]] record_ok_lease [OF assms(3)] by simp
  show "lease_ok b'"
  proof (cases "\<exists>k. lease b = Some (Run k)")
    case True
    then obtain k where k: "lease b = Some (Run k)" by blast
    show ?thesis
    proof (cases "quarantined b")
      case True
      then have "p_state r = Complete" if "pget b' k = Some r" for r
        using ok(2) k assms(5) [OF that] by (simp add: lease_ok_def)
      with True k assms(3,4) show ?thesis by (simp add: lease_ok_def)
    next
      case False
      with ok(2) k obtain r where "pget b k = Some r" "p_state r \<noteq> Complete" by (auto simp: lease_ok_def)
      then have "\<exists>r. pget b' k = Some r \<and> p_state r \<noteq> Complete" using assms(6) by blast
      with False k assms(3,4) show ?thesis by (simp add: lease_ok_def)
    qed
  next
    case False
    with ok(2) assms(3,4) show ?thesis
      by (auto simp: lease_ok_def split: option.splits owner.splits)
  qed
qed

lemma expire_ok:
  assumes "backend_ok b"
  shows "backend_ok (expire k b)"
proof (cases "pget b k")
  case (Some r)
  show ?thesis
  proof (cases "p_closed r")
    case True
    then have "p_state r = Complete"
      using backend_okD(3) [OF assms Some] by (simp add: record_ok_def)
    note complete = this
    have "backend_ok (ppop k b)"
    proof (rule backend_ok_shrink [OF assms])
      show "distinct (map fst (procs (ppop k b)))"
        using backend_okD(1) [OF assms] by (simp add: ppop_def distinct_filter_keys)
      show "pget b k' = Some q" if "pget (ppop k b) k' = Some q" for k' q
        using that by (cases "k' = k") simp_all
      show "pget (ppop k b) k' = Some q" if "pget b k' = Some q" "p_state q \<noteq> Complete" for k' q
        using that Some complete by (cases "k' = k") simp_all
    qed simp_all
    with Some True show ?thesis by (simp add: expire_def)
  qed (use Some assms in \<open>simp add: expire_def\<close>)
qed (use assms in \<open>simp add: expire_def\<close>)


lemma close_end_ok:
  assumes "backend_ok b" and "list_all (\<lambda>(k, r). p_finished r) (session_records sid b)"
  shows "backend_ok (fst (close_end sid b))"
proof (rule backend_ok_shrink [OF assms(1)])
  have get: "pget (fst (close_end sid b)) k = (if fst k \<noteq> sid then pget b k else None)" for k
  proof -
    have "filter (\<lambda>((s, _), _). s \<noteq> sid) (procs b) = filter (\<lambda>(k, _). fst k \<noteq> sid) (procs b)"
      by (intro filter_cong) auto
    then show ?thesis
      by (simp add: close_end_def pget_def Let_def map_of_filter_keys)
  qed
  show "distinct (map fst (procs (fst (close_end sid b))))"
    using backend_okD(1) [OF assms(1)] by (simp add: close_end_def Let_def distinct_filter_keys)
  show "pget b k = Some r" if "pget (fst (close_end sid b)) k = Some r" for k r
    using that unfolding get by (simp split: if_splits)
  show "pget (fst (close_end sid b)) k = Some r" if r: "pget b k = Some r" "p_state r \<noteq> Complete" for k r
  proof -
    have "(k, r) \<in> set (session_records sid b)" if "fst k = sid"
      using that r(1) by (auto simp: session_records_def pget_def dest: map_of_SomeD)
    moreover have "\<not> p_finished r"
      using backend_okD(3) [OF assms(1) r(1)] r(2) by (simp add: record_ok_def)
    ultimately show ?thesis
      unfolding get using assms(2) r(1) by (auto simp: list_all_iff)
  qed
qed (simp_all add: close_end_def Let_def)

lemma close_begin_ok:
  assumes "backend_ok b"
  shows "backend_ok (close_begin st dl sid b)"
proof (rule backend_okI)
  note ok = backend_okD [OF assms]
  let ?f = "\<lambda>k r. if fst k = sid \<and> \<not> p_finished r then terminate st dl r else r"
  have get: "pget (close_begin st dl sid b) k = map_option (?f k) (pget b k)" for k
  proof -
    have "map_of (map (\<lambda>(k, r). (k, g k r)) xs) k = map_option (g k) (map_of xs k)" for g and xs :: "(pkey \<times> Process) list"
      by (induction xs) auto
    then show ?thesis by (simp add: close_begin_def pget_def)
  qed
  have life: "same_life r (?f k r)" "process_ok (?f k r) = process_ok r" for k r
    by (simp_all only: terminate_life terminate_ok same_life_refl split: if_split) simp_all
  have frame: "lease (close_begin st dl sid b) = lease b" "quarantined (close_begin st dl sid b) = quarantined b"
    by (simp_all add: close_begin_def)
  show "distinct (map fst (procs (close_begin st dl sid b)))"
    using ok(1) by (simp add: close_begin_def comp_def case_prod_beta)
  show "record_ok (close_begin st dl sid b) k q" if q: "pget (close_begin st dl sid b) k = Some q" for k q
  proof -
    obtain r where r: "pget b k = Some r" "q = ?f k r"
      using q unfolding get by auto
    have "same_life r q" "process_ok q = process_ok r"
      unfolding r(2) by (rule life)+
    with ok(3) [OF r(1)] frame(1) show ?thesis by (simp add: record_ok_def same_life_def)
  qed
  show "lease_ok (close_begin st dl sid b)"
  proof (cases "\<exists>k. lease b = Some (Run k)")
    case True
    then obtain k where k: "lease b = Some (Run k)" by blast
    have same: "p_state q = Complete" if "map_option (?f k) (pget b k) = Some q" "\<forall>r. pget b k = Some r \<longrightarrow> p_state r = Complete" for q
      using that by (auto split: if_splits)
    have "\<exists>q. map_option (?f k) (pget b k) = Some q \<and> p_state q \<noteq> Complete" if "pget b k = Some r" "p_state r \<noteq> Complete" for r
      using that by simp
    with ok(2) k frame same show ?thesis
      unfolding lease_ok_def get by (auto simp del: map_option_eq_Some split: if_splits)
  next
    case False
    with ok(2) frame show ?thesis
      by (auto simp: lease_ok_def split: option.splits owner.splits)
  qed
qed


lemma acquire_ok:
  assumes "backend_ok b" and "pget b k = Some r" and "p_state r \<noteq> Complete" and "lease b = None"
  shows "backend_ok (b\<lparr>lease := Some (Run k)\<rparr>)"
proof (rule backend_okI)
  note ok = backend_okD [OF assms(1)]
  show "distinct (map fst (procs (b\<lparr>lease := Some (Run k)\<rparr>)))" using ok(1) by simp
  show "record_ok (b\<lparr>lease := Some (Run k)\<rparr>) k' q" if "pget (b\<lparr>lease := Some (Run k)\<rparr>) k' = Some q" for k' q
    using ok(3) [of k' q] that assms(4) by (auto simp: record_ok_def)
  show "lease_ok (b\<lparr>lease := Some (Run k)\<rparr>)"
    using ok(2) assms by (simp add: lease_ok_def)
qed

lemma file_lease_ok:
  assumes "backend_ok b" and "lease b = None \<and> x = Some Files \<or> lease b = Some Files \<and> x = None"
  shows "backend_ok (b\<lparr>lease := x\<rparr>)"
proof (rule backend_okI)
  note ok = backend_okD [OF assms(1)]
  show "distinct (map fst (procs (b\<lparr>lease := x\<rparr>)))" using ok(1) by simp
  show "record_ok (b\<lparr>lease := x\<rparr>) k' q" if "pget (b\<lparr>lease := x\<rparr>) k' = Some q" for k' q
    using ok(3) [of k' q] that assms(2) by (auto simp: record_ok_def)
  show "lease_ok (b\<lparr>lease := x\<rparr>)"
    using ok(2) assms(2) by (auto simp: lease_ok_def)
qed

lemma spawn_ok:
  assumes "backend_ok b" and "pget b k = Some r" and "p_state r \<noteq> Complete" and "lease b = Some (Run k)"
    and "run_spawn exe info r = Inr r'"
  shows "backend_ok (pput k r' b)"
proof (rule backend_okI)
  note ok = backend_okD [OF assms(1)]
  have r': "p_state r' = p_state r" "p_finished r' = p_finished r" "p_closed r' = p_closed r" "process_ok r' = process_ok r"
    using assms(5) by (auto simp: run_spawn_def process_ok_defs split: if_splits)
  show "distinct (map fst (procs (pput k r' b)))" by (rule distinct_pput [OF ok(1)])
  show "record_ok (pput k r' b) k' q" if "pget (pput k r' b) k' = Some q" for k' q
    using ok(3) [of k' q] ok(3) [OF assms(2)] that assms(4) r' by (cases "k' = k") (simp_all add: record_ok_def)
  show "lease_ok (pput k r' b)"
    using ok(2) assms(2-4) r'(1) by (auto simp: lease_ok_def)
qed

lemma run_policy_life:
  assumes "run_policy uid tree fb r = Inr r'"
  shows "same_life r r'" and "process_ok r' = process_ok r"
  using assms by (auto simp: run_policy_def bindE_Inr_iff same_life_def process_ok_defs)

lemma proc_step_ok:
  assumes "backend_ok b" and "proc_step uid b l b'"
  shows "backend_ok b'"
proof -
  have ok: "process_ok r" if "pget b k = Some r" for k r
    using backend_okD(3) [OF assms(1) that] by (simp add: record_ok_def)
  note update = backend_ok_update [OF assms(1)]
  from assms(2) show ?thesis
  proof cases
    case file_begin
    then show ?thesis using file_lease_ok [OF assms(1)] by simp
  next
    case file_end
    then show ?thesis using file_lease_ok [OF assms(1)] by simp
  next
    case (request st dl expired call answer)
    show ?thesis by (rule request_ok [OF assms(1) handle_process_effect [OF request(2)]])
  next
    case (acquire k r)
    show ?thesis unfolding acquire(2) by (rule acquire_ok [OF assms(1) acquire(3-5)])
  next
    case (policy k r tree fb r')
    note life = run_policy_life [OF policy(8)]
    show ?thesis unfolding policy(2) by (rule update [OF policy(3) life(1)]) (simp add: life(2) ok [OF policy(3)])
  next
    case (spawn k r exe info r')
    show ?thesis unfolding spawn(2) by (rule spawn_ok [OF assms(1) spawn(3-5) spawn(8)])
  next
    case (record_step k r l r')
    show ?thesis unfolding record_step(2)
      by (rule update [OF record_step(3) rec_step_life [OF record_step(6,5)] rec_step_ok [OF ok [OF record_step(3)] record_step(6)]])
  next
    case (delivered k r fine st dl)
    show ?thesis unfolding delivered(2)
      by (rule update [OF delivered(3) notify_next_life notify_next_ok [OF ok [OF delivered(3)]]])
  next
    case (finish k r r' cancelled st dl how)
    show ?thesis by (rule finish_ok [OF assms(1) finish(2-5)])
  next
    case (expiry k)
    show ?thesis unfolding expiry(2) by (rule expire_ok [OF assms(1)])
  next
    case (close_begins st dl sid)
    show ?thesis unfolding close_begins(2) by (rule close_begin_ok [OF assms(1)])
  next
    case (close_ends sid)
    show ?thesis unfolding close_ends(2) by (rule close_end_ok [OF assms(1) close_ends(3)])
  qed
qed

interpretation native_processes: invariant_system "proc_step uid" backend_ok for uid
  by unfold_locales (rule proc_step_ok)

lemma native_processes_backend_ok:
  assumes "native_processes_backend runner workspace guest parent executables limits files = Inr b"
  shows "backend_ok b"
proof -
  have "procs b = []" "lease b = None" "\<not> quarantined b"
    using assms unfolding native_processes_backend_def by (elim exn_elims; force)+
  then show ?thesis by (intro backend_okI) (simp_all add: pget_def lease_ok_def)
qed

definition uses_workspace :: "NativeProcessesBackend \<Rightarrow> pkey \<Rightarrow> bool" where
  "uses_workspace b k = (case pget b k of None \<Rightarrow> False | Some r \<Rightarrow> p_spawned r \<and> \<not> p_closed r)"

lemma uses_workspace_lease: "backend_ok b \<Longrightarrow> uses_workspace b k \<Longrightarrow> lease b = Some (Run k)"
  using backend_okD(3) by (auto simp: uses_workspace_def record_ok_def split: option.splits)

text \<open>The steps that a quarantined backend does not take.\<close>

fun touches_workspace :: "proc_label \<Rightarrow> bool" where
  "touches_workspace FileBegin \<longleftrightarrow> True"
| "touches_workspace (Acquire k) \<longleftrightarrow> True"
| "touches_workspace (Policy k) \<longleftrightarrow> True"
| "touches_workspace (Spawn k) \<longleftrightarrow> True"
| "touches_workspace _ \<longleftrightarrow> False"

lemma request_effect_frame:
  "request_effect b call b' \<Longrightarrow> lease b' = lease b \<and> quarantined b' = quarantined b"
  by (auto simp: request_effect_def)

lemma run_finally_frame:
  assumes "backend_ok b" "pget b k = Some r0" "p_state r0 \<noteq> Complete" "quarantined b"
    and "run_finally st dl how (lease b = Some (Run k)) k r b = Inr b'"
  shows "lease b' = lease b" "quarantined b'"
proof -
  have "lease b \<noteq> Some (Run k)"
    using backend_okD(2) [OF assms(1)] assms(2-4) by (auto simp: lease_ok_def)
  then show "lease b' = lease b" "quarantined b'"
    using assms(4,5) unfolding run_finally_def Let_def by (auto simp: bindE_Inr_iff split: if_splits)
qed

lemma proc_step_quarantined:
  assumes "backend_ok b" and "quarantined b" and "proc_step uid b l b'"
  shows "\<not> touches_workspace l" and "lease b' = lease b" and "quarantined b'"
proof -
  obtain k where k: "lease b = Some (Run k)" and ended: "\<And>r. pget b k = Some r \<Longrightarrow> p_state r = Complete"
    using backend_okD(2) [OF assms(1)] assms(2) by (auto simp: lease_ok_def split: option.splits owner.splits)
  have "\<not> touches_workspace l \<and> lease b' = lease b \<and> quarantined b'"
    using assms(3)
  proof cases
    case (request st dl expired call answer)
    then show ?thesis using request_effect_frame [OF handle_process_effect] assms(2) by fastforce
  next
    case (finish k r r' cancelled st dl how)
    then show ?thesis using run_finally_frame [OF assms(1) finish(2,3) assms(2) finish(5)] by simp
  next
    case (expiry k)
    then show ?thesis using assms(2) by (simp add: expire_def split: option.split)
  qed (use k ended assms(2) in \<open>auto simp: close_begin_def close_end_def Let_def\<close>)
  then show "\<not> touches_workspace l" "lease b' = lease b" "quarantined b'" by simp_all
qed

lemma run_quarantined:
  assumes "run (proc_step uid) b ls b'" and "backend_ok b"
  shows "quarantined b \<Longrightarrow> quarantined b' \<and> lease b' = lease b \<and> list_all (\<lambda>l. \<not> touches_workspace l) ls"
  using assms
proof (induction rule: run.induct)
  case (run_Cons s l t ls u)
  note step = proc_step_quarantined [OF run_Cons.prems(2,1) run_Cons.hyps(1)]
  from run_Cons.IH [OF step(3) proc_step_ok [OF run_Cons.prems(2) run_Cons.hyps(1)]] step show ?case by simp
qed simp



definition example_executables :: "(pystr \<times> NativeExecutable) list" where
  "example_executables = [(lit ''sh'', \<lparr>exe_path = lit ''/bin/sh'', exe_device = 1, exe_inode = 9\<rparr>)]"

definition example_backend :: NativeProcessesBackend where
  "example_backend = \<lparr>np_executables = example_executables, np_limits = default_limits, np_parent = None, np_runner = lit ''/r'',
     procs = [], failed_procs = [], closing_sessions = [], quarantined = False, lease = None\<rparr>"


definition example_quarantine :: NativeProcessesBackend where
  "example_quarantine = example_backend\<lparr>procs := [((lit ''s'', []), example_process\<lparr>p_state := Complete, p_finished := True,
     p_spawned := True\<rparr>)], quarantined := True, lease := Some (Run (lit ''s'', []))\<rparr>"


end
