(* ===== verification/AppServerRouting.thy ===== *)
theory AppServerRouting
imports ExecProtocol
begin

text \<open>
  The router of \<open>tools/executor/app_server_routing.py\<close>, which directs the tasks of the official application
  server to a FoldGPT environment.  It rewrites requests on their way out and learns from responses where each
  thread works.
\<close>

section \<open>Dictionary keys\<close>

text \<open>
  The keys of \<open>locations\<close> and \<open>pending\<close> are whatever the message holds: numbers that are equal are one key,
  \<open>NaN\<close> is none, lists and dictionaries raise.
\<close>

datatype pykey = KNone | KNum rat | KInf bool | KNaN | KText pystr

fun key_of :: "json \<Rightarrow> exn + pykey" where
  "key_of JNull = Inr KNone"
| "key_of (JBool b) = Inr (KNum (if b then 1 else 0))"
| "key_of (JInt i) = Inr (KNum (of_int i))"
| "key_of (JFloat (FFinite neg q)) = Inr (KNum (if neg then - q else q))"
| "key_of (JFloat (FInfinite neg)) = Inr (KInf neg)"
| "key_of (JFloat FNaN) = Inr KNaN"
| "key_of (JStr s) = Inr (KText s)"
| "key_of (JArr _) = Inl (TypeError (lit ''unhashable type''))"
| "key_of (JObj _) = Inl (TypeError (lit ''unhashable type''))"

definition kfind :: "(pykey \<times> 'v) list \<Rightarrow> pykey \<Rightarrow> 'v option" where
  "kfind d k = (if k = KNaN then None else map_of d k)"

definition kdrop :: "pykey \<Rightarrow> (pykey \<times> 'v) list \<Rightarrow> (pykey \<times> 'v) list" where
  "kdrop k d = filter (\<lambda>(k', _). k' \<noteq> k \<or> k = KNaN) d"

text \<open>\<open>v in {...}\<close> for a set of strings.\<close>

definition in_words :: "json \<Rightarrow> pystr list \<Rightarrow> exn + bool" where
  "in_words v ws = bindE (key_of v) (\<lambda>k. Inr (k \<in> KText ` set ws))"


section \<open>Locations\<close>

definition absolute_path :: "json \<Rightarrow> exn + pystr" where
  "absolute_path value' =
     (if \<not> is_str value' \<or> take 1 (str_of value') \<noteq> [47] \<or> 0 \<in> set (str_of value')
      then Inl (rpc (-32602) ''FoldGPT routing requires an absolute GNU path'') else Inr (str_of value'))"

definition workspace_roots_of :: "json \<Rightarrow> exn + pystr list" where
  "workspace_roots_of value' =
     (if \<not> is_arr value' then Inl (rpc (-32602) ''FoldGPT workspace roots must be an array'')
      else mapE absolute_path (arr_of value'))"

definition optional_roots :: "json \<Rightarrow> exn + pystr list option" where
  "optional_roots given = (if given = JNull then Inr None else bindE (workspace_roots_of given) (\<lambda>rs. Inr (Some rs)))"

record Location =
  l_cwd :: pystr
  l_roots :: "pystr list option"
  l_enabled :: bool

text \<open>\<open>tuple(dict.fromkeys(...))\<close> keeps the first of equal values.\<close>

fun fromkeys :: "pystr list \<Rightarrow> pystr list" where
  "fromkeys [] = []"
| "fromkeys (x # xs) = x # filter (\<lambda>y. y \<noteq> x) (fromkeys xs)"

definition retarget :: "Location option \<Rightarrow> pystr \<Rightarrow> pystr list option" where
  "retarget prior dir =
     (case prior of
        None \<Rightarrow> None
      | Some l \<Rightarrow> map_option (\<lambda>rs. fromkeys (map (\<lambda>root. if root = l_cwd l then dir else root) rs)) (l_roots l))"


section \<open>The router\<close>

record EnvironmentRouter =
  environment_id :: pystr
  default_cwd :: pystr
  locations :: "(pykey \<times> Location) list"
  pending :: "(pykey \<times> pystr \<times> json \<times> Location option) list"

definition lower_ascii :: "pystr \<Rightarrow> pystr" where
  "lower_ascii = map (\<lambda>c. if 65 \<le> c \<and> c \<le> 90 then c + 32 else c)"

definition id_char :: "nat \<Rightarrow> bool" where
  "id_char c \<longleftrightarrow> 65 \<le> c \<and> c \<le> 90 \<or> 97 \<le> c \<and> c \<le> 122 \<or> 48 \<le> c \<and> c \<le> 57 \<or> c = 95 \<or> c = 45"

definition environment_router :: "json \<Rightarrow> json \<Rightarrow> exn + EnvironmentRouter" where
  "environment_router identity dir =
     (if \<not> is_str identity \<or> str_of identity = lit ''local'' \<or> lower_ascii (str_of identity) = lit ''none''
         \<or> 64 < length (str_of identity) \<or> str_of identity = [] \<or> \<not> list_all id_char (str_of identity)
      then Inl (ValueError (lit ''A non-local FoldGPT environment ID is required''))
      else bindE (absolute_path dir) (\<lambda>dir.
        Inr \<lparr>environment_id = str_of identity, default_cwd = dir, locations = [], pending = []\<rparr>))"

text \<open>\<open>_selection\<close>, the environment given and the one taken over.\<close>

definition explicit_selection :: "pystr \<Rightarrow> json \<Rightarrow> exn + pystr \<times> pystr list option" where
  "explicit_selection eid supplied =
     (if \<not> is_arr supplied \<or> length (arr_of supplied) \<noteq> 1
      then Inl (rpc (-32602) ''FoldGPT routing requires one explicit environment'')
      else let item = hd (arr_of supplied); d = obj_of item in
        bindE (if \<not> is_obj item \<or> \<not> set (dkeys d) \<subseteq> set (map lit [''environmentId'', ''cwd'', ''runtimeWorkspaceRoots'']) then Inr False
               else in_words (dget d (lit ''environmentId'')) [lit ''local'', eid]) (\<lambda>known.
        if \<not> known then Inl (rpc (-32602) ''Unrecognized FoldGPT environment selection'')
        else bindE (absolute_path (dget d (lit ''cwd''))) (\<lambda>dir.
             bindE (optional_roots (dget d (lit ''runtimeWorkspaceRoots''))) (\<lambda>rs. Inr (dir, rs)))))"

definition implicit_selection :: "pystr \<Rightarrow> dict \<Rightarrow> Location option \<Rightarrow> exn + pystr \<times> pystr list option" where
  "implicit_selection fallback params prior =
     bindE (if dget params (lit ''cwd'') \<noteq> JNull then absolute_path (dget params (lit ''cwd''))
            else Inr (case prior of None \<Rightarrow> fallback | Some l \<Rightarrow> l_cwd l)) (\<lambda>dir.
       let given = dget params (lit ''runtimeWorkspaceRoots'') in
       if given \<noteq> JNull then bindE (workspace_roots_of given) (\<lambda>rs. Inr (dir, Some rs)) else Inr (dir, retarget prior dir))"

definition selection_item :: "pystr \<Rightarrow> pystr \<Rightarrow> pystr list option \<Rightarrow> json" where
  "selection_item eid dir rs =
     JObj ([(lit ''environmentId'', JStr eid), (lit ''cwd'', JStr dir)] @
       (case rs of None \<Rightarrow> [] | Some rs \<Rightarrow> [(lit ''runtimeWorkspaceRoots'', JArr (map JStr rs))]))"

definition disabled_selection :: "json \<Rightarrow> Location option \<Rightarrow> bool" where
  "disabled_selection supplied prior \<longleftrightarrow>
     supplied = JArr [] \<or> supplied = JNull \<and> (case prior of None \<Rightarrow> False | Some l \<Rightarrow> \<not> l_enabled l)"

definition selection :: "EnvironmentRouter \<Rightarrow> dict \<Rightarrow> Location option \<Rightarrow> exn + json list \<times> Location" where
  "selection r params prior =
     (let supplied = dget params (lit ''environments''); disabled = disabled_selection supplied prior in
      bindE (if supplied \<noteq> JNull \<and> supplied \<noteq> JArr [] then explicit_selection (environment_id r) supplied
             else implicit_selection (default_cwd r) params prior) (\<lambda>(dir, rs).
        Inr (if disabled then [] else [selection_item (environment_id r) dir rs],
             \<lparr>l_cwd = dir, l_roots = Some (case rs of None \<Rightarrow> [dir] | Some rs \<Rightarrow> rs), l_enabled = \<not> disabled\<rparr>)))"

definition ROUTED_METHODS :: "pystr list" where
  "ROUTED_METHODS = map lit [''initialize'', ''thread/start'', ''turn/start'', ''thread/resume'', ''thread/fork'', ''thread/settings/update'']"

definition falsy :: "json \<Rightarrow> bool" where
  "falsy v = (case v of JNull \<Rightarrow> True | JBool b \<Rightarrow> \<not> b | JInt i \<Rightarrow> i = 0 | JFloat f \<Rightarrow> f = FFinite True 0 \<or> f = FFinite False 0
     | JStr s \<Rightarrow> s = [] | JArr xs \<Rightarrow> xs = [] | JObj d \<Rightarrow> d = [])"

text \<open>What \<open>outgoing\<close> makes of the parameters, and the location it keeps for the response.\<close>

definition route_initialize :: "dict \<Rightarrow> exn + dict" where
  "route_initialize params =
     (let capabilities = dget params (lit ''capabilities'') in
      if capabilities \<noteq> JNull \<and> \<not> is_obj capabilities then Inl (rpc (-32602) ''Invalid initialize capabilities'')
      else Inr (dict_put params (lit ''capabilities'') (JObj (dict_put (obj_of capabilities) (lit ''experimentalApi'') (JBool True)))))"

definition route_start :: "EnvironmentRouter \<Rightarrow> pystr \<Rightarrow> dict \<Rightarrow> exn + dict \<times> Location" where
  "route_start r m params =
     bindE (key_of (dget params (lit ''threadId''))) (\<lambda>k.
       let prior = kfind (locations r) k; environments = dget params (lit ''environments'') in
       if m = lit ''turn/start'' \<and> prior = None \<and> dget params (lit ''cwd'') = JNull \<and> falsy environments \<and> environments \<noteq> JArr []
       then Inl (rpc (-32602) ''Thread location is not known before its successful start or resume'')
       else bindE (selection r params prior) (\<lambda>(selected, location).
         Inr (dict_put params (lit ''environments'') (JArr selected), location)))"

definition route_update :: "EnvironmentRouter \<Rightarrow> dict \<Rightarrow> exn + Location" where
  "route_update r params =
     bindE (absolute_path (dget params (lit ''cwd''))) (\<lambda>dir.
     bindE (key_of (dget params (lit ''threadId''))) (\<lambda>k.
       let prior = kfind (locations r) k in
       Inr \<lparr>l_cwd = dir, l_roots = retarget prior dir, l_enabled = (case prior of None \<Rightarrow> True | Some l \<Rightarrow> l_enabled l)\<rparr>))"

definition route_params :: "EnvironmentRouter \<Rightarrow> pystr \<Rightarrow> dict \<Rightarrow> exn + dict \<times> Location option" where
  "route_params r m params =
     (if m = lit ''initialize'' then bindE (route_initialize params) (\<lambda>d. Inr (d, None))
      else if m = lit ''thread/start'' \<or> m = lit ''turn/start'' then bindE (route_start r m params) (\<lambda>(d, l). Inr (d, Some l))
      else if m = lit ''thread/settings/update'' \<and> dget params (lit ''cwd'') \<noteq> JNull
      then bindE (route_update r params) (\<lambda>l. Inr (params, Some l))
      else Inr (params, None))"

definition outgoing :: "EnvironmentRouter \<Rightarrow> dict \<Rightarrow> exn + dict \<times> EnvironmentRouter" where
  "outgoing r message =
     bindE (in_words (dget message (lit ''method'')) ROUTED_METHODS) (\<lambda>routed.
       if \<not> routed then Inr (message, r)
       else let params = dget message (lit ''params''); m = str_of (dget message (lit ''method'')) in
         if \<not> is_obj params \<or> \<not> has_key message (lit ''id'')
         then Inl (rpc (-32602) ''Routing requires a request with object params'')
         else bindE (key_of (dget message (lit ''id''))) (\<lambda>identifier.
           if kfind (pending r) identifier \<noteq> None then Inl (rpc (-32600) ''Duplicate pending routing request ID'')
           else bindE (route_params r m (obj_of params)) (\<lambda>(d, location).
             Inr (dict_put message (lit ''params'') (JObj d),
                  r\<lparr>pending := dict_put (pending r) identifier (m, dget (obj_of params) (lit ''threadId''), location)\<rparr>))))"

text \<open>
  \<open>incoming\<close> returns the message itself; it raises after the pending entry is gone when the response has an
  unexpected shape.
\<close>

definition get_or_empty :: "dict \<Rightarrow> string \<Rightarrow> json" where
  "get_or_empty d k = (if has_key d (lit k) then dget d (lit k) else JObj [])"

definition settings_cwd :: "dict \<Rightarrow> json option" where
  "settings_cwd params =
     (let settings = get_or_empty params ''threadSettings'' in
      if is_obj settings \<and> has_key (obj_of settings) (lit ''cwd'') then Some (dget (obj_of settings) (lit ''cwd'')) else None)"

definition settings_updated :: "dict \<Rightarrow> EnvironmentRouter \<Rightarrow> exn + EnvironmentRouter" where
  "settings_updated message r =
     (let params = get_or_empty message ''params'' in
      if \<not> is_obj params then Inl (AttributeError (lit ''get''))
      else bindE (key_of (dget (obj_of params) (lit ''threadId''))) (\<lambda>k.
          case (kfind (locations r) k, settings_cwd (obj_of params)) of
            (Some prior, Some given) \<Rightarrow>
              bindE (absolute_path given) (\<lambda>dir.
                Inr (r\<lparr>locations := dict_put (locations r) k
                  \<lparr>l_cwd = dir, l_roots = retarget (Some prior) dir, l_enabled = l_enabled prior\<rparr>\<rparr>))
          | _ \<Rightarrow> Inr r))"

definition learned :: "pystr \<Rightarrow> pystr list option \<Rightarrow> Location option \<Rightarrow> Location option \<Rightarrow> Location" where
  "learned dir rs location prior =
     (case location of
        Some l \<Rightarrow> if l_enabled l then l else \<lparr>l_cwd = dir, l_roots = rs, l_enabled = l_enabled l\<rparr>
      | None \<Rightarrow> \<lparr>l_cwd = dir, l_roots = rs, l_enabled = (case prior of None \<Rightarrow> True | Some p \<Rightarrow> l_enabled p)\<rparr>)"

definition thread_response :: "dict \<Rightarrow> json \<Rightarrow> Location option \<Rightarrow> EnvironmentRouter \<Rightarrow> exn + EnvironmentRouter" where
  "thread_response result thread_id location r =
     (let thread = dget result (lit ''thread'') in
      if \<not> is_obj thread \<or> \<not> is_str (dget (obj_of thread) (lit ''id''))
      then Inl (rpc (-32603) ''Official thread response lacks its identity'')
      else bindE (absolute_path (dget result (lit ''cwd''))) (\<lambda>dir.
           bindE (optional_roots (dget result (lit ''runtimeWorkspaceRoots''))) (\<lambda>rs.
           bindE (key_of thread_id) (\<lambda>k.
             Inr (r\<lparr>locations := dict_put (locations r) (KText (str_of (dget (obj_of thread) (lit ''id''))))
               (learned dir rs location (kfind (locations r) k))\<rparr>)))))"

definition response :: "dict \<Rightarrow> pystr \<times> json \<times> Location option \<Rightarrow> EnvironmentRouter \<Rightarrow> exn + EnvironmentRouter" where
  "response message = (\<lambda>(m, thread_id, location) r.
     (let result = dget message (lit ''result'') in
      if \<not> is_obj result then Inl (rpc (-32603) ''Official routing response has an unexpected shape'')
      else if m \<in> set (map lit [''thread/start'', ''thread/resume'', ''thread/fork'']) then thread_response (obj_of result) thread_id location r
      else (case location of
          Some l \<Rightarrow>
            if m = lit ''turn/start'' \<or> m = lit ''thread/settings/update''
            then bindE (key_of thread_id) (\<lambda>k. Inr (r\<lparr>locations := dict_put (locations r) k l\<rparr>)) else Inr r
        | None \<Rightarrow> Inr r)))"

definition keep :: "EnvironmentRouter \<Rightarrow> exn + EnvironmentRouter \<Rightarrow> exn option \<times> EnvironmentRouter" where
  "keep r q = (case q of Inl e \<Rightarrow> (Some e, r) | Inr r' \<Rightarrow> (None, r'))"

definition incoming :: "EnvironmentRouter \<Rightarrow> dict \<Rightarrow> exn option \<times> EnvironmentRouter" where
  "incoming r message =
     (if dget message (lit ''method'') = jlit ''thread/settings/updated'' then keep r (settings_updated message r)
      else if has_key message (lit ''method'') \<or> \<not> has_key message (lit ''id'') then (None, r)
      else case key_of (dget message (lit ''id'')) of
          Inl e \<Rightarrow> (Some e, r)
        | Inr k \<Rightarrow>
            (let r' = r\<lparr>pending := kdrop k (pending r)\<rparr> in
             case kfind (pending r) k of
               None \<Rightarrow> (None, r)
             | Some waiting \<Rightarrow> if has_key message (lit ''error'') then (None, r') else keep r' (response message waiting r')))"


section \<open>Locations stay absolute\<close>

definition abs_ok :: "pystr \<Rightarrow> bool" where
  "abs_ok s \<longleftrightarrow> take 1 s = [47] \<and> 0 \<notin> set s"

definition loc_ok :: "Location \<Rightarrow> bool" where
  "loc_ok l \<longleftrightarrow> abs_ok (l_cwd l) \<and> (case l_roots l of None \<Rightarrow> True | Some rs \<Rightarrow> list_all abs_ok rs)"

definition router_ok :: "EnvironmentRouter \<Rightarrow> bool" where
  "router_ok r \<longleftrightarrow> environment_id r \<noteq> lit ''local'' \<and> abs_ok (default_cwd r) \<and> (\<forall>(k, l) \<in> set (locations r). loc_ok l) \<and>
     (\<forall>(k, m, t, l) \<in> set (pending r). \<forall>x. l = Some x \<longrightarrow> loc_ok x)"

lemma absolute_path_ok: "absolute_path v = Inr s \<Longrightarrow> abs_ok s \<and> v = JStr s"
  by (cases v) (auto simp: absolute_path_def abs_ok_def split: if_splits)

lemma workspace_roots_ok:
  assumes "workspace_roots_of v = Inr rs"
  shows "list_all abs_ok rs"
proof -
  have "mapE absolute_path xs = Inr ys \<Longrightarrow> list_all abs_ok ys" for xs ys
    by (induction xs arbitrary: ys) (auto simp: bindE_Inr_iff dest: absolute_path_ok)
  with assms show ?thesis by (auto simp: workspace_roots_of_def split: if_splits)
qed

lemma optional_roots_ok: "optional_roots v = Inr rs \<Longrightarrow> rs = Some x \<Longrightarrow> list_all abs_ok x"
  by (auto simp: optional_roots_def bindE_Inr_iff split: if_splits dest: workspace_roots_ok)

lemma set_fromkeys [simp]: "set (fromkeys xs) = set xs"
  by (induction xs) auto

lemma retarget_ok: "(\<And>l. prior = Some l \<Longrightarrow> loc_ok l) \<Longrightarrow> abs_ok dir \<Longrightarrow> retarget prior dir = Some rs \<Longrightarrow> list_all abs_ok rs"
  by (auto simp: retarget_def loc_ok_def list_all_iff split: option.splits)

lemma kfind_ok: "router_ok r \<Longrightarrow> kfind (locations r) k = Some l \<Longrightarrow> loc_ok l"
  by (auto simp: router_ok_def kfind_def split: if_splits dest: map_of_SomeD)

lemma loc_okI: "abs_ok dir \<Longrightarrow> (\<And>rs. x = Some rs \<Longrightarrow> list_all abs_ok rs) \<Longrightarrow> loc_ok \<lparr>l_cwd = dir, l_roots = x, l_enabled = b\<rparr>"
  by (cases x) (simp_all add: loc_ok_def)

lemma explicit_selection_ok:
  assumes "explicit_selection eid supplied = Inr (dir, rs)"
  shows "abs_ok dir" and "\<And>x. rs = Some x \<Longrightarrow> list_all abs_ok x"
  using assms unfolding explicit_selection_def Let_def
  by (auto simp: bindE_Inr_iff split: if_splits dest: absolute_path_ok optional_roots_ok)

lemma implicit_selection_ok:
  assumes "implicit_selection fallback params prior = Inr (dir, rs)" and "abs_ok fallback" and "\<And>l. prior = Some l \<Longrightarrow> loc_ok l"
  shows "abs_ok dir" and "\<And>x. rs = Some x \<Longrightarrow> list_all abs_ok x"
proof -
  have dir: "abs_ok dir"
    using assms unfolding implicit_selection_def Let_def
    by (auto simp: bindE_Inr_iff loc_ok_def split: if_splits option.splits dest: absolute_path_ok)
  then show "abs_ok dir" .
  show "list_all abs_ok x" if "rs = Some x" for x
  proof (cases "dget params (lit ''runtimeWorkspaceRoots'') = JNull")
    case True
    with assms(1) have "rs = retarget prior dir" by (auto simp: implicit_selection_def Let_def bindE_Inr_iff)
    with that retarget_ok [OF assms(3) dir, of prior x] show ?thesis by simp
  next
    case False
    with assms(1) that show ?thesis
      by (auto simp: implicit_selection_def Let_def bindE_Inr_iff dest: workspace_roots_ok)
  qed
qed

lemma selection_ok:
  assumes "selection r params prior = Inr (selected, l)" and "abs_ok (default_cwd r)" and "\<And>l. prior = Some l \<Longrightarrow> loc_ok l"
  shows "loc_ok l" and "\<exists>rs. selected = (if l_enabled l then [selection_item (environment_id r) (l_cwd l) rs] else []) \<and>
      l_roots l = Some (case rs of None \<Rightarrow> [l_cwd l] | Some rs \<Rightarrow> rs)"
proof -
  obtain dir rs where d: "(if dget params (lit ''environments'') \<noteq> JNull \<and> dget params (lit ''environments'') \<noteq> JArr []
      then explicit_selection (environment_id r) (dget params (lit ''environments''))
      else implicit_selection (default_cwd r) params prior) = Inr (dir, rs)"
    and sel: "selected = (if disabled_selection (dget params (lit ''environments'')) prior then [] else [selection_item (environment_id r) dir rs])"
      "l = \<lparr>l_cwd = dir, l_roots = Some (case rs of None \<Rightarrow> [dir] | Some rs \<Rightarrow> rs),
        l_enabled = \<not> disabled_selection (dget params (lit ''environments'')) prior\<rparr>"
    using assms(1) unfolding selection_def Let_def bindE_Inr_iff by auto
  then have l: "l_cwd l = dir" "l_roots l = Some (case rs of None \<Rightarrow> [dir] | Some rs \<Rightarrow> rs)"
      "selected = (if l_enabled l then [selection_item (environment_id r) dir rs] else [])"
    by simp_all
  have "abs_ok dir" "\<And>x. rs = Some x \<Longrightarrow> list_all abs_ok x"
    using d explicit_selection_ok implicit_selection_ok [OF _ assms(2,3)] by (auto split: if_splits)
  with l show "loc_ok l" by (simp add: loc_ok_def split: option.split)
  from l show "\<exists>rs. selected = (if l_enabled l then [selection_item (environment_id r) (l_cwd l) rs] else []) \<and>
      l_roots l = Some (case rs of None \<Rightarrow> [l_cwd l] | Some rs \<Rightarrow> rs)" by blast
qed

lemma route_params_ok:
  assumes "route_params r m params = Inr (d, Some l)" and "router_ok r"
  shows "loc_ok l"
proof -
  consider (start) "route_start r m params = Inr (d, l)" | (update) "route_update r params = Inr l"
    using assms(1) by (auto simp: route_params_def bindE_Inr_iff split: if_splits)
  then show ?thesis
  proof cases
    case start
    then obtain k selected where "selection r params (kfind (locations r) k) = Inr (selected, l)"
      by (auto simp: route_start_def Let_def bindE_Inr_iff split: if_splits)
    from selection_ok(1) [OF this _ kfind_ok [OF assms(2)]] assms(2) show ?thesis by (simp add: router_ok_def)
  next
    case update
    then obtain k dir where "abs_ok dir" "l_cwd l = dir" "l_roots l = retarget (kfind (locations r) k) dir"
      by (auto simp: route_update_def Let_def bindE_Inr_iff dest: absolute_path_ok)
    with retarget_ok [of "kfind (locations r) k" dir, OF kfind_ok [OF assms(2)]] show ?thesis by (simp add: loc_ok_def split: option.split)
  qed
qed

lemma outgoing_keeps:
  assumes "outgoing r message = Inr (message', r')"
  shows "locations r' = locations r \<and> environment_id r' = environment_id r \<and> default_cwd r' = default_cwd r"
  using assms by (auto simp: outgoing_def Let_def bindE_Inr_iff split: if_splits)

lemma outgoing_ok:
  assumes "outgoing r message = Inr (message', r')" and "router_ok r"
  shows "router_ok r'"
proof -
  have "\<forall>x. l = Some x \<longrightarrow> loc_ok x" if "(k, m, t, l) \<in> set (pending r')" for k m t l
  proof (cases "(k, m, t, l) \<in> set (pending r)")
    case True
    with assms(2) show ?thesis by (auto simp: router_ok_def)
  next
    case False
    with that assms(1) obtain d where "route_params r m (obj_of (dget message (lit ''params''))) = Inr (d, l)"
      by (auto simp: outgoing_def Let_def bindE_Inr_iff split: if_splits dest!: dict_put_mem)
    with route_params_ok assms(2) show ?thesis by blast
  qed
  with outgoing_keeps [OF assms(1)] assms(2) show ?thesis by (auto simp: router_ok_def)
qed

lemma put_location_ok:
  "router_ok r \<Longrightarrow> loc_ok l \<Longrightarrow> router_ok (r\<lparr>locations := dict_put (locations r) k l\<rparr>)"
  by (auto simp: router_ok_def dest!: dict_put_mem)

lemma settings_updated_cases:
  assumes "settings_updated message r = Inr r'"
  obtains "r' = r"
    | k prior dir where "kfind (locations r) k = Some prior" and "abs_ok dir"
      and "r' = r\<lparr>locations := dict_put (locations r) k \<lparr>l_cwd = dir, l_roots = retarget (Some prior) dir, l_enabled = l_enabled prior\<rparr>\<rparr>"
proof (cases "r' = r")
  case False
  let ?d = "obj_of (get_or_empty message ''params'')"
  obtain k where key: "key_of (dget ?d (lit ''threadId'')) = Inr k" and obj: "is_obj (get_or_empty message ''params'')"
    using assms(1) by (auto simp: settings_updated_def Let_def bindE_Inr_iff split: if_splits)
  with False assms(1) obtain prior given where "kfind (locations r) k = Some prior" "settings_cwd ?d = Some given"
    by (cases "kfind (locations r) k"; cases "settings_cwd ?d") (auto simp: settings_updated_def Let_def)
  then obtain dir where k: "kfind (locations r) k = Some prior" "absolute_path given = Inr dir"
    "r' = r\<lparr>locations := dict_put (locations r) k \<lparr>l_cwd = dir, l_roots = retarget (Some prior) dir, l_enabled = l_enabled prior\<rparr>\<rparr>"
    using assms(1) key obj by (auto simp: settings_updated_def Let_def bindE_Inr_iff)
  with absolute_path_ok [OF k(2)] that(2) show thesis by blast
qed (use that in blast)

lemma settings_updated_ok:
  assumes "settings_updated message r = Inr r'" and "router_ok r"
  shows "router_ok r'"
  using assms(1)
proof (rule settings_updated_cases)
  fix k prior dir
  assume k: "kfind (locations r) k = Some prior" "abs_ok dir"
    "r' = r\<lparr>locations := dict_put (locations r) k \<lparr>l_cwd = dir, l_roots = retarget (Some prior) dir, l_enabled = l_enabled prior\<rparr>\<rparr>"
  have "loc_ok \<lparr>l_cwd = dir, l_roots = retarget (Some prior) dir, l_enabled = l_enabled prior\<rparr>"
    using k(2) retarget_ok [of "Some prior" dir] kfind_ok [OF assms(2) k(1)] by (intro loc_okI) auto
  with k(3) put_location_ok [OF assms(2)] show ?thesis by simp
qed (use assms in simp)

lemma thread_response_ok:
  assumes "thread_response d t location r = Inr r'" and "router_ok r" and "\<And>l. location = Some l \<Longrightarrow> loc_ok l"
  shows "router_ok r'"
proof -
  obtain dir rs k j where l: "r' = r\<lparr>locations := dict_put (locations r) k (learned dir rs location j)\<rparr>"
    "absolute_path (dget d (lit ''cwd'')) = Inr dir" "optional_roots (dget d (lit ''runtimeWorkspaceRoots'')) = Inr rs"
    using assms(1) by (auto simp: thread_response_def Let_def bindE_Inr_iff split: if_splits)
  then have "loc_ok (learned dir rs location j)"
    using assms(3) absolute_path_ok [OF l(2)] optional_roots_ok [OF l(3)]
    by (auto simp: learned_def intro!: loc_okI split: option.split)
  with l(1) put_location_ok [OF assms(2)] show ?thesis by simp
qed

lemma response_ok:
  assumes run: "response message (m, t, location) r = Inr r'" and ok: "router_ok r" and loc: "\<And>l. location = Some l \<Longrightarrow> loc_ok l"
  shows "router_ok r'"
proof (cases "m \<in> set (map lit [''thread/start'', ''thread/resume'', ''thread/fork''])")
  case True
  then have "thread_response (obj_of (dget message (lit ''result''))) t location r = Inr r'"
    using run unfolding response_def Let_def prod.case by (simp split: if_splits)
  from thread_response_ok [OF this ok loc] show ?thesis .
next
  case False
  show ?thesis
  proof (cases location)
    case None
    with False run ok show ?thesis unfolding response_def Let_def prod.case by (simp split: if_splits)
  next
    case (Some l)
    with False run have "r' = r \<or> (\<exists>k. r' = r\<lparr>locations := dict_put (locations r) k l\<rparr>)"
      unfolding response_def Let_def prod.case by (auto simp: bindE_Inr_iff split: if_splits)
    with ok put_location_ok [OF ok] loc Some show ?thesis by auto
  qed
qed

lemma drop_pending_ok: "router_ok r \<Longrightarrow> router_ok (r\<lparr>pending := kdrop k (pending r)\<rparr>)"
  by (auto simp: router_ok_def kdrop_def)

lemma keep_cases: "keep r q = (x, r') \<Longrightarrow> r' = r \<or> x = None \<and> q = Inr r'"
  by (cases q) (auto simp: keep_def)

text \<open>A message changes nothing, refreshes a location, or settles a pending request.\<close>

lemma incoming_cases:
  assumes run: "incoming r message = (x, r')"
  obtains (same) "r' = r"
    | (updated) "dget message (lit ''method'') = jlit ''thread/settings/updated''" and "x = None" and "settings_updated message r = Inr r'"
    | (dropped) k where "r' = r\<lparr>pending := kdrop k (pending r)\<rparr>"
    | (settled) k waiting where "key_of (dget message (lit ''id'')) = Inr k" and "kfind (pending r) k = Some waiting"
      and "\<not> has_key message (lit ''error'')" and "\<not> has_key message (lit ''method'')" and "x = None"
      and "response message waiting (r\<lparr>pending := kdrop k (pending r)\<rparr>) = Inr r'"
proof (cases "dget message (lit ''method'') = jlit ''thread/settings/updated''")
  case True
  with run keep_cases same updated show thesis by (simp add: incoming_def) blast
next
  case other: False
  show thesis
  proof (cases "has_key message (lit ''method'') \<or> \<not> has_key message (lit ''id'')")
    case True
    with run other same show thesis by (auto simp: incoming_def)
  next
    case False
    show thesis
    proof (cases "key_of (dget message (lit ''id''))")
      case (Inl e)
      with run other False same show thesis by (simp add: incoming_def)
    next
      case (Inr k)
      show thesis
      proof (cases "kfind (pending r) k")
        case None
        with run other False Inr same show thesis by (simp add: incoming_def)
      next
        case (Some waiting)
        let ?r = "r\<lparr>pending := kdrop k (pending r)\<rparr>"
        from run other False Inr Some have "(if has_key message (lit ''error'') then (None, ?r) else keep ?r (response message waiting ?r)) = (x, r')"
          by (simp add: incoming_def Let_def)
        with Inr Some False dropped [of k] settled [of k waiting] keep_cases show thesis by (auto split: if_splits)
      qed
    qed
  qed
qed

lemma incoming_ok:
  assumes run: "incoming r message = (x, r')" and ok: "router_ok r"
  shows "router_ok r'"
  using run
proof (cases rule: incoming_cases)
  case (settled k waiting)
  obtain m t location where w: "waiting = (m, t, location)" by (cases waiting)
  then have "\<And>l. location = Some l \<Longrightarrow> loc_ok l"
    using ok settled(2) by (fastforce simp: router_ok_def kfind_def split: if_splits dest!: map_of_SomeD)
  with response_ok [OF settled(6) [unfolded w] drop_pending_ok [OF ok]] show ?thesis by blast
qed (use ok settings_updated_ok drop_pending_ok in auto)

section \<open>What is sent\<close>

datatype direction = Outgoing dict | Incoming dict

inductive router_step :: "EnvironmentRouter \<Rightarrow> direction \<Rightarrow> EnvironmentRouter \<Rightarrow> bool" where
  sent: "outgoing r message = Inr (message', r') \<Longrightarrow> router_step r (Outgoing message) r'"
| refused: "outgoing r message = Inl e \<Longrightarrow> router_step r (Outgoing message) r"
| received: "incoming r message = (x, r') \<Longrightarrow> router_step r (Incoming message) r'"

inductive_cases router_stepE: "router_step r l r'"

definition router_inv :: "pystr \<Rightarrow> EnvironmentRouter \<Rightarrow> bool" where
  "router_inv eid r \<longleftrightarrow> router_ok r \<and> environment_id r = eid"

lemma response_keeps:
  assumes "response message waiting r = Inr r'"
  shows "environment_id r' = environment_id r" and "pending r' = pending r"
proof -
  obtain m t location where w: "waiting = (m, t, location)" by (cases waiting)
  have "thread_response d t location r = Inr r' \<Longrightarrow> environment_id r' = environment_id r \<and> pending r' = pending r" for d
    by (auto simp: thread_response_def Let_def bindE_Inr_iff split: if_splits)
  then have "environment_id r' = environment_id r \<and> pending r' = pending r"
    using assms unfolding w response_def Let_def prod.case
    by (cases location; cases "m \<in> set (map lit [''thread/start'', ''thread/resume'', ''thread/fork''])")
       (auto simp: bindE_Inr_iff split: if_splits)
  then show "environment_id r' = environment_id r" "pending r' = pending r" by simp_all
qed

lemma incoming_keeps:
  assumes "incoming r message = (x, r')"
  shows "environment_id r' = environment_id r"
  using assms
proof (cases rule: incoming_cases)
  case updated
  from updated(3) show ?thesis by (rule settings_updated_cases) auto
next
  case settled
  from response_keeps(1) [OF settled(6)] show ?thesis by simp
qed simp_all

interpretation router: invariant_system router_step "router_inv eid"
  by unfold_locales (auto elim!: router_stepE simp: router_inv_def outgoing_ok incoming_ok incoming_keeps outgoing_keeps)

lemma environment_router_inv: "environment_router identity dir = Inr r \<Longrightarrow> router_inv (str_of identity) r"
  by (auto simp: environment_router_def bindE_Inr_iff router_inv_def router_ok_def split: if_splits dest: absolute_path_ok)

lemma dget_put [simp]: "dget (dict_put d k v) k' = (if k' = k then v else dget d k')"
  by (simp add: dget_def dict_put_lookup)

lemma outgoing_routed:
  assumes "outgoing r message = Inr (message', r')" and "dget message (lit ''method'') = JStr m" and "m \<in> set ROUTED_METHODS"
  obtains d location where "route_params r m (obj_of (dget message (lit ''params''))) = Inr (d, location)"
    and "message' = dict_put message (lit ''params'') (JObj d)" and "is_obj (dget message (lit ''params''))"
  using assms by (auto simp: outgoing_def Let_def in_words_def bindE_Inr_iff split: if_splits)

lemma in_words_iff: "in_words v ws = Inr b \<Longrightarrow> b \<longleftrightarrow> (\<exists>m. v = JStr m \<and> m \<in> set ws)"
  by (cases v rule: key_of.cases) (auto simp: in_words_def)

lemma outgoing_unrouted:
  assumes "outgoing r message = Inr (message', r')" and "\<nexists>m. dget message (lit ''method'') = JStr m \<and> m \<in> set ROUTED_METHODS"
  shows "message' = message"
proof -
  obtain b where b: "in_words (dget message (lit ''method'')) ROUTED_METHODS = Inr b"
    using assms(1) by (auto simp: outgoing_def bindE_Inr_iff)
  with in_words_iff [OF b] assms show ?thesis by (simp add: outgoing_def)
qed

text \<open>C9: whatever has been sent and received before, a request that starts a thread or a turn leaves the
  router either without an environment or with exactly one, the configured one and never \<open>local\<close>, in an
  absolute directory with absolute workspace roots.\<close>

theorem routed_to_environment:
  assumes "environment_router identity dir = Inr r0" and "run router_step r0 ls r" and "outgoing r message = Inr (message', r')"
    and "dget message (lit ''method'') = jlit ''thread/start'' \<or> dget message (lit ''method'') = jlit ''turn/start''"
  shows "dget (obj_of (dget message' (lit ''params''))) (lit ''environments'') = JArr [] \<or>
    (\<exists>where' rs. dget (obj_of (dget message' (lit ''params''))) (lit ''environments'') = JArr [selection_item (str_of identity) where' rs] \<and>
      str_of identity \<noteq> lit ''local'' \<and> abs_ok where' \<and> (\<forall>x. rs = Some x \<longrightarrow> list_all abs_ok x))"
proof -
  have inv: "router_ok r" "environment_id r = str_of identity"
    using router.run_preserves [OF assms(2) environment_router_inv [OF assms(1)]] by (simp_all add: router_inv_def)
  obtain m where m: "dget message (lit ''method'') = JStr m" "m = lit ''thread/start'' \<or> m = lit ''turn/start''"
    using assms(4) by blast
  then have "m \<in> set ROUTED_METHODS" by (auto simp: ROUTED_METHODS_def)
  from outgoing_routed [OF assms(3) m(1) this] obtain d location where
    d: "route_params r m (obj_of (dget message (lit ''params''))) = Inr (d, location)" "message' = dict_put message (lit ''params'') (JObj d)"
    by blast
  have "m \<noteq> lit ''initialize''" using m(2) by auto
  with d(1) m(2) obtain l where "route_start r m (obj_of (dget message (lit ''params''))) = Inr (d, l)"
    by (auto simp: route_params_def bindE_Inr_iff)
  then obtain k selected where sel: "selection r (obj_of (dget message (lit ''params''))) (kfind (locations r) k) = Inr (selected, l)"
    "d = dict_put (obj_of (dget message (lit ''params''))) (lit ''environments'') (JArr selected)"
    by (auto simp: route_start_def Let_def bindE_Inr_iff split: if_splits)
  have ok: "abs_ok (default_cwd r)" "environment_id r \<noteq> lit ''local''" using inv(1) by (simp_all add: router_ok_def)
  have prior: "\<And>p. kfind (locations r) k = Some p \<Longrightarrow> loc_ok p" by (rule kfind_ok [OF inv(1)])
  have l: "loc_ok l" by (rule selection_ok(1) [OF sel(1) ok(1) prior])
  obtain rs where rs: "selected = (if l_enabled l then [selection_item (environment_id r) (l_cwd l) rs] else [])"
    "l_roots l = Some (case rs of None \<Rightarrow> [l_cwd l] | Some rs \<Rightarrow> rs)"
    using selection_ok(2) [OF sel(1) ok(1) prior] by blast
  have "list_all abs_ok x" if "rs = Some x" for x using l rs(2) that by (simp add: loc_ok_def)
  moreover have "abs_ok (l_cwd l)" using l by (simp add: loc_ok_def)
  ultimately show ?thesis using rs(1) sel(2) d(2) inv(2) ok(2) by auto
qed


text \<open>C38: where a thread works is learned only from a response without error to a request that is pending,
  with an object as its result, or from the notification of its settings; sending, errors and anything else
  that arrives leave all locations as they are.\<close>

theorem locations_from_success:
  assumes "router_step r l r'" and "locations r' \<noteq> locations r"
  shows "\<exists>message. l = Incoming message \<and>
    (dget message (lit ''method'') = jlit ''thread/settings/updated'' \<or>
     (\<exists>k m t loc. key_of (dget message (lit ''id'')) = Inr k \<and> kfind (pending r) k = Some (m, t, loc) \<and>
       \<not> has_key message (lit ''method'') \<and> \<not> has_key message (lit ''error'') \<and> is_obj (dget message (lit ''result''))))"
  using assms(1)
proof (cases rule: router_step.cases)
  case (sent message message')
  with outgoing_keeps [OF sent(2)] assms(2) show ?thesis by simp
next
  case (received message x)
  from received(2) show ?thesis
  proof (cases rule: incoming_cases)
    case (settled k waiting)
    obtain m t loc where "waiting = (m, t, loc)" by (cases waiting)
    moreover from this settled(6) have "is_obj (dget message (lit ''result''))" by (auto simp: response_def Let_def split: if_splits)
    ultimately show ?thesis using settled received(1) by blast
  qed (use assms(2) received(1) in auto)
qed (use assms(2) in simp)


section \<open>Examples\<close>

definition example_router :: EnvironmentRouter where
  "example_router = \<lparr>environment_id = lit ''foldgpt'', default_cwd = lit ''/root'', locations = [], pending = []\<rparr>"

definition example_start :: dict where
  "example_start = [(lit ''id'', JInt 7), (lit ''method'', jlit ''thread/start''), (lit ''params'', JObj [(lit ''model'', jlit ''m'')])]"

definition example_started :: dict where
  "example_started = [(lit ''id'', JInt 7), (lit ''result'', JObj [(lit ''thread'', JObj [(lit ''id'', jlit ''t'')]), (lit ''cwd'', jlit ''/root'')])]"

definition example_waiting :: EnvironmentRouter where
  "example_waiting = example_router\<lparr>pending := [(KNum 7, lit ''thread/start'', JNull,
     Some \<lparr>l_cwd = lit ''/root'', l_roots = Some [lit ''/root''], l_enabled = True\<rparr>)]\<rparr>"

lemma example_routed:
  "outgoing example_router example_start = Inr (dict_put example_start (lit ''params'') (JObj [(lit ''model'', jlit ''m''),
     (lit ''environments'', JArr [selection_item (lit ''foldgpt'') (lit ''/root'') None])]), example_waiting)"
  by (simp add: outgoing_def example_start_def in_words_def ROUTED_METHODS_def route_params_def route_start_def
      selection_def implicit_selection_def retarget_def kfind_def disabled_selection_def example_router_def example_waiting_def Let_def has_key_def dget_def lit_def)

lemma example_router_made: "environment_router (jlit ''foldgpt'') (jlit ''/root'') = Inr example_router"
  by (simp add: environment_router_def absolute_path_def lower_ascii_def id_char_def example_router_def lit_def)

theorem routed_to_environment_witness:
  "\<exists>message' r' where' rs. outgoing example_router example_start = Inr (message', r') \<and>
    dget (obj_of (dget message' (lit ''params''))) (lit ''environments'') = JArr [selection_item (lit ''foldgpt'') where' rs] \<and> abs_ok where'"
proof -
  have "dget example_start (lit ''method'') = jlit ''thread/start'' \<or> dget example_start (lit ''method'') = jlit ''turn/start''"
    by (simp add: example_start_def dget_def lit_def)
  from routed_to_environment [OF example_router_made run.run_Nil example_routed this] example_routed show ?thesis
    by (auto simp: selection_item_def)
qed


theorem locations_from_success_witness:
  "\<exists>r'. router_step example_waiting (Incoming example_started) r' \<and> locations r' \<noteq> locations example_waiting \<and>
    \<not> has_key example_started (lit ''error'')"
proof -
  obtain r' where r: "incoming example_waiting example_started = (None, r')" "locations r' \<noteq> []"
    by (simp add: incoming_def example_started_def example_waiting_def example_router_def kfind_def keep_def response_def thread_response_def
        absolute_path_def optional_roots_def Let_def has_key_def dget_def lit_def)
  have s: "router_step example_waiting (Incoming example_started) r'" using r(1) by (rule router_step.received)
  have c: "locations r' \<noteq> locations example_waiting" using r(2) by (simp add: example_waiting_def example_router_def)
  have "dget example_started (lit ''method'') \<noteq> jlit ''thread/settings/updated''" by (simp add: example_started_def dget_def lit_def)
  with locations_from_success [OF s c] s c show ?thesis by auto
qed

end
