(* ===== verification/Spec2Isabelle.thy ===== *)
theory Spec2Isabelle
  imports PolicyIntent NativePathUri ExecTransport Environment OrdinaryFilesFacts ProcessLifecycle AppServerRouting
begin

text \<open>
  A verification library for FoldGPT's executor boundary.  (Draft header.)
\<close>

end
